(* ===== verification/Py_Prelude.thy ===== *)
theory Py_Prelude
  imports Complex_Main
begin

text \<open>
  The part of Python that every component uses: exceptions as values, sequencing of
  computations that may raise, loops over lists that may raise, list subscription with
  Python's negative indices, and a file system of text files.

  A function of the model returns \<open>'a res\<close>: \<open>Inl e\<close> when the source raises \<open>e\<close> and
  nothing catches it, \<open>Inr v\<close> when it returns \<open>v\<close>. An \<open>OSError\<close> is always caught by
  the function that opens the file, so it is not a value of \<open>py_error\<close>: opening returns
  an option and the caller takes its \<open>except\<close> branch on \<open>None\<close>.
\<close>

section \<open>Exceptions as values\<close>

datatype py_error =
    IndexError
  | KeyError
  | ValueError
  | TypeError
  | ZeroDivisionError
  | AssertionError
  | UnboundLocalError
  | AttributeError
  | StopIteration
  | SystemExit
  | OutOfModel \<comment> \<open>the source goes on with a value this model has no representation for\<close>

type_synonym 'a res = "py_error + 'a"

named_theorems res_simps \<open>how the sequencing operations compute on returned and raised values\<close>
named_theorems res_intros \<open>when a loop that may raise returns\<close>

definition bindE :: "'a res \<Rightarrow> ('a \<Rightarrow> 'b res) \<Rightarrow> 'b res" where
  "bindE m f = (case m of Inl e \<Rightarrow> Inl e | Inr x \<Rightarrow> f x)"

lemma bindE_Inr [simp, res_simps]: "bindE (Inr x) f = f x"
  by (simp add: bindE_def)

lemma bindE_Inl [simp, res_simps]: "bindE (Inl e) f = Inl e"
  by (simp add: bindE_def)

lemma bindE_eq_Inr: "bindE m f = Inr y \<longleftrightarrow> (\<exists>x. m = Inr x \<and> f x = Inr y)"
  by (cases m) simp_all

lemma bindE_assoc: "bindE (bindE m f) g = bindE m (\<lambda>x. bindE (f x) g)"
  by (cases m) simp_all

lemma bindE_cong [fundef_cong]:
  "m = m' \<Longrightarrow> (\<And>x. m' = Inr x \<Longrightarrow> f x = f' x) \<Longrightarrow> bindE m f = bindE m' f'"
  by (cases m') simp_all

text \<open>What holds of every value that is returned.\<close>

named_theorems res_all_intros \<open>rules for what holds of a returned value\<close>

definition res_all :: "('a \<Rightarrow> bool) \<Rightarrow> 'a res \<Rightarrow> bool" where
  "res_all P r = (case r of Inl e \<Rightarrow> True | Inr x \<Rightarrow> P x)"

lemma res_allD: "res_all P r \<Longrightarrow> r = Inr x \<Longrightarrow> P x"
  by (simp add: res_all_def)

lemma res_all_Inr [res_all_intros]: "P x \<Longrightarrow> res_all P (Inr x)"
  by (simp add: res_all_def)

lemma res_all_Inl [res_all_intros]: "res_all P (Inl e)"
  by (simp add: res_all_def)

lemma res_all_bindE [res_all_intros]: "(\<And>x. m = Inr x \<Longrightarrow> res_all P (f x)) \<Longrightarrow> res_all P (bindE m f)"
  by (cases m) (simp_all add: res_all_def)

lemma res_all_if [res_all_intros]:
  "(b \<Longrightarrow> res_all P r) \<Longrightarrow> (\<not> b \<Longrightarrow> res_all P s) \<Longrightarrow> res_all P (if b then r else s)"
  by simp

lemma res_all_option [res_all_intros]:
  "(x = None \<Longrightarrow> res_all P r) \<Longrightarrow> (\<And>y. x = Some y \<Longrightarrow> res_all P (f y)) \<Longrightarrow>
   res_all P (case x of None \<Rightarrow> r | Some y \<Rightarrow> f y)"
  by (cases x) simp_all

lemma res_all_prod [res_all_intros]:
  "(\<And>a b. p = (a, b) \<Longrightarrow> res_all P (f a b)) \<Longrightarrow> res_all P (case p of (a, b) \<Rightarrow> f a b)"
  by (cases p) simp_all

text \<open>A dictionary read \<open>d[k]\<close>: the key may be missing.\<close>

definition key :: "'a option \<Rightarrow> 'a res" where
  "key m = (case m of None \<Rightarrow> Inl KeyError | Some v \<Rightarrow> Inr v)"

lemma key_simps [simp, res_simps]: "key None = Inl KeyError" "key (Some v) = Inr v"
  by (simp_all add: key_def)

section \<open>Loops that may raise\<close>

text \<open>A list comprehension whose element expression may raise.\<close>

fun mapE :: "('a \<Rightarrow> 'b res) \<Rightarrow> 'a list \<Rightarrow> 'b list res" where
  "mapE f [] = Inr []"
| "mapE f (x # xs) = bindE (f x) (\<lambda>y. bindE (mapE f xs) (\<lambda>ys. Inr (y # ys)))"

text \<open>A \<open>for\<close> loop over a list that updates a state.\<close>

fun foldE :: "('s \<Rightarrow> 'a \<Rightarrow> 's res) \<Rightarrow> 's \<Rightarrow> 'a list \<Rightarrow> 's res" where
  "foldE f s [] = Inr s"
| "foldE f s (x # xs) = bindE (f s x) (\<lambda>s'. foldE f s' xs)"

lemma mapE_cong [fundef_cong]:
  "xs = ys \<Longrightarrow> (\<And>x. x \<in> set ys \<Longrightarrow> f x = g x) \<Longrightarrow> mapE f xs = mapE g ys"
  by (induction xs arbitrary: ys) auto

lemma foldE_cong [fundef_cong]:
  "s = t \<Longrightarrow> xs = ys \<Longrightarrow> (\<And>s x. x \<in> set ys \<Longrightarrow> f s x = g s x) \<Longrightarrow> foldE f s xs = foldE g t ys"
  by (induction xs arbitrary: s t ys) (auto intro!: bindE_cong)

lemma mapE_returns [res_intros]:
  "(\<And>x. x \<in> set xs \<Longrightarrow> f x = Inr (g x)) \<Longrightarrow> mapE f xs = Inr (map g xs)"
  by (induction xs) simp_all

lemma mapE_Inr_iff: "mapE f xs = Inr ys \<longleftrightarrow> list_all2 (\<lambda>x y. f x = Inr y) xs ys"
  by (induction xs arbitrary: ys) (auto simp: bindE_eq_Inr list_all2_Cons1)

lemma mapE_length: "mapE f xs = Inr ys \<Longrightarrow> length ys = length xs"
  by (auto simp: mapE_Inr_iff dest: list_all2_lengthD)

lemma mapE_map: "mapE f (map h xs) = mapE (\<lambda>x. f (h x)) xs"
  by (induction xs) simp_all

lemma mapE_append: "mapE f (xs @ ys) = bindE (mapE f xs) (\<lambda>as. bindE (mapE f ys) (\<lambda>bs. Inr (as @ bs)))"
  by (induction xs) (simp_all add: bindE_assoc, simp add: bindE_def split: sum.split)

lemma foldE_append: "foldE f s (xs @ ys) = bindE (foldE f s xs) (\<lambda>t. foldE f t ys)"
  by (induction xs arbitrary: s) (simp_all add: bindE_assoc)

lemma foldE_map: "foldE f s (map h xs) = foldE (\<lambda>s x. f s (h x)) s xs"
  by (induction xs arbitrary: s) simp_all

text \<open>A loop in a loop is one loop over all pairs.\<close>

lemma foldE_concat: "foldE (\<lambda>s x. foldE f s (g x)) s xs = foldE f s (concat (map g xs))"
  by (induction xs arbitrary: s) (simp_all add: foldE_append)

lemma foldE_returns [res_intros]:
  "(\<And>s x. x \<in> set xs \<Longrightarrow> f s x = Inr (g s x)) \<Longrightarrow> foldE f s xs = Inr (foldl g s xs)"
  by (induction xs arbitrary: s) simp_all

text \<open>An invariant of the loop body holds for every state the loop returns.\<close>

lemma foldE_invariant:
  assumes "foldE f s xs = Inr t" and "P s"
    and "\<And>s x s'. x \<in> set xs \<Longrightarrow> P s \<Longrightarrow> f s x = Inr s' \<Longrightarrow> P s'"
  shows "P t"
  using assms by (induction xs arbitrary: s) (auto simp: bindE_eq_Inr)

section \<open>Subscription\<close>

text \<open>
  \<open>xs[i]\<close>: an index in \<open>[0, n)\<close> reads from the start, one in \<open>[-n, 0)\<close> from the end, and
  every other index raises \<open>IndexError\<close>.
\<close>

definition norm_index :: "nat \<Rightarrow> int \<Rightarrow> nat option" where
  "norm_index n i =
     (if 0 \<le> i \<and> i < int n then Some (nat i)
      else if - int n \<le> i \<and> i < 0 then Some (nat (int n + i))
      else None)"

definition get_item :: "'a list \<Rightarrow> int \<Rightarrow> 'a res" where
  "get_item xs i =
     (case norm_index (length xs) i of None \<Rightarrow> Inl IndexError | Some k \<Rightarrow> Inr (xs ! k))"

definition set_item :: "'a list \<Rightarrow> int \<Rightarrow> 'a \<Rightarrow> 'a list res" where
  "set_item xs i v =
     (case norm_index (length xs) i of None \<Rightarrow> Inl IndexError | Some k \<Rightarrow> Inr (xs[k := v]))"

lemma norm_index_nonneg: "0 \<le> i \<Longrightarrow> norm_index n i = (if i < int n then Some (nat i) else None)"
  by (auto simp: norm_index_def)

lemma get_item_in [res_intros]: "0 \<le> i \<Longrightarrow> i < int (length xs) \<Longrightarrow> get_item xs i = Inr (xs ! nat i)"
  by (simp add: get_item_def norm_index_nonneg)

lemma get_item_nat [res_intros]: "k < length xs \<Longrightarrow> get_item xs (int k) = Inr (xs ! k)"
  by (simp add: get_item_in)

lemma get_item_out: "int (length xs) \<le> i \<Longrightarrow> get_item xs i = Inl IndexError"
  by (simp add: get_item_def norm_index_def)

lemma set_item_in [res_intros]:
  "0 \<le> i \<Longrightarrow> i < int (length xs) \<Longrightarrow> set_item xs i v = Inr (xs[nat i := v])"
  by (simp add: set_item_def norm_index_nonneg)

lemma set_item_length: "set_item xs i v = Inr ys \<Longrightarrow> length ys = length xs"
  by (auto simp: set_item_def split: option.splits)

text \<open>The extended slices \<open>xs[::2]\<close> and \<open>xs[1::2]\<close>.\<close>

fun evens :: "'a list \<Rightarrow> 'a list" where
  "evens [] = []"
| "evens [x] = [x]"
| "evens (x # y # zs) = x # evens zs"

fun odds :: "'a list \<Rightarrow> 'a list" where
  "odds [] = []"
| "odds [x] = []"
| "odds (x # y # zs) = y # odds zs"

lemma evens_odds_pairs [simp]:
  "evens (concat (map (\<lambda>(a, b). [a, b]) ps)) = map fst ps"
  "odds (concat (map (\<lambda>(a, b). [a, b]) ps)) = map snd ps"
  by (induction ps) auto

lemma set_evens: "set (evens xs) \<subseteq> set xs"
  by (induction xs rule: evens.induct) auto

lemma Max_insert_Max:
  fixes A B :: "'a::linorder set"
  assumes "finite A" "A \<noteq> {}" "finite B"
  shows "Max (insert (Max A) B) = Max (A \<union> B)"
  using assms by (cases "B = {}") (simp_all add: Max_Un)

section \<open>Files\<close>

text \<open>
  A file system holds text by path. \<open>readable\<close>, \<open>writable\<close> and \<open>creatable\<close> say for which
  paths opening for reading, opening for writing and \<open>os.makedirs\<close> do not raise
  \<open>OSError\<close>; they belong to the environment and no operation changes them.
\<close>

record fs =
  files :: "string \<Rightarrow> string option"
  dirs :: "string \<Rightarrow> bool"
  readable :: "string \<Rightarrow> bool"
  writable :: "string \<Rightarrow> bool"
  creatable :: "string \<Rightarrow> bool"

definition is_file :: "fs \<Rightarrow> string \<Rightarrow> bool" where
  "is_file w p = (files w p \<noteq> None)"

definition open_read :: "fs \<Rightarrow> string \<Rightarrow> string option" where
  "open_read w p = (if readable w p then files w p else None)"

definition write_file :: "fs \<Rightarrow> string \<Rightarrow> string \<Rightarrow> fs option" where
  "write_file w p s = (if writable w p then Some (w\<lparr>files := (files w)(p := Some s)\<rparr>) else None)"

definition make_dirs :: "fs \<Rightarrow> string \<Rightarrow> fs option" where
  "make_dirs w p = (if creatable w p then Some (w\<lparr>dirs := (dirs w)(p := True)\<rparr>) else None)"

definition remove_file :: "fs \<Rightarrow> string \<Rightarrow> fs" where
  "remove_file w p = w\<lparr>files := (files w)(p := None)\<rparr>"

lemma open_read_write_file:
  "write_file w p s = Some w' \<Longrightarrow>
   open_read w' q = (if q = p then (if readable w p then Some s else None) else open_read w q)"
  by (auto simp: write_file_def open_read_def split: if_splits)

text \<open>A disk with the given files where every access is allowed.\<close>

definition fs_of :: "(string \<times> string) list \<Rightarrow> fs" where
  "fs_of ps = \<lparr>files = map_of ps, dirs = (\<lambda>_. False), readable = (\<lambda>_. True),
     writable = (\<lambda>_. True), creatable = (\<lambda>_. True)\<rparr>"

lemma open_read_fs_of [simp]: "open_read (fs_of ps) p = map_of ps p"
  by (simp add: open_read_def fs_of_def)

end
