(* ===== verification/Py_Float.thy ===== *)
theory Py_Float
  imports Py_Prelude "HOL-Library.Log_Nat"
begin

text \<open>
  Python's \<open>float\<close> is IEEE 754 binary64. A finite float is represented by its exact value, a
  rational, and every operation rounds the exact result to 53 significant bits, ties to even
  (\<open>fl64\<close>). The exponent range is not bounded: overflow to infinity (beyond \<open>2 ^ 1024\<close>) and
  the loss of precision below \<open>2 ^ -1022\<close> are outside the model, and so is the sign of zero.

  The locale \<open>rounding\<close> states what the algorithms of the program rely on, and its lemmas
  bound the error of a running sum. It is interpreted on \<open>fl64\<close> with unit roundoff \<open>2 ^ -53\<close>.
\<close>

section \<open>Rounding to binary64\<close>

definition round_half_even :: "rat \<Rightarrow> int" where
  "round_half_even x =
     (let f = \<lfloor>x\<rfloor>; r = x - of_int f
      in if r < 1 / 2 then f else if 1 / 2 < r then f + 1 else if even f then f else f + 1)"

text \<open>The exponent \<open>e\<close> with \<open>2 ^ e \<le> q < 2 ^ (e + 1)\<close>, from the bit lengths of the fraction.\<close>

definition exponent2 :: "rat \<Rightarrow> int" where
  "exponent2 q =
     (let (n, d) = quotient_of q; e = bitlen n - bitlen d
      in if q < 2 powi e then e - 1 else e)"

definition round_pos :: "rat \<Rightarrow> rat" where
  "round_pos q =
     (let ulp = 2 powi (exponent2 q - 52) in of_int (round_half_even (q / ulp)) * ulp)"

definition fl64 :: "rat \<Rightarrow> rat" where
  "fl64 q = (if q = 0 then 0 else if q < 0 then - round_pos (- q) else round_pos q)"

definition is_float :: "rat \<Rightarrow> bool" where
  "is_float q = (fl64 q = q)"

text \<open>The arithmetic of floats, and the conversion of an \<open>int\<close> operand.\<close>

definition fl_int :: "int \<Rightarrow> rat" where
  "fl_int n = fl64 (of_int n)"

definition fadd :: "rat \<Rightarrow> rat \<Rightarrow> rat" where
  "fadd x y = fl64 (x + y)"

definition fsub :: "rat \<Rightarrow> rat \<Rightarrow> rat" where
  "fsub x y = fl64 (x - y)"

definition fmul :: "rat \<Rightarrow> rat \<Rightarrow> rat" where
  "fmul x y = fl64 (x * y)"

definition fdiv :: "rat \<Rightarrow> rat \<Rightarrow> rat res" where
  "fdiv x y = (if y = 0 then Inl ZeroDivisionError else Inr (fl64 (x / y)))"

section \<open>Properties of the rounding\<close>

lemma round_half_even_int [simp]: "round_half_even (of_int n) = n"
  by (simp add: round_half_even_def Let_def)

lemma round_half_even_near: "\<bar>of_int (round_half_even x) - x\<bar> \<le> 1 / 2"
  unfolding round_half_even_def Let_def
  by (cases "x - of_int \<lfloor>x\<rfloor> < 1 / 2") (use floor_correct [of x] in auto)

lemma round_half_even_mono:
  assumes "x \<le> y"
  shows "round_half_even x \<le> round_half_even y"
proof (cases "\<lfloor>x\<rfloor> = \<lfloor>y\<rfloor>")
  case True
  then show ?thesis using assms by (auto simp: round_half_even_def Let_def)
next
  case False
  then have "\<lfloor>x\<rfloor> + 1 \<le> \<lfloor>y\<rfloor>" using floor_mono [OF assms] by linarith
  then show ?thesis by (auto simp: round_half_even_def Let_def)
qed

lemma bitlen_powi_bounds:
  assumes "0 < n"
  shows "2 powi (bitlen n - 1) \<le> (of_int n :: rat)" "(of_int n :: rat) < 2 powi (bitlen n)"
proof -
  have pos: "1 \<le> bitlen n" using assms by (simp add: bitlen_alt_def)
  have le: "2 ^ nat (bitlen n - 1) \<le> n" and lt: "n < 2 ^ nat (bitlen n)"
    using bitlen_bounds [OF assms] by auto
  have "(2 :: rat) powi (bitlen n - 1) = of_int (2 ^ nat (bitlen n - 1))"
    using pos by (simp add: power_int_def)
  also have "\<dots> \<le> of_int n" using le by (simp only: of_int_le_iff)
  finally show "2 powi (bitlen n - 1) \<le> (of_int n :: rat)" .
  have "(of_int n :: rat) < of_int (2 ^ nat (bitlen n))" using lt by (simp only: of_int_less_iff)
  also have "\<dots> = 2 powi (bitlen n)" using pos by (simp add: power_int_def)
  finally show "(of_int n :: rat) < 2 powi (bitlen n)" .
qed

lemma exponent2_bounds:
  assumes "0 < q"
  shows "2 powi exponent2 q \<le> q" "q < 2 powi (exponent2 q + 1)"
proof -
  obtain n d where nd: "quotient_of q = (n, d)" by fastforce
  have d: "0 < d" and q: "q = of_int n / of_int d"
    using nd quotient_of_denom_pos quotient_of_div by auto
  then have n: "0 < n" using assms by (simp add: zero_less_divide_iff)
  note N = bitlen_powi_bounds [OF n] and D = bitlen_powi_bounds [OF d]
  let ?e = "bitlen n - bitlen d"
  have "2 powi (?e - 1) * of_int d < 2 powi (?e - 1) * (2 powi (bitlen d) :: rat)"
    using D by simp
  also have "\<dots> = 2 powi (bitlen n - 1)" by (simp flip: power_int_add)
  also have "\<dots> \<le> of_int n" by (rule N)
  finally have low: "2 powi (?e - 1) \<le> q" using d by (simp add: q field_simps)
  have "(of_int n :: rat) < 2 powi (bitlen n)" by (rule N)
  also have "\<dots> = 2 powi (?e + 1) * 2 powi (bitlen d - 1)" by (simp flip: power_int_add)
  also have "\<dots> \<le> 2 powi (?e + 1) * of_int d" using D by simp
  finally have high: "q < 2 powi (?e + 1)" using d by (simp add: q field_simps)
  show "2 powi exponent2 q \<le> q" "q < 2 powi (exponent2 q + 1)"
    using low high by (auto simp: exponent2_def nd Let_def)
qed

lemma powi_mono2: "i \<le> j \<Longrightarrow> (2 :: rat) powi i \<le> 2 powi j"
  by (rule power_int_increasing) auto

lemma powi_pos2 [simp]: "0 < (2 :: rat) powi i"
  by (simp add: zero_less_power_int)

lemma exponent2_mono:
  assumes "0 < x" "x \<le> y"
  shows "exponent2 x \<le> exponent2 y"
proof (rule ccontr)
  assume "\<not> ?thesis"
  then have "2 powi (exponent2 y + 1) \<le> (2 :: rat) powi exponent2 x" by (intro powi_mono2) simp
  then show False using exponent2_bounds [of x] exponent2_bounds [of y] assms by linarith
qed

lemma round_pos_binade:
  assumes "0 < q"
  shows "2 powi exponent2 q \<le> round_pos q" "round_pos q \<le> 2 powi (exponent2 q + 1)"
proof -
  let ?e = "exponent2 q" and ?u = "2 powi (exponent2 q - 52) :: rat"
  have lo: "2 powi ?e = of_int (2 ^ 52) * ?u" and hi: "2 powi (?e + 1) = of_int (2 ^ 53) * ?u"
    by (simp_all add: power_int_diff power_int_add)
  have "of_int (2 ^ 52) \<le> q / ?u" "q / ?u \<le> of_int (2 ^ 53)"
    using exponent2_bounds [OF assms] by (simp_all only: lo hi) (simp_all add: field_simps)
  then have "2 ^ 52 \<le> round_half_even (q / ?u)" "round_half_even (q / ?u) \<le> 2 ^ 53"
    using round_half_even_mono round_half_even_int by metis+
  then have "(of_int (2 ^ 52) :: rat) \<le> of_int (round_half_even (q / ?u))"
    "(of_int (round_half_even (q / ?u)) :: rat) \<le> of_int (2 ^ 53)"
    by (simp_all only: of_int_le_iff)
  then show "2 powi ?e \<le> round_pos q" "round_pos q \<le> 2 powi (?e + 1)"
    unfolding round_pos_def Let_def lo hi by (simp_all add: mult_right_mono)
qed

lemma round_pos_mono:
  assumes "0 < x" "x \<le> y"
  shows "round_pos x \<le> round_pos y"
proof (cases "exponent2 x = exponent2 y")
  case True
  then show ?thesis using assms
    by (auto simp: round_pos_def Let_def divide_right_mono
        intro!: mult_right_mono round_half_even_mono)
next
  case False
  then have "exponent2 x + 1 \<le> exponent2 y" using exponent2_mono [OF assms] by simp
  then have "(2 :: rat) powi (exponent2 x + 1) \<le> 2 powi exponent2 y" by (rule powi_mono2)
  then show ?thesis using round_pos_binade [of x] round_pos_binade [of y] assms by linarith
qed

lemma powi_not_neg2 [simp]: "\<not> (2 :: rat) powi i < 0"
  using powi_pos2 [of i] by linarith

lemma round_pos_positive: "0 < q \<Longrightarrow> 0 < round_pos q"
  using round_pos_binade(1) powi_pos2 by (meson less_le_trans)

lemma round_pos_error:
  assumes "0 < q"
  shows "\<bar>round_pos q - q\<bar> \<le> q / 2 ^ 53"
proof -
  let ?u = "2 powi (exponent2 q - 52) :: rat"
  have "round_pos q - q = (of_int (round_half_even (q / ?u)) - q / ?u) * ?u"
    by (simp add: round_pos_def Let_def field_simps)
  then have "\<bar>round_pos q - q\<bar> \<le> 1 / 2 * ?u"
    using round_half_even_near [of "q / ?u"] by (simp add: abs_mult mult_right_mono)
  also have "\<dots> = 2 powi exponent2 q / 2 ^ 53" by (simp add: power_int_diff)
  also have "\<dots> \<le> q / 2 ^ 53" using exponent2_bounds [OF assms] by (simp add: divide_right_mono)
  finally show ?thesis .
qed

lemma round_pos_exact:
  assumes "0 < m" "m \<le> 2 ^ 53" "q = of_int m * 2 powi k"
  shows "round_pos q = q"
proof -
  have pos: "0 < q" using assms by simp
  have "\<exists>n. q = of_int n * 2 powi (exponent2 q - 52)"
  proof (cases "exponent2 q - 52 \<le> k")
    case True
    have "q = of_int (m * 2 ^ nat (k - (exponent2 q - 52))) * 2 powi (exponent2 q - 52)"
      using True by (simp add: assms(3) flip: power_int_add power_int_of_nat)
    then show ?thesis by blast
  next
    case False
    have "q \<le> of_int (2 ^ 53) * 2 powi k" using assms by (simp only: mult_right_mono of_int_le_iff) simp
    also have "\<dots> = 2 powi (k + 53)" by (simp add: power_int_add)
    also have "\<dots> \<le> 2 powi exponent2 q" using False by (intro powi_mono2) simp
    finally have "q = 2 powi exponent2 q" using exponent2_bounds [OF pos] by simp
    then have "q = of_int (2 ^ 52) * 2 powi (exponent2 q - 52)" by (simp add: power_int_diff)
    then show ?thesis by blast
  qed
  then obtain n where n: "q = of_int n * 2 powi (exponent2 q - 52)" by blast
  then have "q / 2 powi (exponent2 q - 52) = of_int n" by (simp add: field_simps)
  then show ?thesis using n by (simp add: round_pos_def Let_def)
qed

lemma fl64_0 [simp]: "fl64 0 = 0"
  by (simp add: fl64_def)

lemma fl64_minus: "fl64 (- q) = - fl64 q"
  by (simp add: fl64_def)

lemma fl64_nonneg: "0 \<le> q \<Longrightarrow> 0 \<le> fl64 q"
  using round_pos_positive [of q] by (cases "q = 0") (simp_all add: fl64_def less_imp_le)

lemma fl64_mono:
  assumes "x \<le> y"
  shows "fl64 x \<le> fl64 y"
proof -
  have "fl64 x \<le> 0" if "x \<le> 0" for x
    using fl64_nonneg [of "- x"] that by (simp add: fl64_minus)
  moreover have "round_pos x \<le> round_pos y" if "0 < x" using round_pos_mono that assms by blast
  moreover have "round_pos (- y) \<le> round_pos (- x)" if "y < 0"
    using round_pos_mono [of "- y" "- x"] that assms by simp
  ultimately show ?thesis
    using assms by (cases "0 < x"; cases "y < 0") (force simp: fl64_def | meson fl64_nonneg not_less order_trans)+
qed

lemma fl64_error: "\<bar>fl64 q - q\<bar> \<le> \<bar>q\<bar> / 2 ^ 53"
proof -
  consider "q = 0" | "0 < q" | "q < 0" by linarith
  then show ?thesis
  proof cases
    case 3
    then show ?thesis using round_pos_error [of "- q"] by (simp add: fl64_def)
  qed (use round_pos_error [of q] in \<open>auto simp: fl64_def\<close>)
qed

text \<open>Rounding every element of a list of non-negative numbers.\<close>

lemma sum_fl64_error:
  assumes "\<And>x. x \<in> set xs \<Longrightarrow> 0 \<le> x"
  shows "\<bar>sum_list (map fl64 xs) - sum_list xs\<bar> \<le> sum_list xs / 2 ^ 53"
  using assms
proof (induction xs)
  case (Cons x xs)
  have "\<bar>fl64 x - x\<bar> \<le> x / 2 ^ 53" using fl64_error [of x] Cons.prems by simp
  moreover have "\<bar>sum_list (map fl64 xs) - sum_list xs\<bar> \<le> sum_list xs / 2 ^ 53"
    using Cons by simp
  moreover have "sum_list (x # xs) / 2 ^ 53 = x / 2 ^ 53 + sum_list xs / 2 ^ 53"
    by (simp add: add_divide_distrib)
  ultimately show ?case by (simp only: list.map sum_list.Cons)
qed simp

text \<open>Multiples of a power of two with at most 53 significant bits are floats.\<close>

lemma fl64_exact:
  assumes "\<bar>m\<bar> \<le> 2 ^ 53"
  shows "fl64 (of_int m * 2 powi k) = of_int m * 2 powi k"
proof -
  consider "m = 0" | "0 < m" | "m < 0" by linarith
  then show ?thesis
  proof cases
    case 1
    then show ?thesis by simp
  next
    case 2
    then have "0 < of_int m * (2 :: rat) powi k" by simp
    moreover have "round_pos (of_int m * 2 powi k) = of_int m * 2 powi k"
      by (rule round_pos_exact [OF _ _ refl]) (use 2 assms in simp_all)
    ultimately show ?thesis by (simp add: fl64_def del: mult_eq_0_iff)
  next
    case 3
    have "0 < of_int (- m) * (2 :: rat) powi k"
      using 3 by (intro mult_pos_pos powi_pos2) simp
    moreover have "round_pos (of_int (- m) * 2 powi k) = of_int (- m) * 2 powi k"
      by (rule round_pos_exact [OF _ _ refl]) (use 3 assms in simp_all)
    ultimately have "fl64 (of_int (- m) * 2 powi k) = of_int (- m) * 2 powi k"
      by (simp add: fl64_def)
    then show ?thesis by (simp add: fl64_minus)
  qed
qed

lemma fl64_int: "\<bar>n\<bar> \<le> 2 ^ 53 \<Longrightarrow> fl64 (of_int n) = of_int n"
  using fl64_exact [of n 0] by simp

lemma fl64_idem [simp]: "fl64 (fl64 q) = fl64 q"
proof -
  have pos: "fl64 (round_pos q) = round_pos q" if "0 < q" for q
  proof -
    let ?u = "2 powi (exponent2 q - 52) :: rat" and ?m = "round_half_even (q / 2 powi (exponent2 q - 52))"
    have "round_pos q \<le> of_int (2 ^ 53) * ?u"
      using round_pos_binade(2) [OF that] by (simp add: power_int_diff power_int_add)
    then have "(of_int ?m :: rat) \<le> of_int (2 ^ 53)"
      by (simp only: round_pos_def Let_def mult_le_cancel_right_pos powi_pos2)
    then have "?m \<le> 2 ^ 53" by (simp only: of_int_le_iff)
    moreover have "0 < ?m"
      using round_pos_positive [OF that] by (simp add: round_pos_def Let_def zero_less_mult_iff)
    ultimately show ?thesis using fl64_exact [of ?m "exponent2 q - 52"]
      by (simp add: round_pos_def Let_def)
  qed
  consider "q = 0" | "0 < q" | "q < 0" by linarith
  then show ?thesis
  proof cases
    case 1
    then show ?thesis by simp
  next
    case 2
    then show ?thesis using pos by (simp add: fl64_def [of q])
  next
    case 3
    then show ?thesis using pos [of "- q"] by (simp add: fl64_def [of q] fl64_minus)
  qed
qed

lemma is_float_fl64 [simp]: "is_float (fl64 q)"
  by (simp add: is_float_def)

lemma fl_int_small: "\<bar>n\<bar> \<le> 2 ^ 53 \<Longrightarrow> fl_int n = of_int n"
  by (simp add: fl_int_def fl64_int)

lemma fl_int_eq_0_iff [simp]: "fl_int n = 0 \<longleftrightarrow> n = 0"
  using round_pos_positive [of "of_int n"] round_pos_positive [of "- of_int n"]
  by (auto simp: fl_int_def fl64_def)

section \<open>What the algorithms rely on\<close>

text \<open>
  The contract of a rounding \<open>rd\<close> with unit roundoff \<open>u\<close>: monotone, exact on 0 and 1, and of
  relative error at most \<open>u\<close>.
\<close>

locale rounding =
  fixes rd :: "rat \<Rightarrow> rat" and u :: rat
  assumes rd_mono: "x \<le> y \<Longrightarrow> rd x \<le> rd y"
    and rd_zero: "rd 0 = 0"
    and rd_one: "rd 1 = 1"
    and rd_idem: "rd (rd x) = rd x"
    and rd_error: "\<bar>rd x - x\<bar> \<le> u * \<bar>x\<bar>"
    and unit_nonneg: "0 \<le> u"
begin

lemma rd_nonneg: "0 \<le> x \<Longrightarrow> 0 \<le> rd x"
  using rd_mono [of 0 x] rd_zero by simp

text \<open>A running sum of non-negative terms never falls below a float it has reached.\<close>

lemma sum_increases:
  assumes "rd s = s" and "\<And>x. x \<in> set xs \<Longrightarrow> 0 \<le> x"
  shows "s \<le> foldl (\<lambda>s x. rd (s + x)) s xs"
  using assms
proof (induction xs arbitrary: s)
  case Nil
  then show ?case by simp
next
  case (Cons x xs)
  have "s = rd s" using Cons.prems by simp
  also have "\<dots> \<le> rd (s + x)" using Cons.prems by (intro rd_mono) simp
  also have "\<dots> \<le> foldl (\<lambda>s x. rd (s + x)) (rd (s + x)) xs"
    by (rule Cons.IH) (use Cons.prems in \<open>simp_all add: rd_idem\<close>)
  finally show ?case by simp
qed

lemma sum_dominates:
  assumes "\<And>x. x \<in> set xs \<Longrightarrow> 0 \<le> x" "y \<in> set xs" "rd y = y"
  shows "y \<le> foldl (\<lambda>s x. rd (s + x)) 0 xs"
proof -
  obtain pre post where xs: "xs = pre @ y # post" using assms(2) by (auto dest: split_list)
  let ?s = "foldl (\<lambda>s x. rd (s + x)) 0 pre"
  have "0 \<le> ?s" using sum_increases [OF rd_zero, of pre] assms(1) by (simp add: xs)
  then have "y \<le> rd (?s + y)" using rd_mono [of y "?s + y"] assms(3) by simp
  also have "\<dots> \<le> foldl (\<lambda>s x. rd (s + x)) (rd (?s + y)) post"
    using assms(1) by (intro sum_increases) (simp_all add: rd_idem xs)
  finally show ?thesis by (simp add: xs)
qed

text \<open>
  The error of a running sum: \<open>xs\<close> are the terms that are added, \<open>ys\<close> the exact terms they
  stand for, each within \<open>e\<close> of its own, and \<open>B\<close> bounds the sum of the exact terms.
\<close>

lemma sum_error:
  assumes "list_all2 (\<lambda>x y. \<bar>x - y\<bar> \<le> e y) xs ys" "\<And>y. y \<in> set ys \<Longrightarrow> 0 \<le> y"
    and "\<And>y. y \<in> set ys \<Longrightarrow> 0 \<le> e y" and "0 \<le> t"
  shows "\<bar>foldl (\<lambda>s x. rd (s + x)) s xs - (t + sum_list ys)\<bar>
    \<le> (1 + u) ^ length xs * (\<bar>s - t\<bar> + sum_list (map e ys))
      + ((1 + u) ^ length xs - 1) * (t + sum_list ys)"
  using assms
proof (induction xs ys arbitrary: s t rule: list_all2_induct)
  case Nil
  then show ?case by simp
next
  case (Cons x xs y ys)
  let ?n = "length xs" and ?E = "sum_list (map e ys)" and ?Y = "sum_list ys"
  let ?p = "(1 + u) ^ length xs"
  have y: "0 \<le> y" "0 \<le> e y" and Y: "0 \<le> ?Y" "0 \<le> ?E" and xy: "\<bar>x - y\<bar> \<le> e y"
    using Cons by (auto intro!: sum_list_nonneg)
  have p: "1 \<le> ?p" using unit_nonneg by simp
  have "\<bar>rd (s + x) - (t + y)\<bar> \<le> \<bar>rd (s + x) - (s + x)\<bar> + \<bar>(s + x) - (t + y)\<bar>" by linarith
  also have "\<dots> \<le> u * \<bar>s + x\<bar> + \<bar>(s + x) - (t + y)\<bar>" using rd_error by simp
  also have "\<dots> \<le> u * ((t + y) + (\<bar>s - t\<bar> + e y)) + (\<bar>s - t\<bar> + e y)"
  proof -
    have a: "\<bar>(s + x) - (t + y)\<bar> \<le> \<bar>s - t\<bar> + e y" using xy by linarith
    then have "\<bar>s + x\<bar> \<le> (t + y) + (\<bar>s - t\<bar> + e y)" using y \<open>0 \<le> t\<close> by linarith
    then have "u * \<bar>s + x\<bar> \<le> u * ((t + y) + (\<bar>s - t\<bar> + e y))"
      using unit_nonneg by (rule mult_left_mono)
    with a show ?thesis by linarith
  qed
  finally have step: "\<bar>rd (s + x) - (t + y)\<bar> \<le> (1 + u) * (\<bar>s - t\<bar> + e y) + u * (t + y)"
    by (simp add: algebra_simps)
  have "\<bar>foldl (\<lambda>s x. rd (s + x)) (rd (s + x)) xs - (t + y + ?Y)\<bar>
      \<le> ?p * (\<bar>rd (s + x) - (t + y)\<bar> + ?E) + (?p - 1) * (t + y + ?Y)"
    using Cons.IH [of "t + y" "rd (s + x)"] Cons.prems y by simp
  also have "\<dots> \<le> ?p * ((1 + u) * (\<bar>s - t\<bar> + e y) + u * (t + y) + ?E) + (?p - 1) * (t + y + ?Y)"
    using step p by (intro add_right_mono mult_left_mono) simp_all
  also have "\<dots> \<le> (1 + u) * ?p * (\<bar>s - t\<bar> + e y + ?E) + ((1 + u) * ?p - 1) * (t + y + ?Y)"
  proof -
    have "0 \<le> u * ?p * ?E + u * ?p * ?Y" using unit_nonneg p Y by simp
    then show ?thesis by (simp add: algebra_simps)
  qed
  finally show ?case by (simp add: algebra_simps)
qed

end

interpretation f64: rounding fl64 "1 / 2 ^ 53"
proof unfold_locales
  show "\<bar>fl64 x - x\<bar> \<le> 1 / 2 ^ 53 * \<bar>x\<bar>" for x using fl64_error [of x] by simp
  show "fl64 1 = 1" using fl64_int [of 1] by simp
qed (simp_all add: fl64_mono)

end
