(* ===== verification/Py_Text.thy ===== *)
theory Py_Text
  imports Py_Float
begin

text \<open>
  The text operations the program uses: \<open>str.strip\<close>, \<open>str.split\<close>, \<open>str.format\<close> with
  automatic fields, \<open>in\<close> and \<open>endswith\<close> on strings, \<open>str\<close> and \<open>int\<close>, \<open>float\<close>, the format
  specifications \<open>{:.4f}\<close> and \<open>{:0>3d}\<close>, and iteration over the lines of a text file.
  Strings are lists of ASCII characters.

  The locale \<open>line_codec\<close> is the contract between a writer and a reader of a line-based file;
  its lemma lifts the round trip of a line to the whole file.
\<close>

section \<open>Whitespace and splitting\<close>

abbreviation newline :: char where
  "newline \<equiv> CHR 0x0A"

definition is_space :: "char \<Rightarrow> bool" where
  "is_space c =
     (c \<in> {CHR '' '', CHR 0x09, newline, CHR 0x0B, CHR 0x0C, CHR 0x0D, CHR 0x1C, CHR 0x1D, CHR 0x1E, CHR 0x1F})"

definition lstrip :: "string \<Rightarrow> string" where
  "lstrip s = dropWhile is_space s"

definition rstrip :: "string \<Rightarrow> string" where
  "rstrip s = rev (lstrip (rev s))"

definition strip :: "string \<Rightarrow> string" where
  "strip s = rstrip (lstrip s)"

lemma is_space_consts [simp]: "is_space CHR '' ''" "is_space newline"
  by (simp_all add: is_space_def)

lemma length_lstrip: "length (lstrip s) \<le> length s"
  by (simp add: lstrip_def length_dropWhile_le)

lemma lstrip_head: "lstrip s = c # cs \<Longrightarrow> \<not> is_space c"
  by (simp add: lstrip_def dropWhile_eq_Cons_conv)

text \<open>\<open>s.split()\<close>: the maximal runs of characters that are not whitespace.\<close>

function split_ws :: "string \<Rightarrow> string list" where
  "split_ws s =
     (case lstrip s of
        [] \<Rightarrow> []
      | c # cs \<Rightarrow> takeWhile (\<lambda>c. \<not> is_space c) (c # cs)
          # split_ws (dropWhile (\<lambda>c. \<not> is_space c) (c # cs)))"
  by pat_completeness auto
termination
proof (relation "measure length", simp)
  fix s c cs
  assume l: "lstrip s = c # cs"
  then have "\<not> is_space c" by (rule lstrip_head)
  moreover have "length (dropWhile (\<lambda>c. \<not> is_space c) cs) \<le> length cs" by (rule length_dropWhile_le)
  moreover have "length (c # cs) \<le> length s" using length_lstrip [of s] by (simp only: l)
  ultimately show "(dropWhile (\<lambda>c. \<not> is_space c) (c # cs), s) \<in> measure length" by simp
qed

declare split_ws.simps [simp del]

text \<open>\<open>s.split(d)\<close> for a separator of one character: never empty.\<close>

fun split_on :: "char \<Rightarrow> string \<Rightarrow> string list" where
  "split_on d [] = [[]]"
| "split_on d (c # cs) =
     (if c = d then [] # split_on d cs
      else case split_on d cs of [] \<Rightarrow> [[c]] | w # ws \<Rightarrow> (c # w) # ws)"

text \<open>\<open>d.join(ws)\<close>.\<close>

fun join :: "string \<Rightarrow> string list \<Rightarrow> string" where
  "join d [] = []"
| "join d [w] = w"
| "join d (w # ws) = w @ d @ join d ws"

text \<open>\<open>s.startswith(p)\<close>, \<open>s.endswith(p)\<close> and \<open>p in s\<close>.\<close>

fun starts_with :: "string \<Rightarrow> string \<Rightarrow> bool" where
  "starts_with [] s = True"
| "starts_with (p # ps) [] = False"
| "starts_with (p # ps) (c # cs) = (p = c \<and> starts_with ps cs)"

definition ends_with :: "string \<Rightarrow> string \<Rightarrow> bool" where
  "ends_with p s = starts_with (rev p) (rev s)"

fun contains :: "string \<Rightarrow> string \<Rightarrow> bool" where
  "contains p [] = (p = [])"
| "contains p (c # cs) = (starts_with p (c # cs) \<or> contains p cs)"

text \<open>\<open>for line in f\<close>: every line keeps its newline; the last one may have none.\<close>

fun file_lines :: "string \<Rightarrow> string list" where
  "file_lines [] = []"
| "file_lines (c # cs) =
     (if c = newline then [c] # file_lines cs
      else case file_lines cs of [] \<Rightarrow> [[c]] | l # ls \<Rightarrow> (c # l) # ls)"

section \<open>Numbers as text\<close>

abbreviation ascii :: "char \<Rightarrow> nat" where
  "ascii c \<equiv> of_char c"

definition is_digit :: "char \<Rightarrow> bool" where
  "is_digit c = (48 \<le> ascii c \<and> ascii c \<le> 57)"

definition digit_val :: "char \<Rightarrow> nat" where
  "digit_val c = ascii c - 48"

definition digit_char :: "nat \<Rightarrow> char" where
  "digit_char d = char_of (48 + d)"

fun str_nat :: "nat \<Rightarrow> string" where
  "str_nat n = (if n < 10 then [digit_char n] else str_nat (n div 10) @ [digit_char (n mod 10)])"

declare str_nat.simps [simp del]

definition str_int :: "int \<Rightarrow> string" where
  "str_int n = (if n < 0 then CHR ''-'' # str_nat (nat (- n)) else str_nat (nat n))"

text \<open>
  A digit string as \<open>int\<close> and \<open>float\<close> accept it: digits, with single underscores between
  digits.
\<close>

fun dec_tail :: "nat \<Rightarrow> string \<Rightarrow> nat option" where
  "dec_tail acc [] = Some acc"
| "dec_tail acc (c # cs) =
     (if is_digit c then dec_tail (10 * acc + digit_val c) cs
      else if c = CHR ''_'' then
        (case cs of [] \<Rightarrow> None
         | d # ds \<Rightarrow> if is_digit d then dec_tail (10 * acc + digit_val d) ds else None)
      else None)"

definition dec_nat :: "string \<Rightarrow> nat option" where
  "dec_nat s =
     (case s of [] \<Rightarrow> None | c # cs \<Rightarrow> if is_digit c then dec_tail (digit_val c) cs else None)"

fun take_sign :: "string \<Rightarrow> bool \<times> string" where
  "take_sign [] = (False, [])"
| "take_sign (c # cs) =
     (if c = CHR ''-'' then (True, cs) else if c = CHR ''+'' then (False, cs) else (False, c # cs))"

definition py_int :: "string \<Rightarrow> int res" where
  "py_int s =
     (let (neg, body) = take_sign (strip s)
      in case dec_nat body of
           None \<Rightarrow> Inl ValueError
         | Some n \<Rightarrow> Inr (if neg then - int n else int n))"

text \<open>\<open>float(s)\<close>. Infinities and NaN are texts that Python accepts and the model cannot hold.\<close>

definition mantissa :: "string \<Rightarrow> rat option" where
  "mantissa s =
     (case split_on CHR ''.'' s of
        [i] \<Rightarrow> map_option of_nat (dec_nat i)
      | [i, f] \<Rightarrow>
          if i = [] \<and> f = [] then None
          else (case (if i = [] then Some 0 else dec_nat i, if f = [] then Some 0 else dec_nat f) of
                  (Some a, Some b) \<Rightarrow> Some (of_nat a + of_nat b / 10 ^ length (filter is_digit f))
                | _ \<Rightarrow> None)
      | _ \<Rightarrow> None)"

definition decimal_exponent :: "string \<Rightarrow> int option" where
  "decimal_exponent s =
     (case s of
        [] \<Rightarrow> Some 0
      | _ # r \<Rightarrow> (let (neg, body) = take_sign r
                 in map_option (\<lambda>n. if neg then - int n else int n) (dec_nat body)))"

definition lower_char :: "char \<Rightarrow> char" where
  "lower_char c = (if 65 \<le> ascii c \<and> ascii c \<le> 90 then char_of (ascii c + 32) else c)"

definition py_float :: "string \<Rightarrow> rat res" where
  "py_float s =
     (let (neg, body) = take_sign (strip s);
          not_e = (\<lambda>c. lower_char c \<noteq> CHR ''e'')
      in if map lower_char body \<in> {''inf'', ''infinity'', ''nan''} then Inl OutOfModel
         else case (mantissa (takeWhile not_e body), decimal_exponent (dropWhile not_e body)) of
                (Some q, Some k) \<Rightarrow> Inr (fl64 ((if neg then - q else q) * 10 powi k))
              | _ \<Rightarrow> Inl ValueError)"

text \<open>Padding on the left, \<open>{:0>kd}\<close>, and the fixed-point format \<open>{:.4f}\<close>.\<close>

definition pad_left :: "nat \<Rightarrow> string \<Rightarrow> string" where
  "pad_left k s = replicate (k - length s) CHR ''0'' @ s"

definition fixed4 :: "rat \<Rightarrow> string" where
  "fixed4 q =
     (let n = nat (round_half_even (\<bar>q\<bar> * 10000))
      in (if q < 0 then ''-'' else '''')
         @ str_nat (n div 10000) @ ''.'' @ pad_left 4 (str_nat (n mod 10000)))"

text \<open>
  \<open>s.format(args)\<close> with automatic fields: doubled braces are literal, each empty field takes
  the next argument and raises \<open>IndexError\<close> when there is none. Fields with a name, an index
  or a format specification are outside the model.
\<close>

fun format_auto :: "string \<Rightarrow> string list \<Rightarrow> string res" where
  "format_auto [] args = Inr []"
| "format_auto [c] args = (if c = CHR ''{'' \<or> c = CHR ''}'' then Inl ValueError else Inr [c])"
| "format_auto (c # d # cs) args =
     (if c = CHR ''{'' \<and> d = CHR ''{'' then bindE (format_auto cs args) (\<lambda>r. Inr (CHR ''{'' # r))
      else if c = CHR ''}'' \<and> d = CHR ''}'' then bindE (format_auto cs args) (\<lambda>r. Inr (CHR ''}'' # r))
      else if c = CHR ''{'' \<and> d = CHR ''}'' then
        (case args of [] \<Rightarrow> Inl IndexError
         | a # args' \<Rightarrow> bindE (format_auto cs args') (\<lambda>r. Inr (a @ r)))
      else if c = CHR ''}'' then Inl ValueError
      else if c = CHR ''{'' then (if CHR ''}'' \<in> set (d # cs) then Inl OutOfModel else Inl ValueError)
      else bindE (format_auto (d # cs) args) (\<lambda>r. Inr (c # r)))"

section \<open>Round trips of numbers\<close>

lemma digit_char [simp]:
  assumes "d < 10"
  shows "is_digit (digit_char d)" "digit_val (digit_char d) = d"
  using assms by (simp_all add: is_digit_def digit_val_def digit_char_def)

lemma digit_not_special:
  assumes "is_digit c"
  shows "\<not> is_space c" "c \<noteq> CHR ''-''" "c \<noteq> CHR ''+''" "c \<noteq> CHR ''.''" "c \<noteq> CHR '':''" "c \<noteq> CHR '',''"
    "c \<noteq> newline" "lower_char c = c" "c \<noteq> CHR ''e''" "c \<noteq> CHR ''['' " "c \<noteq> CHR '']'' " "c \<noteq> CHR ''/''"
  using assms by (auto simp: is_digit_def is_space_def lower_char_def)

lemma str_nat_digits: "c \<in> set (str_nat n) \<Longrightarrow> is_digit c"
proof (induction n rule: str_nat.induct)
  case (1 n)
  then show ?case by (subst (asm) str_nat.simps) (auto split: if_splits)
qed

lemma str_nat_nonempty [simp]: "str_nat n \<noteq> []"
  by (subst str_nat.simps) simp

definition digits_value :: "nat \<Rightarrow> string \<Rightarrow> nat" where
  "digits_value acc s = foldl (\<lambda>a c. 10 * a + digit_val c) acc s"

lemma digits_value_append [simp]:
  "digits_value acc (s @ t) = digits_value (digits_value acc s) t"
  by (simp add: digits_value_def)

lemma digits_value_str_nat [simp]: "digits_value 0 (str_nat n) = n"
proof (induction n rule: str_nat.induct)
  case (1 n)
  show ?case
  proof (cases "n < 10")
    case True
    then show ?thesis by (subst str_nat.simps) (simp add: digits_value_def)
  next
    case False
    then have "digits_value 0 (str_nat n) = 10 * (n div 10) + n mod 10"
      using 1 by (subst str_nat.simps) (simp add: digits_value_def)
    then show ?thesis by simp
  qed
qed

lemma digits_value_zeros [simp]: "digits_value 0 (replicate k CHR ''0'') = 0"
  by (induction k) (simp_all add: digits_value_def digit_val_def)

lemma dec_tail_digits:
  "(\<And>c. c \<in> set s \<Longrightarrow> is_digit c) \<Longrightarrow> dec_tail acc s = Some (digits_value acc s)"
  by (induction s arbitrary: acc) (simp_all add: digits_value_def)

lemma dec_nat_digits:
  "s \<noteq> [] \<Longrightarrow> (\<And>c. c \<in> set s \<Longrightarrow> is_digit c) \<Longrightarrow> dec_nat s = Some (digits_value 0 s)"
  by (cases s) (simp_all add: dec_nat_def dec_tail_digits, simp add: digits_value_def)

lemma dec_nat_str_nat [simp]: "dec_nat (str_nat n) = Some n"
  by (simp add: dec_nat_digits str_nat_digits)

lemma take_sign_digits:
  "(\<And>c. c \<in> set s \<Longrightarrow> is_digit c) \<Longrightarrow> take_sign (s @ t) = (if s = [] then take_sign t else (False, s @ t))"
  using digit_not_special(2,3) by (cases s) auto

lemma lstrip_append_space: "(\<And>c. c \<in> set pre \<Longrightarrow> is_space c) \<Longrightarrow> lstrip (pre @ s) = lstrip s"
  by (simp add: lstrip_def dropWhile_append2)

lemma lstrip_solid: "s = [] \<or> \<not> is_space (hd s) \<Longrightarrow> lstrip (s @ t) = (if s = [] then lstrip t else s @ t)"
  by (cases s) (auto simp: lstrip_def)

lemma strip_pad:
  assumes "\<And>c. c \<in> set pre \<union> set post \<Longrightarrow> is_space c"
    and "s \<noteq> []" "\<not> is_space (hd s)" "\<not> is_space (last s)"
  shows "strip (pre @ s @ post) = s"
proof -
  have "lstrip (pre @ s @ post) = s @ post"
    using assms by (simp add: lstrip_append_space lstrip_solid)
  moreover have "lstrip (rev post @ rev s) = lstrip (rev s)"
    by (rule lstrip_append_space) (use assms in simp)
  moreover have "lstrip (rev s) = rev s"
    using assms lstrip_solid [of "rev s" "[]"] by (simp add: hd_rev)
  ultimately show ?thesis by (simp add: strip_def rstrip_def)
qed

lemma str_int_ends:
  "str_int n \<noteq> []" "\<not> is_space (hd (str_int n))" "\<not> is_space (last (str_int n))"
proof -
  have d: "is_digit (hd (str_nat k))" "is_digit (last (str_nat k))" for k
    using str_nat_digits hd_in_set last_in_set str_nat_nonempty by blast+
  show "str_int n \<noteq> []" by (simp add: str_int_def)
  show "\<not> is_space (hd (str_int n))" "\<not> is_space (last (str_int n))"
    using d digit_not_special(1) by (auto simp: str_int_def is_space_def)
qed

lemma py_int_pad:
  assumes "\<And>c. c \<in> set pre \<union> set post \<Longrightarrow> is_space c"
  shows "py_int (pre @ str_int n @ post) = Inr n"
proof -
  have "take_sign (str_nat k) = (False, str_nat k)" for k
    using take_sign_digits [of "str_nat k" "[]"] str_nat_digits by simp
  moreover have "strip (pre @ str_int n @ post) = str_int n"
    by (rule strip_pad) (use assms str_int_ends in auto)
  ultimately show ?thesis by (auto simp: py_int_def str_int_def)
qed

lemma py_int_str_int [simp]: "py_int (str_int n) = Inr n"
  using py_int_pad [of "[]" "[]"] by simp

lemma py_int_str_int_space [simp]: "is_space c \<Longrightarrow> py_int (str_int n @ [c]) = Inr n"
  using py_int_pad [of "[]" "[c]"] by simp

lemma py_int_pad_left [simp]: "py_int (pad_left k (str_nat n)) = Inr (int n)"
proof -
  let ?s = "replicate (k - length (str_nat n)) CHR ''0'' @ str_nat n"
  have d: "is_digit c" if "c \<in> set ?s" for c
    using that str_nat_digits by (auto simp: is_digit_def)
  then have e: "is_digit (hd ?s)" "is_digit (last ?s)"
    using hd_in_set [of ?s] last_in_set [of ?s] by auto
  have "strip ?s = ?s"
    using strip_pad [of "[]" "[]" ?s] e digit_not_special(1) by simp
  moreover have "take_sign ?s = (False, ?s)"
    using take_sign_digits [of ?s "[]"] d by simp
  moreover have "dec_nat ?s = Some n"
    using dec_nat_digits [of ?s] d by simp
  ultimately show ?thesis unfolding py_int_def pad_left_def by simp
qed

lemma str_int_chars: "c \<in> set (str_int n) \<Longrightarrow> is_digit c \<or> c = CHR ''-''"
  using str_nat_digits by (auto simp: str_int_def split: if_splits)

section \<open>Round trips of separated text\<close>

lemma split_on_nonempty [simp]: "split_on d s \<noteq> []"
  by (induction s) (auto split: list.splits)

lemma split_on_solid: "d \<notin> set s \<Longrightarrow> split_on d s = [s]"
  by (induction s) auto

lemma split_on_append: "d \<notin> set s \<Longrightarrow> split_on d (s @ d # t) = s # split_on d t"
  by (induction s) auto

lemma split_on_join:
  "ws \<noteq> [] \<Longrightarrow> (\<And>w. w \<in> set ws \<Longrightarrow> d \<notin> set w) \<Longrightarrow> split_on d (join [d] ws) = ws"
  by (induction ws rule: induct_list012) (simp_all add: split_on_solid split_on_append)

lemma join_one_line:
  "newline \<notin> set d \<Longrightarrow> (\<And>w. w \<in> set ws \<Longrightarrow> newline \<notin> set w) \<Longrightarrow> newline \<notin> set (join d ws)"
  by (induction ws rule: induct_list012) simp_all

text \<open>A separated line keeps its newline in the last field.\<close>

lemma split_on_join_newline:
  assumes "ws \<noteq> []" "\<And>w. w \<in> set ws \<Longrightarrow> d \<notin> set w" "d \<noteq> newline"
  shows "split_on d (join [d] ws @ [newline]) = butlast ws @ [last ws @ [newline]]"
proof -
  have "join [d] ws @ [newline] = join [d] (butlast ws @ [last ws @ [newline]])"
    using assms(1) by (induction ws rule: induct_list012) simp_all
  also have "split_on d \<dots> = butlast ws @ [last ws @ [newline]]"
    by (rule split_on_join) (use assms in \<open>auto dest: in_set_butlastD\<close>)
  finally show ?thesis .
qed

lemma mapE_py_int [simp]: "mapE py_int (map str_int ns) = Inr ns"
  by (induction ns) simp_all

lemma split_ws_word:
  assumes "w \<noteq> []" "\<And>c. c \<in> set w \<Longrightarrow> \<not> is_space c" "is_space c"
  shows "split_ws (w @ c # t) = w # split_ws t"
proof -
  obtain a w' where w: "w = a # w'" using assms by (cases w) auto
  have "lstrip (w @ c # t) = w @ c # t"
    using assms lstrip_solid [of w "c # t"] by (simp add: w)
  moreover have "takeWhile (\<lambda>c. \<not> is_space c) (w @ c # t) = w"
    "dropWhile (\<lambda>c. \<not> is_space c) (w @ c # t) = c # t"
    using assms by (simp_all add: takeWhile_append2 dropWhile_append2)
  moreover have "split_ws (c # t) = split_ws t"
    using assms by (subst (1 2) split_ws.simps) (simp add: lstrip_def)
  ultimately show ?thesis by (subst split_ws.simps) (simp add: w)
qed

lemma split_ws_nil [simp]: "split_ws [] = []"
  by (subst split_ws.simps) (simp add: lstrip_def)

lemma file_lines_append:
  "newline \<notin> set l \<Longrightarrow> file_lines (l @ newline # s) = (l @ [newline]) # file_lines s"
  by (induction l) auto

lemma file_lines_concat:
  "(\<And>l. l \<in> set ls \<Longrightarrow> newline \<notin> set l) \<Longrightarrow>
   file_lines (concat (map (\<lambda>l. l @ [newline]) ls)) = map (\<lambda>l. l @ [newline]) ls"
  by (induction ls) (simp_all add: file_lines_append)

text \<open>A line of two words.\<close>

definition word :: "string \<Rightarrow> bool" where
  "word w = (w \<noteq> [] \<and> (\<forall>c \<in> set w. \<not> is_space c))"

lemma word_str_int [simp]: "word (str_int n)"
  using str_int_chars digit_not_special(1) by (force simp: word_def str_int_ends is_space_def)

lemma word_no_newline: "word w \<Longrightarrow> newline \<notin> set w"
  by (auto simp: word_def is_space_def)

lemma split_ws_two:
  assumes "word a" "word b"
  shows "split_ws (a @ CHR '' '' # b @ [newline]) = [a, b]"
  using split_ws_word [of a "CHR '' ''" "b @ [newline]"] split_ws_word [of b newline "[]"] assms
  by (simp add: word_def is_space_def)

lemma file_lines_words:
  assumes "word a" "word b"
  shows "file_lines (a @ '' '' @ b @ [newline] @ t) = (a @ '' '' @ b @ [newline]) # file_lines t"
  using file_lines_append [of "a @ '' '' @ b" t] assms word_no_newline by simp

text \<open>A writer and a reader of a file with one record per line.\<close>

locale line_codec =
  fixes show_rec :: "'a \<Rightarrow> string" and read_rec :: "string \<Rightarrow> 'b res"
    and valid :: "'a \<Rightarrow> bool" and image :: "'a \<Rightarrow> 'b"
  assumes read_show: "valid x \<Longrightarrow> read_rec (show_rec x @ [newline]) = Inr (image x)"
    and show_one_line: "valid x \<Longrightarrow> newline \<notin> set (show_rec x)"
begin

lemma read_lines:
  "(\<And>x. x \<in> set xs \<Longrightarrow> valid x) \<Longrightarrow>
   mapE read_rec (map (\<lambda>x. show_rec x @ [newline]) xs) = Inr (map image xs)"
  by (induction xs) (simp_all add: read_show)

lemma read_file:
  assumes "\<And>x. x \<in> set xs \<Longrightarrow> valid x"
  shows "mapE read_rec (file_lines (concat (map (\<lambda>x. show_rec x @ [newline]) xs)))
    = Inr (map image xs)"
proof -
  have "file_lines (concat (map (\<lambda>l. l @ [newline]) (map show_rec xs)))
      = map (\<lambda>l. l @ [newline]) (map show_rec xs)"
    by (rule file_lines_concat) (use assms show_one_line in auto)
  then show ?thesis using read_lines [OF assms] by (simp add: comp_def)
qed

end

section \<open>The fixed-point format\<close>

lemma str_nat_length_less: "n < 10 ^ k \<Longrightarrow> 0 < k \<Longrightarrow> length (str_nat n) \<le> k"
proof (induction k arbitrary: n)
  case (Suc k)
  show ?case
  proof (cases "n < 10")
    case False
    then have "0 < k" using Suc.prems by (cases k) auto
    moreover have "n div 10 < 10 ^ k" using Suc.prems by (simp add: less_mult_imp_div_less)
    ultimately show ?thesis using Suc.IH [of "n div 10"] False by (subst str_nat.simps) simp
  qed (subst str_nat.simps, simp)
qed simp

lemma length_pad_left: "length (pad_left k s) = max k (length s)"
  by (simp add: pad_left_def)

lemma py_float_plain:
  assumes "strip t = s" "take_sign s = (False, s)" "map lower_char s \<notin> {''inf'', ''infinity'', ''nan''}"
    and "\<forall>c \<in> set s. lower_char c \<noteq> CHR ''e''" "mantissa s = Some q"
  shows "py_float t = Inr (fl64 q)"
  using assms
  by (simp add: py_float_def decimal_exponent_def Let_def
      takeWhile_eq_all_conv [THEN iffD2] dropWhile_eq_Nil_conv [THEN iffD2])

lemma py_float_fixed:
  assumes "m < 10 ^ k" "0 < k" "\<And>c. c \<in> set post \<Longrightarrow> is_space c"
  shows "py_float (str_nat n @ ''.'' @ pad_left k (str_nat m) @ post)
    = Inr (fl64 (of_nat n + of_nat m / 10 ^ k))"
proof -
  let ?f = "pad_left k (str_nat m)" and ?i = "str_nat n"
  let ?s = "?i @ CHR ''.'' # ?f"
  have f: "is_digit c" if "c \<in> set ?f" for c
    using that str_nat_digits by (auto simp: pad_left_def is_digit_def)
  have i: "is_digit c" if "c \<in> set ?i" for c using that by (rule str_nat_digits)
  have len: "length ?f = k" using str_nat_length_less [OF assms(1,2)] by (simp add: length_pad_left)
  then have fne: "?f \<noteq> []" using assms(2) by auto
  have "is_digit (hd ?s)" using i [of "hd ?i"] by (simp add: hd_append)
  moreover have "is_digit (last ?s)" using f [of "last ?f"] fne by simp
  ultimately have strip: "strip (?s @ post) = ?s"
    using strip_pad [of "[]" post ?s] assms(3) digit_not_special(1) by auto
  have sign: "take_sign ?s = (False, ?s)"
    using take_sign_digits [of ?i "CHR ''.'' # ?f"] i by simp
  have "lower_char CHR ''.'' = CHR ''.''" by (simp add: lower_char_def)
  then have low: "\<forall>c \<in> set ?s. lower_char c = c"
    using i f digit_not_special(8) by auto
  have "\<forall>c \<in> set ?s. c \<noteq> CHR ''e''"
    using i f digit_not_special(9) by auto
  then have low_e: "\<forall>c \<in> set ?s. lower_char c \<noteq> CHR ''e''"
    using low by metis
  have "map lower_char ?s = ?s" using low by (blast intro: map_idI)
  moreover have "?s \<notin> {''inf'', ''infinity'', ''nan''}"
    using i [of "hd ?i"] by (cases ?i) (auto simp: is_digit_def)
  ultimately have fin: "map lower_char ?s \<notin> {''inf'', ''infinity'', ''nan''}" by simp
  have "split_on CHR ''.'' ?s = [?i, ?f]"
    using i f digit_not_special(4) by (subst split_on_append) (auto intro: split_on_solid)
  moreover have "filter is_digit ?f = ?f" using f by (simp add: filter_id_conv)
  moreover have "dec_nat ?f = Some m"
    using dec_nat_digits [OF fne] f by (simp add: pad_left_def)
  ultimately have "mantissa ?s = Some (of_nat n + of_nat m / 10 ^ k)"
    using fne len by (simp add: mantissa_def)
  then have "py_float (?s @ post) = Inr (fl64 (of_nat n + of_nat m / 10 ^ k))"
    by (rule py_float_plain [OF strip sign fin low_e])
  then show ?thesis by simp
qed

text \<open>A non-negative float written with four decimals is read back rounded to four decimals.\<close>

definition round4 :: "rat \<Rightarrow> rat" where
  "round4 q = fl64 (of_int (round_half_even (q * 10000)) / 10000)"

lemma py_float_fixed4:
  assumes "0 \<le> q" "\<And>c. c \<in> set post \<Longrightarrow> is_space c"
  shows "py_float (fixed4 q @ post) = Inr (round4 q)"
proof -
  let ?m = "round_half_even (q * 10000)" let ?n = "nat ?m"
  have "0 \<le> ?m" using assms round_half_even_mono [of 0 "q * 10000"] round_half_even_int [of 0] by simp
  then have "(of_int ?m :: rat) = of_nat ?n" by simp
  also have "\<dots> = of_nat (10000 * (?n div 10000) + ?n mod 10000)" by simp
  also have "\<dots> = 10000 * of_nat (?n div 10000) + of_nat (?n mod 10000)"
    by (simp only: of_nat_add of_nat_mult of_nat_numeral)
  finally have "of_int ?m / 10000 = (of_nat (?n div 10000) + of_nat (?n mod 10000) / 10 ^ 4 :: rat)"
    by (simp add: field_simps)
  moreover have "?n mod 10000 < 10 ^ 4" by simp
  ultimately show ?thesis
    using py_float_fixed [of "?n mod 10000" 4 post "?n div 10000"] assms
    by (simp add: fixed4_def round4_def Let_def add_divide_distrib)
qed

lemma round4_error:
  assumes "0 \<le> q"
  shows "\<bar>round4 q - q\<bar> \<le> 1 / 20000 + (q + 1 / 20000) / 2 ^ 53"
proof -
  let ?r = "of_int (round_half_even (q * 10000)) / 10000 :: rat"
  have "\<bar>?r - q\<bar> = \<bar>of_int (round_half_even (q * 10000)) - q * 10000\<bar> / 10000"
    by (simp add: field_simps abs_if)
  also have "\<dots> \<le> (1 / 2) / 10000" using round_half_even_near by (intro divide_right_mono) simp_all
  finally have near: "\<bar>?r - q\<bar> \<le> 1 / 20000" by simp
  then have "\<bar>?r\<bar> \<le> q + 1 / 20000" using assms by linarith
  then have "\<bar>?r\<bar> / 2 ^ 53 \<le> (q + 1 / 20000) / 2 ^ 53" by (rule divide_right_mono) simp
  then have "\<bar>round4 q - ?r\<bar> \<le> (q + 1 / 20000) / 2 ^ 53"
    using fl64_error [of ?r] unfolding round4_def by linarith
  then show ?thesis using near by linarith
qed

end
