(* ===== verification/Sim_Points.thy ===== *)
theory Sim_Points
  imports Py_Text
begin

text \<open>
  Class \<open>SimPoints\<close> of \<open>DrAnalysis.py\<close>: the configuration of the SimPoint command, its
  execution, and the parser of the three files SimPoint writes.

  SimPoint itself and the shell that runs it are not part of the repository: \<open>bash cmd w\<close> is
  the exit code of a command and the file system it leaves, and the functions below take
  \<open>bash\<close> as an argument. Log messages are not modelled.
\<close>

section \<open>State\<close>

text \<open>The dictionary \<open>SPData\<close>. A key that has not been assigned yet is \<open>None\<close>.\<close>

record sp_data =
  sp_id :: "int list option"
  sp_weights :: "rat list option"
  sp_simpoints :: "int list option"
  sp_labels :: "int list option"
  sp_match :: "rat list option"

definition empty_sp_data :: sp_data where
  "empty_sp_data = \<lparr>sp_id = None, sp_weights = None, sp_simpoints = None, sp_labels = None, sp_match = None\<rparr>"

text \<open>The values the parameter \<open>fixedLength\<close> may have.\<close>

datatype fixed_arg = FixedInt int | FixedStr string | FixedBool bool

record simpoints =
  BBfile :: string
  extraOpts :: "string list"
  execF :: string
  fixedLength :: string
  deleteSPOut :: bool
  tSimPoints :: string
  tWeights :: string
  tLabels :: string
  execCmd :: string
  SPData :: sp_data

section \<open>The command\<close>

definition on_off :: "bool \<Rightarrow> string" where
  "on_off b = (if b then ''on'' else ''off'')"

text \<open>The branches on \<open>fixedLength\<close>: the value of \<open>-fixedLength\<close>, the extra options, the program.\<close>

fun fixed_length_opts :: "fixed_arg \<Rightarrow> string \<times> string list \<times> string" where
  "fixed_length_opts (FixedInt n) =
     (if n = 4 then (''on'', [''-initkm samp''], ''./simpoint.normalize2'')
      else if n = 3 then (''on'', [''-initkm samp''], ''./simpoint.normalize'')
      else if n = 2 then (''on'', [''-initkm ff''], ''./simpoint.normalize'')
      else (on_off (n \<noteq> 0), [], ''./simpoint''))"
| "fixed_length_opts (FixedStr s) =
     (if s = ''normalize'' then (''on'', [''-initkm ff''], ''./simpoint.normalize'')
      else if s = ''off'' \<or> s = ''on'' then (s, [], ''./simpoint'')
      else (on_off (s \<noteq> []), [], ''./simpoint''))"
| "fixed_length_opts (FixedBool b) = (on_off b, [], ''./simpoint'')"

text \<open>A backslash at the end of a line of the command joins it to the next one, indentation included.\<close>

definition exec_cmd :: "string \<Rightarrow> string \<Rightarrow> string \<Rightarrow> int \<Rightarrow> int \<Rightarrow> string \<Rightarrow> string \<Rightarrow> string \<Rightarrow> string list \<Rightarrow> string" where
  "exec_cmd prog bbfile fixed maxK dims tsp tw tlab extra =
     prog @ '' -loadFVFile \"'' @ bbfile @ ''\" -inputVectorsGzipped -fixedLength '' @ fixed
     @ '' -maxK '' @ str_int maxK
     @ '' -dim '' @ (if dims = 0 then ''noProject'' else str_int dims)
     @ '' '' @ replicate 23 CHR '' '' @ ''-coveragePct 1.0 -saveSimpoints '' @ tsp
     @ '' -saveSimpointWeights '' @ tw @ '' -saveLabels '' @ tlab
     @ '' '' @ replicate 23 CHR '' '' @ ''-verbose 0 '' @ join '' '' extra"

definition new_simpoints :: "string \<Rightarrow> fixed_arg \<Rightarrow> bool \<Rightarrow> int \<Rightarrow> int \<Rightarrow> string \<Rightarrow> simpoints" where
  "new_simpoints bbfile fixed del maxK dims outputfiles =
     (let (fl, extra, prog) = fixed_length_opts fixed;
          tsp = outputfiles @ ''t.simpoints'';
          tw = outputfiles @ ''t.weights'';
          tlab = outputfiles @ ''t.labels''
      in \<lparr>BBfile = bbfile, extraOpts = extra, execF = prog, fixedLength = fl, deleteSPOut = del,
          tSimPoints = tsp, tWeights = tw, tLabels = tlab,
          execCmd = exec_cmd prog bbfile fl maxK dims tsp tw tlab extra,
          SPData = empty_sp_data\<rparr>)"

lemma new_simpoints_fields [simp]:
  "tSimPoints (new_simpoints bbfile fixed del maxK dims out) = out @ ''t.simpoints''"
  "tWeights (new_simpoints bbfile fixed del maxK dims out) = out @ ''t.weights''"
  "tLabels (new_simpoints bbfile fixed del maxK dims out) = out @ ''t.labels''"
  "deleteSPOut (new_simpoints bbfile fixed del maxK dims out) = del"
  "SPData (new_simpoints bbfile fixed del maxK dims out) = empty_sp_data"
  by (simp_all add: new_simpoints_def Let_def split: prod.split)

section \<open>The parser\<close>

text \<open>One line of \<open>t.weights\<close>: \<open>weight id\<close>.\<close>

definition weight_line :: "int list \<times> rat list \<Rightarrow> string \<Rightarrow> (int list \<times> rat list) res" where
  "weight_line s line =
     (case split_ws line of
        [weight, num] \<Rightarrow>
          bindE (py_int num) (\<lambda>n. bindE (py_float weight) (\<lambda>x. Inr (fst s @ [n], snd s @ [x])))
      | _ \<Rightarrow> Inl ValueError)"

text \<open>
  The lines of \<open>t.simpoints\<close>, \<open>simpoint id\<close>, which must name the ids in the order of
  \<open>t.weights\<close>. The flag is \<open>False\<close> when the loop returned early on a wrong id.
\<close>

fun simpoint_lines :: "int list \<Rightarrow> nat \<Rightarrow> int list \<Rightarrow> string list \<Rightarrow> (bool \<times> int list) res" where
  "simpoint_lines ids i sps [] = Inr (True, sps)"
| "simpoint_lines ids i sps (line # ls) =
     (case split_ws line of
        [sp, num] \<Rightarrow>
          bindE (py_int num) (\<lambda>n. bindE (get_item ids (int i)) (\<lambda>d.
            if n \<noteq> d then Inr (False, sps)
            else bindE (py_int sp) (\<lambda>s. simpoint_lines ids (Suc i) (sps @ [s]) ls)))
      | _ \<Rightarrow> Inl ValueError)"

text \<open>One line of \<open>t.labels\<close>: \<open>label match\<close>.\<close>

definition label_line :: "int list \<times> rat list \<Rightarrow> string \<Rightarrow> (int list \<times> rat list) res" where
  "label_line s line =
     (case split_ws line of
        [label, match] \<Rightarrow>
          bindE (py_int label) (\<lambda>n. bindE (py_float match) (\<lambda>x. Inr (fst s @ [n], snd s @ [x])))
      | _ \<Rightarrow> Inl ValueError)"

definition clean_files :: "simpoints \<Rightarrow> fs \<Rightarrow> fs" where
  "clean_files self w =
     (if deleteSPOut self
      then remove_file (remove_file (remove_file w (tWeights self)) (tSimPoints self)) (tLabels self)
      else w)"

text \<open>\<open>AnalysisSimPoints\<close>: the flag is the return value; \<open>SPData\<close> keeps what was read before an error.\<close>

definition read_labels :: "simpoints \<Rightarrow> fs \<Rightarrow> (bool \<times> simpoints \<times> fs) res" where
  "read_labels self w =
     (let d = (SPData self)\<lparr>sp_labels := Some [], sp_match := Some []\<rparr>
      in case open_read w (tLabels self) of
           None \<Rightarrow> Inr (False, self\<lparr>SPData := d\<rparr>, w)
         | Some txt \<Rightarrow>
             bindE (foldE label_line ([], []) (file_lines txt)) (\<lambda>(labels, match).
               Inr (True, self\<lparr>SPData := d\<lparr>sp_labels := Some labels, sp_match := Some match\<rparr>\<rparr>,
                    clean_files self w)))"

definition read_simpoints :: "simpoints \<Rightarrow> fs \<Rightarrow> (bool \<times> simpoints \<times> fs) res" where
  "read_simpoints self w =
     (let d = (SPData self)\<lparr>sp_simpoints := Some []\<rparr>
      in case open_read w (tSimPoints self) of
           None \<Rightarrow> Inr (False, self\<lparr>SPData := d\<rparr>, w)
         | Some txt \<Rightarrow>
             bindE (key (sp_id d)) (\<lambda>ids.
             bindE (simpoint_lines ids 0 [] (file_lines txt)) (\<lambda>(ok, sps).
               let self' = self\<lparr>SPData := d\<lparr>sp_simpoints := Some sps\<rparr>\<rparr>
               in if ok then read_labels self' w else Inr (False, self', w))))"

definition AnalysisSimPoints :: "simpoints \<Rightarrow> fs \<Rightarrow> (bool \<times> simpoints \<times> fs) res" where
  "AnalysisSimPoints self w =
     (let d = (SPData self)\<lparr>sp_id := Some [], sp_weights := Some []\<rparr>
      in case open_read w (tWeights self) of
           None \<Rightarrow> Inr (False, self\<lparr>SPData := d\<rparr>, w)
         | Some txt \<Rightarrow>
             bindE (foldE weight_line ([], []) (file_lines txt)) (\<lambda>(ids, weights).
               read_simpoints (self\<lparr>SPData := d\<lparr>sp_id := Some ids, sp_weights := Some weights\<rparr>\<rparr>) w))"

definition RunSimPoints :: "(string \<Rightarrow> fs \<Rightarrow> int \<times> fs) \<Rightarrow> simpoints \<Rightarrow> fs \<Rightarrow> (bool \<times> simpoints \<times> fs) res" where
  "RunSimPoints bash self w =
     (let (rc, w') = bash (execCmd self) w
      in if rc \<noteq> 0 then Inr (False, self, w') else AnalysisSimPoints self w')"

text \<open>The constructor runs the tool; when that fails it only logs, and keeps the partial \<open>SPData\<close>.\<close>

definition SimPoints_init ::
    "(string \<Rightarrow> fs \<Rightarrow> int \<times> fs) \<Rightarrow> string \<Rightarrow> fixed_arg \<Rightarrow> bool \<Rightarrow> int \<Rightarrow> int \<Rightarrow> string \<Rightarrow> fs \<Rightarrow> (simpoints \<times> fs) res" where
  "SimPoints_init bash bbfile fixed del maxK dims outputfiles w =
     bindE (RunSimPoints bash (new_simpoints bbfile fixed del maxK dims outputfiles) w)
       (\<lambda>(ok, self, w'). Inr (self, w'))"

definition getSimPointData :: "simpoints \<Rightarrow> sp_data" where
  "getSimPointData self = SPData self"

section \<open>What the parser returns\<close>

text \<open>
  SimPoint's output files, as the comments of \<open>AnalysisSimPoints\<close> describe them. Weights and
  distances are given as the decimal texts SimPoint prints.
\<close>

definition weights_text :: "(string \<times> int) list \<Rightarrow> string" where
  "weights_text ps = concat (map (\<lambda>(x, n). x @ '' '' @ str_int n @ [newline]) ps)"

definition simpoints_text :: "(int \<times> int) list \<Rightarrow> string" where
  "simpoints_text ps = concat (map (\<lambda>(sp, n). str_int sp @ '' '' @ str_int n @ [newline]) ps)"

definition labels_text :: "(int \<times> string) list \<Rightarrow> string" where
  "labels_text ps = concat (map (\<lambda>(n, x). str_int n @ '' '' @ x @ [newline]) ps)"

text \<open>A decimal text that \<open>float\<close> accepts, and its value.\<close>

definition decimal :: "string \<Rightarrow> bool" where
  "decimal x = (word x \<and> (\<exists>q. py_float x = Inr q))"

definition decimal_value :: "string \<Rightarrow> rat" where
  "decimal_value x = (case py_float x of Inl _ \<Rightarrow> 0 | Inr q \<Rightarrow> q)"

lemma decimalI: "word x \<Longrightarrow> py_float x = Inr q \<Longrightarrow> decimal x"
  by (simp add: decimal_def)

lemma decimal_float: "decimal x \<Longrightarrow> py_float x = Inr (decimal_value x)"
  by (auto simp: decimal_def decimal_value_def)

lemma weight_lines_read:
  assumes "\<And>x n. (x, n) \<in> set ps \<Longrightarrow> decimal x"
  shows "foldE weight_line (ids, ws) (file_lines (weights_text ps))
    = Inr (ids @ map snd ps, ws @ map (decimal_value \<circ> fst) ps)"
  using assms
proof (induction ps arbitrary: ids ws)
  case Nil
  then show ?case by (simp add: weights_text_def)
next
  case (Cons p ps)
  obtain x n where p: "p = (x, n)" by fastforce
  have d: "decimal x" using Cons.prems p by auto
  have "file_lines (weights_text (p # ps)) = (x @ '' '' @ str_int n @ [newline]) # file_lines (weights_text ps)"
    using file_lines_words [of x "str_int n"] d by (simp add: weights_text_def p decimal_def)
  moreover have "weight_line (ids, ws) (x @ '' '' @ str_int n @ [newline])
      = Inr (ids @ [n], ws @ [decimal_value x])"
    using d by (simp add: weight_line_def decimal_def split_ws_two decimal_float)
  moreover have "foldE weight_line (ids @ [n], ws @ [decimal_value x]) (file_lines (weights_text ps))
      = Inr ((ids @ [n]) @ map snd ps, (ws @ [decimal_value x]) @ map (decimal_value \<circ> fst) ps)"
    by (rule Cons.IH) (use Cons.prems in auto)
  ultimately show ?case by (simp add: p)
qed

lemma label_lines_read:
  assumes "\<And>n x. (n, x) \<in> set ps \<Longrightarrow> decimal x"
  shows "foldE label_line (ls, ms) (file_lines (labels_text ps))
    = Inr (ls @ map fst ps, ms @ map (decimal_value \<circ> snd) ps)"
  using assms
proof (induction ps arbitrary: ls ms)
  case Nil
  then show ?case by (simp add: labels_text_def)
next
  case (Cons p ps)
  obtain n x where p: "p = (n, x)" by fastforce
  have d: "decimal x" using Cons.prems p by auto
  have "file_lines (labels_text (p # ps)) = (str_int n @ '' '' @ x @ [newline]) # file_lines (labels_text ps)"
    using file_lines_words [of "str_int n" x] d by (simp add: labels_text_def p decimal_def)
  moreover have "label_line (ls, ms) (str_int n @ '' '' @ x @ [newline])
      = Inr (ls @ [n], ms @ [decimal_value x])"
    using d by (simp add: label_line_def decimal_def split_ws_two decimal_float)
  moreover have "foldE label_line (ls @ [n], ms @ [decimal_value x]) (file_lines (labels_text ps))
      = Inr ((ls @ [n]) @ map fst ps, (ms @ [decimal_value x]) @ map (decimal_value \<circ> snd) ps)"
    by (rule Cons.IH) (use Cons.prems in auto)
  ultimately show ?case by (simp add: p)
qed

lemma simpoint_lines_step:
  "simpoint_lines ids i sps (file_lines (simpoints_text ((sp, n) # ps)))
   = bindE (get_item ids (int i)) (\<lambda>d.
       if n \<noteq> d then Inr (False, sps)
       else simpoint_lines ids (Suc i) (sps @ [sp]) (file_lines (simpoints_text ps)))"
proof -
  have "file_lines (simpoints_text ((sp, n) # ps))
      = (str_int sp @ '' '' @ str_int n @ [newline]) # file_lines (simpoints_text ps)"
    using file_lines_words [of "str_int sp" "str_int n"] by (simp add: simpoints_text_def)
  then show ?thesis by (simp add: split_ws_two cong: if_cong)
qed

lemma simpoint_lines_read:
  assumes "map snd ps = take (length ps) (drop i ids)" and "i + length ps \<le> length ids"
  shows "simpoint_lines ids i sps (file_lines (simpoints_text (ps @ qs)))
    = simpoint_lines ids (i + length ps) (sps @ map fst ps) (file_lines (simpoints_text qs))"
  using assms
proof (induction ps arbitrary: i sps)
  case Nil
  then show ?case by simp
next
  case (Cons p ps)
  obtain sp n where p: "p = (sp, n)" by fastforce
  have i: "i < length ids" using Cons.prems by simp
  then have d: "drop i ids = ids ! i # drop (Suc i) ids" by (simp add: Cons_nth_drop_Suc)
  then have n: "ids ! i = n" and rest: "map snd ps = take (length ps) (drop (Suc i) ids)"
    using Cons.prems by (simp_all add: p)
  then show ?case
    using Cons.IH [of "Suc i" "sps @ [sp]"] Cons.prems i
    by (simp add: p simpoint_lines_step get_item_nat)
qed

lemma simpoints_text_Nil [simp]: "file_lines (simpoints_text []) = []"
  by (simp add: simpoints_text_def)


lemma analysis_complete:
  assumes "SPData self = empty_sp_data"
    and "open_read w (tWeights self) = Some (weights_text ws)"
    and "open_read w (tSimPoints self) = Some (simpoints_text (zip sps (map snd ws)))"
    and "open_read w (tLabels self) = Some (labels_text ls)"
    and "length sps = length ws"
    and "\<And>x n. (x, n) \<in> set ws \<Longrightarrow> decimal x" and "\<And>n x. (n, x) \<in> set ls \<Longrightarrow> decimal x"
  shows "AnalysisSimPoints self w =
    Inr (True, self\<lparr>SPData := \<lparr>sp_id = Some (map snd ws), sp_weights = Some (map (decimal_value \<circ> fst) ws),
      sp_simpoints = Some sps, sp_labels = Some (map fst ls),
      sp_match = Some (map (decimal_value \<circ> snd) ls)\<rparr>\<rparr>, clean_files self w)"
  using assms weight_lines_read [of ws "[]" "[]"] label_lines_read [of ls "[]" "[]"]
    simpoint_lines_read [of "zip sps (map snd ws)" 0 "map snd ws" "[]" "[]"]
  by (simp add: AnalysisSimPoints_def read_simpoints_def read_labels_def clean_files_def
      empty_sp_data_def)

section \<open>Properties\<close>

text \<open>
  C11: on the files of a complete SimPoint run the analysis succeeds and \<open>SPData\<close> holds the ids and
  weights, the simpoint of each id in the same order, and the label and the distance of every
  region; the three files are removed exactly when the object was asked to.
\<close>

theorem AnalysisSimPoints_reads:
  assumes "SPData self = empty_sp_data"
    and "open_read w (tWeights self) = Some (weights_text ws)"
    and "open_read w (tSimPoints self) = Some (simpoints_text (zip sps (map snd ws)))"
    and "open_read w (tLabels self) = Some (labels_text ls)"
    and "length sps = length ws"
    and "\<And>x n. (x, n) \<in> set ws \<Longrightarrow> decimal x" and "\<And>n x. (n, x) \<in> set ls \<Longrightarrow> decimal x"
  shows "AnalysisSimPoints self w =
    Inr (True, self\<lparr>SPData := \<lparr>sp_id = Some (map snd ws), sp_weights = Some (map (decimal_value \<circ> fst) ws),
      sp_simpoints = Some sps, sp_labels = Some (map fst ls),
      sp_match = Some (map (decimal_value \<circ> snd) ls)\<rparr>\<rparr>, clean_files self w)"
  using assms by (rule analysis_complete)

theorem AnalysisSimPoints_reads_witness:
  "AnalysisSimPoints (new_simpoints ''v.gz'' (FixedStr ''off'') False 20 15 ''o_'')
     (fs_of [(''o_t.weights'', weights_text [(''0.25'', 0), (''0.75'', 2)]),
             (''o_t.simpoints'', simpoints_text [(1, 0), (0, 2)]),
             (''o_t.labels'', labels_text [(2, ''0''), (0, ''0.5'')])])
   = Inr (True, (new_simpoints ''v.gz'' (FixedStr ''off'') False 20 15 ''o_'')\<lparr>SPData :=
       \<lparr>sp_id = Some [0, 2], sp_weights = Some [1 / 4, 3 / 4], sp_simpoints = Some [1, 0],
        sp_labels = Some [2, 0], sp_match = Some [0, 1 / 2]\<rparr>\<rparr>,
       fs_of [(''o_t.weights'', weights_text [(''0.25'', 0), (''0.75'', 2)]),
             (''o_t.simpoints'', simpoints_text [(1, 0), (0, 2)]),
             (''o_t.labels'', labels_text [(2, ''0''), (0, ''0.5'')])])"
proof -
  have d: "py_float ''0.25'' = Inr (1 / 4)" "py_float ''0.75'' = Inr (3 / 4)"
    "py_float ''0'' = Inr 0" "py_float ''0.5'' = Inr (1 / 2)"
    by code_simp+
  note w = d [THEN decimalI [rotated]]
  have "decimal ''0.25'' \<and> decimal ''0.75'' \<and> decimal ''0'' \<and> decimal ''0.5''"
    by (intro conjI w) (simp_all add: word_def is_space_def)
  then show ?thesis
    by (subst AnalysisSimPoints_reads [where ws = "[(''0.25'', 0), (''0.75'', 2)]" and sps = "[1, 0]"
          and ls = "[(2, ''0''), (0, ''0.5'')]"])
      (auto simp: decimal_value_def d clean_files_def)
qed

text \<open>
  C13: when the \<open>k\<close>-th line of \<open>t.simpoints\<close> names another id than the \<open>k\<close>-th line of
  \<open>t.weights\<close>, the analysis returns \<open>False\<close>, keeps the simpoints read before that line, never reads
  the labels and removes no file.
\<close>

theorem AnalysisSimPoints_wrong_id:
  assumes "SPData self = empty_sp_data"
    and "open_read w (tWeights self) = Some (weights_text ws)"
    and "open_read w (tSimPoints self) = Some (simpoints_text (ps @ (sp, n) # qs))"
    and "map snd ps = take (length ps) (map snd ws)" and "length ps < length ws"
    and "n \<noteq> snd (ws ! length ps)"
    and "\<And>x n. (x, n) \<in> set ws \<Longrightarrow> decimal x"
  shows "AnalysisSimPoints self w =
    Inr (False, self\<lparr>SPData := \<lparr>sp_id = Some (map snd ws), sp_weights = Some (map (decimal_value \<circ> fst) ws),
      sp_simpoints = Some (map fst ps), sp_labels = None, sp_match = None\<rparr>\<rparr>, w)"
  using assms weight_lines_read [of ws "[]" "[]"]
    simpoint_lines_read [of ps 0 "map snd ws" "[]" "(sp, n) # qs"]
  by (simp add: AnalysisSimPoints_def read_simpoints_def simpoint_lines_step get_item_nat
      empty_sp_data_def)

theorem AnalysisSimPoints_wrong_id_witness:
  "AnalysisSimPoints (new_simpoints ''v.gz'' (FixedStr ''off'') True 20 15 ''o_'')
     (fs_of [(''o_t.weights'', weights_text [(''0.25'', 0), (''0.75'', 2)]),
             (''o_t.simpoints'', simpoints_text [(1, 0), (0, 3)])])
   = Inr (False, (new_simpoints ''v.gz'' (FixedStr ''off'') True 20 15 ''o_'')\<lparr>SPData :=
       \<lparr>sp_id = Some [0, 2], sp_weights = Some [1 / 4, 3 / 4], sp_simpoints = Some [1],
        sp_labels = None, sp_match = None\<rparr>\<rparr>,
       fs_of [(''o_t.weights'', weights_text [(''0.25'', 0), (''0.75'', 2)]),
             (''o_t.simpoints'', simpoints_text [(1, 0), (0, 3)])])"
proof -
  have d: "py_float ''0.25'' = Inr (1 / 4)" "py_float ''0.75'' = Inr (3 / 4)"
    by code_simp+
  note w = d [THEN decimalI [rotated]]
  have "decimal ''0.25'' \<and> decimal ''0.75''"
    by (intro conjI w) (simp_all add: word_def is_space_def)
  then show ?thesis
    by (subst AnalysisSimPoints_wrong_id [where ws = "[(''0.25'', 0), (''0.75'', 2)]"
          and ps = "[(1, 0)]" and sp = 0 and n = 3 and qs = "[]"])
      (auto simp: decimal_value_def d)
qed

end
