(* ===== verification/Bp_State.thy ===== *)
theory Bp_State
  imports Sim_Points
begin

text \<open>
  The object \<open>BarrierPoints\<close> of \<open>DrAnalysis.py\<close>: its attributes, its constructor, the
  substitution of the thread count in the application parameters, and \<open>__CreateVectors\<close>, which
  names the vector files and runs the DynamoRIO client.
\<close>

section \<open>State\<close>

text \<open>Attributes the constructor sets to \<open>None\<close> are options; the rest starts empty.\<close>

record barrier_points =
  bp_miniApp :: string
  bp_nthreads :: int
  bp_iteration :: int
  bp_benchpath :: string
  bp_drpath :: string
  bp_out_suffix :: string
  bp_appParams :: string
  bp_toolOutPath :: string
  BBV_count :: "string option"
  BBV_inscount :: "string option"
  LDV_reuse :: "string option"
  BP :: "string option"
  selectedBP :: "string option"
  temporalSPfiles :: string
  ins_per_phase :: "int list"
  bp_SPData :: sp_data
  simpointsEC :: "int list"
  simpointsEE :: "int list"
  SimPointBBMap :: "int list"
  SimPointBBMap_EC :: "int list"
  SimPointBBMap_EE :: "int list"
  SelectedBarrierPoints :: "int list"
  SelectedMultipliers :: "rat list"
  SelectedBarrierPoints_EC :: "int list"
  SelectedMultipliers_EC :: "rat list"
  SelectedBarrierPoints_EE :: "int list"
  SelectedMultipliers_EE :: "rat list"

text \<open>\<open>app-suffix.Nt\<close>, or \<open>app.Nt\<close> when the suffix is empty: the name every output carries.\<close>

definition run_name :: "string \<Rightarrow> string \<Rightarrow> int \<Rightarrow> string" where
  "run_name app suffix nt =
     (if suffix \<noteq> [] then app @ ''-'' @ suffix @ ''.'' @ str_int nt @ ''t''
      else app @ ''.'' @ str_int nt @ ''t'')"

text \<open>\<open>"{:0>3d}".format(n)\<close>.\<close>

definition pad3 :: "int \<Rightarrow> string" where
  "pad3 n = pad_left 3 (str_int n)"

definition GetBenchParams :: "string \<Rightarrow> int \<Rightarrow> string res" where
  "GetBenchParams params nt =
     (if contains ''{}'' params then format_auto params [str_int nt] else Inr params)"

definition BarrierPoints_init ::
    "string \<Rightarrow> int \<Rightarrow> string \<Rightarrow> string \<Rightarrow> string \<Rightarrow> int \<Rightarrow> string \<Rightarrow> string \<Rightarrow> barrier_points res" where
  "BarrierPoints_init app nt params outpath suffix iter benchp drp =
     bindE (GetBenchParams params nt) (\<lambda>ps.
       Inr \<lparr>bp_miniApp = app, bp_nthreads = nt, bp_iteration = iter, bp_benchpath = benchp,
            bp_drpath = drp, bp_out_suffix = suffix, bp_appParams = ps,
            bp_toolOutPath = outpath @ ''/'' @ run_name app suffix nt @ ''/'' @ pad3 iter @ ''/'',
            BBV_count = None, BBV_inscount = None, LDV_reuse = None, BP = None, selectedBP = None,
            temporalSPfiles = [], ins_per_phase = [], bp_SPData = empty_sp_data,
            simpointsEC = [], simpointsEE = [],
            SimPointBBMap = [], SimPointBBMap_EC = [], SimPointBBMap_EE = [],
            SelectedBarrierPoints = [], SelectedMultipliers = [],
            SelectedBarrierPoints_EC = [], SelectedMultipliers_EC = [],
            SelectedBarrierPoints_EE = [], SelectedMultipliers_EE = []\<rparr>)"

section \<open>Creating the vectors\<close>

definition path_exists :: "fs \<Rightarrow> string \<Rightarrow> bool" where
  "path_exists w p = (is_file w p \<or> dirs w p)"

definition GetBenchPath :: "fs \<Rightarrow> string \<Rightarrow> string \<Rightarrow> string option" where
  "GetBenchPath w benchp app =
     (if path_exists w (benchp @ ''/'' @ app) then Some (benchp @ ''/'' @ app) else None)"

text \<open>\<open>'{}'.format(x)\<close> of a path that may be \<open>None\<close>.\<close>

definition format_opt :: "string option \<Rightarrow> string" where
  "format_opt p = (case p of None \<Rightarrow> ''None'' | Some s \<Rightarrow> s)"

definition drrun_cmd :: "barrier_points \<Rightarrow> string \<Rightarrow> fs \<Rightarrow> string" where
  "drrun_cmd self opath w =
     ''export LD_PRELOAD=./barrierpoint-libs/libbp_dr.so OMP_NUM_THREADS='' @ str_int (bp_nthreads self)
     @ '' GOMP_CPU_AFFINITY=\"0-'' @ str_int (bp_nthreads self - 1) @ ''\"; ''
     @ bp_drpath self
     @ ''/bin64/drrun -stderr_mask 15 -c ./dynamorio_client/build/libbarrierpoint.so ''
     @ replicate 15 CHR '' '' @ ''-out_path '' @ opath @ '' -- ''
     @ format_opt (GetBenchPath w (bp_benchpath self) (bp_miniApp self)) @ '' '' @ bp_appParams self"

text \<open>The output folder is created, or the results go to the current folder.\<close>

definition ensure_out_path :: "barrier_points \<Rightarrow> fs \<Rightarrow> barrier_points \<times> fs" where
  "ensure_out_path self w =
     (if dirs w (bp_toolOutPath self) then (self, w)
      else case make_dirs w (bp_toolOutPath self) of
             None \<Rightarrow> (self\<lparr>bp_toolOutPath := ''.''\<rparr>, w)
           | Some w' \<Rightarrow> (self, w'))"

definition CreateVectors ::
    "(string \<Rightarrow> fs \<Rightarrow> int \<times> fs) \<Rightarrow> bool \<Rightarrow> barrier_points \<Rightarrow> fs \<Rightarrow> bool \<times> barrier_points \<times> fs" where
  "CreateVectors bash dryRun self0 w0 =
     (let (self1, w) = ensure_out_path self0 w0;
          opath = bp_toolOutPath self1 @ ''/'' @ run_name (bp_miniApp self1) (bp_out_suffix self1) (bp_nthreads self1);
          self = self1\<lparr>BBV_count := Some (opath @ ''.bbv_count.gz''),
                       BBV_inscount := Some (opath @ ''.bbv_inscount.gz''),
                       LDV_reuse := Some (opath @ ''.ldv_bb.gz'')\<rparr>
      in if \<not> is_file w ''./dynamorio_client/build/libbarrierpoint.so'' then (False, self, w)
         else if dryRun then (True, self, w)
         else (let (rc, w') = bash (drrun_cmd self opath w) w in (rc = 0, self, w')))"

section \<open>Properties\<close>

text \<open>
  Text without braces passes through \<open>str.format\<close> unchanged, so one field in such a text is
  replaced by the first argument and a second field has none left.
\<close>

definition brace_free :: "string \<Rightarrow> bool" where
  "brace_free s = (CHR ''{'' \<notin> set s \<and> CHR ''}'' \<notin> set s)"

lemma brace_free_Cons: "brace_free (c # s) \<longleftrightarrow> c \<noteq> CHR ''{'' \<and> c \<noteq> CHR ''}'' \<and> brace_free s"
  by (auto simp: brace_free_def)

lemma format_auto_char:
  "c \<noteq> CHR ''{'' \<Longrightarrow> c \<noteq> CHR ''}'' \<Longrightarrow>
   format_auto (c # s) args = bindE (format_auto s args) (\<lambda>r. Inr (c # r))"
  by (cases s) simp_all

declare format_auto.simps(3) [simp del]

lemma format_auto_field_head:
  "format_auto (CHR ''{'' # CHR ''}'' # s) args
     = (case args of [] \<Rightarrow> Inl IndexError | a # as \<Rightarrow> bindE (format_auto s as) (\<lambda>r. Inr (a @ r)))"
  by (simp add: format_auto.simps(3) split: list.split)

lemma format_auto_brace_free: "brace_free s \<Longrightarrow> format_auto s args = Inr s"
  by (induction s) (simp_all add: brace_free_Cons format_auto_char)

lemma format_auto_field:
  "brace_free s \<Longrightarrow> format_auto (s @ CHR ''{'' # CHR ''}'' # t) (a # args)
     = bindE (format_auto t args) (\<lambda>r. Inr (s @ a @ r))"
  by (induction s) (simp_all add: brace_free_Cons format_auto_char format_auto_field_head bindE_assoc)

lemma format_auto_no_argument:
  "brace_free s \<Longrightarrow> format_auto (s @ CHR ''{'' # CHR ''}'' # t) [] = Inl IndexError"
  by (induction s) (simp_all add: brace_free_Cons format_auto_char format_auto_field_head)

lemma starts_with_contains: "starts_with p t \<Longrightarrow> contains p t"
  by (cases t; cases p) simp_all

lemma contains_append: "starts_with p t \<Longrightarrow> contains p (s @ t)"
  by (induction s) (simp_all add: starts_with_contains)

lemma contains_brace_free: "brace_free s \<Longrightarrow> \<not> contains ''{}'' s"
  by (induction s) (auto simp: brace_free_Cons)

text \<open>
  C17: application parameters with one \<open>{}\<close> run with the thread count in its place; parameters
  with two raise \<open>IndexError\<close>, because \<open>format\<close> is given one argument.
\<close>

theorem GetBenchParams_fields:
  assumes "brace_free a" "brace_free b"
  shows "GetBenchParams (a @ ''{}'' @ b) nt = Inr (a @ str_int nt @ b)
    \<and> GetBenchParams (a @ ''{}'' @ b @ ''{}'' @ c) nt = Inl IndexError
    \<and> GetBenchParams a nt = Inr a"
proof -
  have "contains ''{}'' (a @ ''{}'' @ t)" for t by (rule contains_append) simp
  then show ?thesis
    using format_auto_field [OF assms(1), of b "str_int nt" "[]"]
      format_auto_field [OF assms(1), of "b @ ''{}'' @ c" "str_int nt" "[]"]
      format_auto_no_argument [OF assms(2), of c] contains_brace_free [OF assms(1)]
    by (simp add: GetBenchParams_def format_auto_brace_free [OF assms(2)])
qed

theorem GetBenchParams_fields_witness:
  "GetBenchParams ''-threads {} -v'' 4 = Inr ''-threads 4 -v''
   \<and> GetBenchParams ''-threads {} -v{}'' 4 = Inl IndexError
   \<and> GetBenchParams ''-threads '' 4 = Inr ''-threads ''"
proof -
  have b: "brace_free ''-threads ''" "brace_free '' -v''" by (simp_all add: brace_free_def)
  have n: "str_int 4 = ''4''" by code_simp
  show ?thesis using GetBenchParams_fields [OF b, of 4 "[]"] by (simp add: n)
qed

end
