(* ===== verification/Bp_Vectors.thy ===== *)
theory Bp_Vectors
  imports Bp_State
begin

text \<open>
  \<open>BarrierPoints.__CombineBBVsandLDVs\<close> of \<open>DrAnalysis.py\<close>: the basic block vectors and the
  reuse distance histograms of every region are read from the files of the DynamoRIO client,
  the histograms are scaled to the instructions of the region, the basic block ids are shifted
  past the histogram ids, and one vector per region is written for SimPoint.

  \<open>repr\<close> is Python's text for a float; the output file is the only place that needs it.
\<close>

section \<open>Reading the three files\<close>

text \<open>The integers after the first \<open>:\<close> of a line \<open>T:id:freq :id:freq ...\<close>.\<close>

definition parse_vector_line :: "string \<Rightarrow> int list res" where
  "parse_vector_line line = mapE py_int (tl (split_on CHR '':'' line))"

text \<open>\<open>f.readline()\<close> before the loop skips the first line.\<close>

definition lines_after_first :: "string \<Rightarrow> string list" where
  "lines_after_first txt = drop 1 (file_lines txt)"

record ldv_state =
  bbmax :: int
  total_reuse :: "int list"
  reuse_data :: "(int \<times> int) list list"

definition ldv_line :: "ldv_state \<Rightarrow> string \<Rightarrow> ldv_state res" where
  "ldv_line s line =
     bindE (parse_vector_line line) (\<lambda>d.
       Inr \<lparr>bbmax = Max (set (evens d @ [bbmax s])),
            total_reuse = total_reuse s @ [sum_list (odds d)],
            reuse_data = reuse_data s @ [zip (evens d) (odds d)]\<rparr>)"

definition read_ldv :: "string \<Rightarrow> ldv_state res" where
  "read_ldv txt =
     foldE ldv_line \<lparr>bbmax = 0, total_reuse = [], reuse_data = []\<rparr> (lines_after_first txt)"

definition inscount_line :: "string \<Rightarrow> int res" where
  "inscount_line line = bindE (mapE py_int (split_on CHR '','' line)) (\<lambda>ns. Inr (sum_list ns))"

definition read_inscount :: "string \<Rightarrow> int list res" where
  "read_inscount txt = mapE inscount_line (lines_after_first txt)"

section \<open>The vector of a region\<close>

text \<open>\<open>a / b\<close> of two integers: the quotient rounded once.\<close>

definition true_div :: "int \<Rightarrow> int \<Rightarrow> rat res" where
  "true_div a b = (if b = 0 then Inl ZeroDivisionError else Inr (fl64 (of_int a / of_int b)))"

definition scaled_reuse :: "int \<Rightarrow> int \<Rightarrow> (int \<times> int) list \<Rightarrow> (int \<times> rat) list res" where
  "scaled_reuse ins tot reuse =
     mapE (\<lambda>(rd_bbid, rd_count).
       bindE (true_div (rd_count * ins) tot) (\<lambda>c. Inr (rd_bbid, c))) reuse"

definition shifted_blocks :: "int \<Rightarrow> int list \<Rightarrow> (int \<times> int) list" where
  "shifted_blocks bbm d = zip (map (\<lambda>x. x + bbm) (evens d)) (odds d)"

definition vector_text :: "(rat \<Rightarrow> string) \<Rightarrow> (int \<times> rat) list \<Rightarrow> (int \<times> int) list \<Rightarrow> string" where
  "vector_text repr rds bbs =
     ''T''
     @ concat (map (\<lambda>(i, c). '':'' @ str_int i @ '':'' @ repr c @ '' '') rds)
     @ concat (map (\<lambda>(i, c). '':'' @ str_int i @ '':'' @ str_int c @ '' '') bbs)
     @ [newline]"

text \<open>The body of the loop over \<open>BBV_count\<close>: \<open>i\<close> is the line number, \<open>out\<close> the text written so far.\<close>

definition count_line ::
    "(rat \<Rightarrow> string) \<Rightarrow> ldv_state \<Rightarrow> int list \<Rightarrow> nat \<times> string \<Rightarrow> string \<Rightarrow> (nat \<times> string) res" where
  "count_line repr ldv inss s line =
     (let (i, out) = s in
      bindE (parse_vector_line line) (\<lambda>d.
      bindE (get_item (reuse_data ldv) (int i)) (\<lambda>reuse.
      bindE (if reuse = [] then Inr []
             else bindE (get_item inss (int i)) (\<lambda>ins.
                  bindE (get_item (total_reuse ldv) (int i)) (\<lambda>tot.
                  scaled_reuse ins tot reuse))) (\<lambda>rds.
      Inr (Suc i, out @ vector_text repr rds (shifted_blocks (bbmax ldv) d))))))"

section \<open>The method\<close>

definition missing_file :: "fs \<Rightarrow> string option list \<Rightarrow> bool res" where
  "missing_file w fns =
     foldE (\<lambda>missing fn.
       if missing then Inr True
       else case fn of None \<Rightarrow> Inl TypeError | Some p \<Rightarrow> Inr (\<not> is_file w p)) False fns"

text \<open>The last block of the method: \<open>BBV_count\<close> in, \<open>BP\<close> out.\<close>

definition write_vectors ::
    "(rat \<Rightarrow> string) \<Rightarrow> string \<Rightarrow> string \<Rightarrow> ldv_state \<Rightarrow> barrier_points \<Rightarrow> fs
     \<Rightarrow> (bool \<times> barrier_points \<times> fs) res" where
  "write_vectors repr cpath bpath ldv self w =
     (case open_read w cpath of
        None \<Rightarrow> Inr (False, self, w)
      | Some txt \<Rightarrow>
          (case write_file w bpath [] of
             None \<Rightarrow> Inr (False, self, w)
           | Some w1 \<Rightarrow>
               bindE (foldE (count_line repr ldv (ins_per_phase self)) (0, []) (lines_after_first txt))
                 (\<lambda>(i, out). Inr (True, self, w1\<lparr>files := (files w1)(bpath := Some out)\<rparr>))))"

definition CombineBBVsandLDVs ::
    "(rat \<Rightarrow> string) \<Rightarrow> barrier_points \<Rightarrow> fs \<Rightarrow> (bool \<times> barrier_points \<times> fs) res" where
  "CombineBBVsandLDVs repr self0 w =
     bindE (missing_file w [BBV_count self0, BBV_inscount self0, LDV_reuse self0]) (\<lambda>missing.
     if missing then Inr (False, self0, w)
     else
       case (BBV_count self0, BBV_inscount self0, LDV_reuse self0) of
         (Some cpath, Some ipath, Some lpath) \<Rightarrow>
           (let stem = bp_toolOutPath self0 @ ''/''
                  @ run_name (bp_miniApp self0) (bp_out_suffix self0) (bp_nthreads self0);
                bpath = stem @ ''.bpv.gz'';
                sel = stem @ ''.barrierpoints'';
                self1 = self0\<lparr>BP := Some bpath, selectedBP := Some sel, temporalSPfiles := sel @ ''_''\<rparr>
            in case open_read w lpath of
                 None \<Rightarrow> Inr (False, self1, w)
               | Some ltxt \<Rightarrow>
                   bindE (read_ldv ltxt) (\<lambda>ldv.
                   case open_read w ipath of
                     None \<Rightarrow> Inr (False, self1\<lparr>ins_per_phase := []\<rparr>, w)
                   | Some itxt \<Rightarrow>
                       bindE (read_inscount itxt) (\<lambda>inss.
                       if length inss \<noteq> length (reuse_data ldv) then Inl AssertionError
                       else write_vectors repr cpath bpath ldv (self1\<lparr>ins_per_phase := inss\<rparr>) w)))
       | _ \<Rightarrow> Inl TypeError)"

section \<open>The formats of the client's files\<close>

definition pair_token :: "int \<times> int \<Rightarrow> string" where
  "pair_token p = '':'' @ str_int (fst p) @ '':'' @ str_int (snd p) @ '' ''"

definition pairs_line :: "(int \<times> int) list \<Rightarrow> string" where
  "pairs_line ps = ''T'' @ concat (map pair_token ps)"

definition flat_pairs :: "(int \<times> int) list \<Rightarrow> int list" where
  "flat_pairs ps = concat (map (\<lambda>(a, b). [a, b]) ps)"

definition counts_line :: "int list \<Rightarrow> string" where
  "counts_line ns = join '','' (map str_int ns)"

lemma flat_pairs_slices [simp]:
  "evens (flat_pairs ps) = map fst ps" "odds (flat_pairs ps) = map snd ps"
  by (simp_all add: flat_pairs_def)

lemma str_int_no_sep: "CHR '':'' \<notin> set (str_int n)" "CHR '','' \<notin> set (str_int n)" "newline \<notin> set (str_int n)"
  using str_int_chars digit_not_special(5,6,7) by force+

lemma parse_tokens:
  "mapE py_int (split_on CHR '':'' (str_int b @ CHR '' '' # concat (map pair_token ps) @ [newline]))
   = Inr (b # flat_pairs ps)"
proof (induction ps arbitrary: b)
  case Nil
  have "CHR '':'' \<notin> set (str_int b @ [CHR '' '', newline])" using str_int_no_sep by simp
  moreover have "py_int (str_int b @ [CHR '' '', newline]) = Inr b"
    by (rule py_int_pad [of "[]", simplified]) auto
  ultimately show ?case by (simp add: split_on_solid flat_pairs_def)
next
  case (Cons p ps)
  obtain a c where p: "p = (a, c)" by fastforce
  have s: "CHR '':'' \<notin> set (str_int b @ [CHR '' ''])" "CHR '':'' \<notin> set (str_int a)"
    using str_int_no_sep by simp_all
  have "split_on CHR '':'' (str_int b @ CHR '' '' # concat (map pair_token (p # ps)) @ [newline])
      = (str_int b @ [CHR '' '']) # str_int a
        # split_on CHR '':'' (str_int c @ CHR '' '' # concat (map pair_token ps) @ [newline])"
    using split_on_append [OF s(1)] split_on_append [OF s(2)] by (simp add: p pair_token_def)
  then show ?case using Cons.IH [of c] by (simp add: p flat_pairs_def)
qed

lemma parse_pairs_line: "parse_vector_line (pairs_line ps @ [newline]) = Inr (flat_pairs ps)"
proof (cases ps)
  case Nil
  then show ?thesis by (simp add: parse_vector_line_def pairs_line_def flat_pairs_def)
next
  case (Cons p qs)
  obtain a c where p: "p = (a, c)" by fastforce
  have "split_on CHR '':'' (pairs_line ps @ [newline])
      = ''T'' # str_int a # split_on CHR '':'' (str_int c @ CHR '' '' # concat (map pair_token qs) @ [newline])"
    using split_on_append [OF str_int_no_sep(1)]
    by (simp add: Cons p pair_token_def pairs_line_def)
  then show ?thesis
    using parse_tokens [of c qs] by (simp add: parse_vector_line_def Cons p flat_pairs_def)
qed

lemma pairs_line_one_line: "newline \<notin> set (pairs_line ps)"
  using str_int_no_sep by (auto simp: pairs_line_def pair_token_def)

interpretation pairs_file: line_codec pairs_line parse_vector_line "\<lambda>_. True" flat_pairs
  by unfold_locales (simp_all add: parse_pairs_line pairs_line_one_line)

lemma parse_counts_line:
  assumes "ns \<noteq> []"
  shows "inscount_line (counts_line ns @ [newline]) = Inr (sum_list ns)"
proof -
  let ?ws = "map str_int ns"
  have "split_on CHR '','' (counts_line ns @ [newline]) = butlast ?ws @ [last ?ws @ [newline]]"
    unfolding counts_line_def using assms str_int_no_sep by (intro split_on_join_newline) auto
  also have "\<dots> = map str_int (butlast ns) @ [str_int (last ns) @ [newline]]"
    using assms by (simp add: map_butlast last_map)
  also have "mapE py_int \<dots> = Inr (butlast ns @ [last ns])"
    by (simp add: mapE_append)
  finally show ?thesis using assms by (simp add: inscount_line_def)
qed

interpretation counts_file: line_codec counts_line inscount_line "\<lambda>ns. ns \<noteq> []" sum_list
proof
  show "inscount_line (counts_line ns @ [newline]) = Inr (sum_list ns)" if "ns \<noteq> []" for ns
    using that by (rule parse_counts_line)
  show "newline \<notin> set (counts_line ns)" for ns
    unfolding counts_line_def using str_int_no_sep by (intro join_one_line) auto
qed


text \<open>A file of the client: a heading line, then one line per region.\<close>

definition file_text :: "('a \<Rightarrow> string) \<Rightarrow> string \<Rightarrow> 'a list \<Rightarrow> string" where
  "file_text show_line head xs = head @ [newline] @ concat (map (\<lambda>x. show_line x @ [newline]) xs)"

lemma lines_file_text:
  assumes "newline \<notin> set head" "\<And>x. x \<in> set xs \<Longrightarrow> newline \<notin> set (show_line x)"
  shows "lines_after_first (file_text show_line head xs) = map (\<lambda>x. show_line x @ [newline]) xs"
proof -
  have "file_lines (concat (map (\<lambda>l. l @ [newline]) (map show_line xs)))
      = map (\<lambda>l. l @ [newline]) (map show_line xs)"
    by (rule file_lines_concat) (use assms(2) in auto)
  then show ?thesis
    using file_lines_append [OF assms(1)]
    by (simp add: lines_after_first_def file_text_def comp_def)
qed

section \<open>What the reader keeps true\<close>

text \<open>Every histogram id read so far is at most \<open>bbmax\<close>, and there is a sum for every histogram.\<close>

definition ldv_inv :: "ldv_state \<Rightarrow> bool" where
  "ldv_inv s = (length (total_reuse s) = length (reuse_data s)
     \<and> total_reuse s = map (\<lambda>r. sum_list (map snd r)) (reuse_data s)
     \<and> (\<forall>r \<in> set (reuse_data s). \<forall>(rd, c) \<in> set r. rd \<le> bbmax s))"

lemma evens_odds_zip_snd: "map snd (zip (evens xs) (odds xs)) = odds xs"
  by (induction xs rule: evens.induct) simp_all

lemma ldv_line_inv:
  assumes "ldv_inv s" "ldv_line s line = Inr t"
  shows "ldv_inv t"
proof -
  obtain d where d: "parse_vector_line line = Inr d"
    and t: "t = \<lparr>bbmax = Max (set (evens d @ [bbmax s])), total_reuse = total_reuse s @ [sum_list (odds d)],
      reuse_data = reuse_data s @ [zip (evens d) (odds d)]\<rparr>"
    using assms(2) by (auto simp: ldv_line_def bindE_eq_Inr)
  have b: "bbmax t = Max (insert (bbmax s) (set (evens d)))" by (simp add: t)
  then have old: "bbmax s \<le> bbmax t" and new: "x \<le> bbmax t" if "x \<in> set (evens d)" for x
    using that by auto
  have "bbmax s \<le> bbmax t" by (simp add: b)
  then have "\<forall>(rd, c) \<in> set r. rd \<le> bbmax t" if "r \<in> set (reuse_data s)" for r
    using assms(1) that by (fastforce simp: ldv_inv_def)
  moreover have "\<forall>(rd, c) \<in> set (zip (evens d) (odds d)). rd \<le> bbmax t"
    using new by (blast dest: set_zip_leftD)
  ultimately have "\<forall>r \<in> set (reuse_data t). \<forall>(rd, c) \<in> set r. rd \<le> bbmax t" by (simp add: t)
  then show ?thesis using assms(1) by (simp add: ldv_inv_def t evens_odds_zip_snd)
qed

lemma read_ldv_inv: "read_ldv txt = Inr s \<Longrightarrow> ldv_inv s"
  unfolding read_ldv_def
proof (erule foldE_invariant [where P = ldv_inv])
  show "ldv_inv \<lparr>bbmax = 0, total_reuse = [], reuse_data = []\<rparr>" by (simp add: ldv_inv_def)
qed (rule ldv_line_inv)

definition max_id :: "int \<Rightarrow> (int \<times> int) list list \<Rightarrow> int" where
  "max_id b rs = Max (insert b (\<Union>r \<in> set rs. fst ` set r))"

lemma ldv_lines_read:
  "foldE ldv_line s (map (\<lambda>r. pairs_line r @ [newline]) rs)
   = Inr \<lparr>bbmax = max_id (bbmax s) rs,
          total_reuse = total_reuse s @ map (\<lambda>r. sum_list (map snd r)) rs,
          reuse_data = reuse_data s @ rs\<rparr>"
proof (induction rs arbitrary: s)
  case Nil
  then show ?case by (simp add: max_id_def)
next
  case (Cons r rs)
  let ?X = "\<Union>r \<in> set rs. fst ` set r"
  have "Max (insert (Max (insert (bbmax s) (fst ` set r))) ?X) = Max (insert (bbmax s) (fst ` set r) \<union> ?X)"
    by (rule Max_insert_Max) auto
  then show ?case
    using Cons.IH
    by (simp add: ldv_line_def parse_pairs_line max_id_def zip_map_fst_snd Un_assoc)
qed

lemma read_ldv_file:
  assumes "newline \<notin> set head"
  shows "read_ldv (file_text pairs_line head rs)
    = Inr \<lparr>bbmax = max_id 0 rs, total_reuse = map (\<lambda>r. sum_list (map snd r)) rs, reuse_data = rs\<rparr>"
  using assms ldv_lines_read [of "\<lparr>bbmax = 0, total_reuse = [], reuse_data = []\<rparr>"]
  by (simp add: read_ldv_def lines_file_text pairs_line_one_line)

lemma read_inscount_file:
  assumes "newline \<notin> set head" "\<And>ns. ns \<in> set nss \<Longrightarrow> ns \<noteq> []"
  shows "read_inscount (file_text counts_line head nss) = Inr (map sum_list nss)"
  using assms counts_file.read_lines [of nss] counts_file.show_one_line
  by (simp add: read_inscount_def lines_file_text)


section \<open>The vectors\<close>

definition scaled_value :: "int \<Rightarrow> int \<Rightarrow> int \<times> int \<Rightarrow> int \<times> rat" where
  "scaled_value ins tot p = (fst p, fl64 (of_int (snd p * ins) / of_int tot))"

lemma scaled_reuse_eq:
  "scaled_reuse ins tot reuse =
     (if tot = 0 \<and> reuse \<noteq> [] then Inl ZeroDivisionError else Inr (map (scaled_value ins tot) reuse))"
proof (cases "tot = 0")
  case True
  then show ?thesis by (cases reuse) (auto simp: scaled_reuse_def true_div_def)
next
  case False
  then show ?thesis
    by (auto simp: scaled_reuse_def true_div_def scaled_value_def intro!: mapE_returns)
qed

definition region_text :: "(rat \<Rightarrow> string) \<Rightarrow> int \<Rightarrow> int \<times> (int \<times> int) list \<times> (int \<times> int) list \<Rightarrow> string" where
  "region_text repr m x =
     (case x of (ins, r, b) \<Rightarrow>
        vector_text repr (map (scaled_value ins (sum_list (map snd r))) r) (map (\<lambda>(i, n). (i + m, n)) b))"

lemma shifted_blocks_flat_pairs [simp]:
  "shifted_blocks m (flat_pairs ps) = map (\<lambda>(i, n). (i + m, n)) ps"
  unfolding shifted_blocks_def by (induction ps) (auto simp: flat_pairs_def)

lemma count_lines_write:
  assumes "reuse_data ldv = rs" "total_reuse ldv = map (\<lambda>r. sum_list (map snd r)) rs"
    and "length inss = length rs" "i + length cs \<le> length rs"
    and "\<And>r. r \<in> set rs \<Longrightarrow> r \<noteq> [] \<Longrightarrow> sum_list (map snd r) \<noteq> 0"
  shows "foldE (count_line repr ldv inss) (i, out) (map (\<lambda>c. pairs_line c @ [newline]) cs)
    = Inr (i + length cs, out @ concat (map (region_text repr (bbmax ldv)) (zip (drop i inss) (zip (drop i rs) cs))))"
  using assms(4)
proof (induction cs arbitrary: i out)
  case Nil
  then show ?case by simp
next
  case (Cons c cs)
  then have i: "i < length rs" by simp
  have nz: "sum_list (map snd (rs ! i)) \<noteq> 0" if "rs ! i \<noteq> []" using assms(5) that i by simp
  let ?t = "region_text repr (bbmax ldv) (inss ! i, rs ! i, c)"
  have "count_line repr ldv inss (i, out) (pairs_line c @ [newline]) = Inr (Suc i, out @ ?t)"
    using i assms(1-3) nz
    by (auto simp: count_line_def parse_pairs_line get_item_nat scaled_reuse_eq region_text_def)
  moreover have "foldE (count_line repr ldv inss) (Suc i, out @ ?t) (map (\<lambda>c. pairs_line c @ [newline]) cs)
    = Inr (Suc i + length cs, (out @ ?t) @ concat (map (region_text repr (bbmax ldv))
        (zip (drop (Suc i) inss) (zip (drop (Suc i) rs) cs))))"
    by (rule Cons.IH) (use Cons.prems in simp)
  moreover have "drop i inss = inss ! i # drop (Suc i) inss" "drop i rs = rs ! i # drop (Suc i) rs"
    using i assms(3) by (simp_all add: Cons_nth_drop_Suc)
  ultimately show ?case by simp
qed

text \<open>Block counts for more regions than there are histograms.\<close>

lemma count_lines_too_many:
  assumes "reuse_data ldv = rs" "total_reuse ldv = map (\<lambda>r. sum_list (map snd r)) rs"
    and "length inss = length rs" "length rs < length cs"
    and "\<And>r. r \<in> set rs \<Longrightarrow> r \<noteq> [] \<Longrightarrow> sum_list (map snd r) \<noteq> 0"
  shows "foldE (count_line repr ldv inss) (0, []) (map (\<lambda>c. pairs_line c @ [newline]) cs) = Inl IndexError"
proof -
  let ?n = "length rs" and ?line = "\<lambda>c. pairs_line c @ [newline]"
  obtain pre c post where cs: "cs = pre @ c # post" "length pre = ?n"
    using id_take_nth_drop [OF assms(4)] assms(4) by (metis length_take min.absorb4)
  obtain out where "foldE (count_line repr ldv inss) (0, []) (map ?line pre) = Inr (?n, out)"
    using count_lines_write [of ldv rs inss 0 pre repr "[]"] assms(1-3,5) cs(2) by simp
  moreover have "count_line repr ldv inss (?n, out) (?line c) = Inl IndexError" for out
    by (simp add: count_line_def parse_pairs_line assms(1) get_item_out)
  ultimately show ?thesis by (simp add: cs(1) foldE_append)
qed

definition vectors_path :: "barrier_points \<Rightarrow> string" where
  "vectors_path self = bp_toolOutPath self @ ''/''
     @ run_name (bp_miniApp self) (bp_out_suffix self) (bp_nthreads self) @ ''.bpv.gz''"

text \<open>The method up to the loop over the block counts, on files of the client.\<close>

lemma combine_files:
  assumes "BBV_count self = Some cp" "BBV_inscount self = Some ip" "LDV_reuse self = Some lp"
    and "open_read w cp = Some (file_text pairs_line h1 cs)"
      "open_read w ip = Some (file_text counts_line h2 nss)"
      "open_read w lp = Some (file_text pairs_line h3 rs)"
    and "newline \<notin> set h1" "newline \<notin> set h2" "newline \<notin> set h3" "\<And>ns. ns \<in> set nss \<Longrightarrow> ns \<noteq> []"
    and "stem = bp_toolOutPath self @ ''/'' @ run_name (bp_miniApp self) (bp_out_suffix self) (bp_nthreads self)"
  shows "CombineBBVsandLDVs repr self w =
    (if length nss \<noteq> length rs then Inl AssertionError
     else if \<not> writable w (vectors_path self) then
       Inr (False, self\<lparr>BP := Some (stem @ ''.bpv.gz''), selectedBP := Some (stem @ ''.barrierpoints''),
           temporalSPfiles := stem @ ''.barrierpoints_'', ins_per_phase := map sum_list nss\<rparr>, w)
     else
       bindE (foldE (count_line repr \<lparr>bbmax = max_id 0 rs, total_reuse = map (\<lambda>r. sum_list (map snd r)) rs, reuse_data = rs\<rparr>
           (map sum_list nss)) (0, []) (map (\<lambda>c. pairs_line c @ [newline]) cs))
         (\<lambda>(i, out). Inr (True, self\<lparr>BP := Some (stem @ ''.bpv.gz''), selectedBP := Some (stem @ ''.barrierpoints''),
           temporalSPfiles := stem @ ''.barrierpoints_'', ins_per_phase := map sum_list nss\<rparr>,
           w\<lparr>files := (files w)(vectors_path self := Some out)\<rparr>)))"
proof -
  have "is_file w cp" "is_file w ip" "is_file w lp"
    using assms(4-6) by (auto simp: open_read_def is_file_def split: if_splits)
  moreover have "lines_after_first (file_text pairs_line h1 cs) = map (\<lambda>c. pairs_line c @ [newline]) cs"
    using assms(7) by (simp add: lines_file_text pairs_line_one_line)
  ultimately show ?thesis
    using assms read_ldv_file [OF assms(9), of rs] read_inscount_file [OF assms(8,10)]
    by (simp add: CombineBBVsandLDVs_def missing_file_def write_vectors_def write_file_def Let_def vectors_path_def)
qed

text \<open>The whole method on the client's files for the same regions.\<close>

lemma combine_run:
  assumes paths: "BBV_count self = Some cp" "BBV_inscount self = Some ip" "LDV_reuse self = Some lp"
    and contents: "open_read w cp = Some (file_text pairs_line h1 cs)"
      "open_read w ip = Some (file_text counts_line h2 nss)"
      "open_read w lp = Some (file_text pairs_line h3 rs)"
    and heads: "newline \<notin> set h1" "newline \<notin> set h2" "newline \<notin> set h3"
    and regions: "length nss = length rs" "length cs \<le> length rs" "\<And>ns. ns \<in> set nss \<Longrightarrow> ns \<noteq> []"
      "\<And>r. r \<in> set rs \<Longrightarrow> r \<noteq> [] \<Longrightarrow> sum_list (map snd r) \<noteq> 0"
    and stem: "stem = bp_toolOutPath self @ ''/'' @ run_name (bp_miniApp self) (bp_out_suffix self) (bp_nthreads self)"
    and perm: "writable w (stem @ ''.bpv.gz'')"
  shows "CombineBBVsandLDVs repr self w =
    Inr (True,
      self\<lparr>BP := Some (stem @ ''.bpv.gz''), selectedBP := Some (stem @ ''.barrierpoints''),
           temporalSPfiles := stem @ ''.barrierpoints_'', ins_per_phase := map sum_list nss\<rparr>,
      w\<lparr>files := (files w)(stem @ ''.bpv.gz'' :=
         Some (concat (map (region_text repr (max_id 0 rs)) (zip (map sum_list nss) (zip rs cs)))))\<rparr>)"
proof -
  have "is_file w cp" "is_file w ip" "is_file w lp"
    using contents by (auto simp: open_read_def is_file_def split: if_splits)
  moreover have "lines_after_first (file_text pairs_line h1 cs) = map (\<lambda>c. pairs_line c @ [newline]) cs"
    using heads by (simp add: lines_file_text pairs_line_one_line)
  ultimately show ?thesis
    using assms read_ldv_file [OF heads(3), of rs] read_inscount_file [OF heads(2), of nss]
      count_lines_write [of "\<lparr>bbmax = max_id 0 rs, total_reuse = map (\<lambda>r. sum_list (map snd r)) rs, reuse_data = rs\<rparr>"
        rs "map sum_list nss" 0 cs repr "[]"]
    by (simp add: CombineBBVsandLDVs_def missing_file_def write_vectors_def write_file_def Let_def)
qed

section \<open>Properties\<close>

text \<open>
  C9: in every vector the ids of basic blocks lie strictly above the ids of the reuse histogram,
  whatever the files contain, as long as the client numbers basic blocks from 1. So the two kinds
  of dimension never collide in the vector SimPoint clusters.
\<close>

theorem vector_ids_disjoint:
  assumes "read_ldv txt = Inr ldv" "reuse \<in> set (reuse_data ldv)" "(rd, c) \<in> set reuse"
    and "\<And>b. b \<in> set (evens d) \<Longrightarrow> 0 < b" "(bb, n) \<in> set (shifted_blocks (bbmax ldv) d)"
  shows "rd < bb"
proof -
  have "rd \<le> bbmax ldv" using read_ldv_inv [OF assms(1)] assms(2,3) by (fastforce simp: ldv_inv_def)
  moreover have "bb \<in> set (map (\<lambda>x. x + bbmax ldv) (evens d))"
    using assms(5) unfolding shifted_blocks_def by (rule set_zip_leftD)
  then have "bbmax ldv < bb" using assms(4) by auto
  ultimately show ?thesis by simp
qed

theorem vector_ids_disjoint_witness:
  "(3 :: int) < 4 \<and> (4, 50) \<in> set (shifted_blocks 3 [1, 50, 2, 7])"
proof -
  have r: "read_ldv (file_text pairs_line ''W'' [[(1, 40), (3, 4)], [(2, 5)]])
      = Inr \<lparr>bbmax = 3, total_reuse = [44, 5], reuse_data = [[(1, 40), (3, 4)], [(2, 5)]]\<rparr>"
    by (subst read_ldv_file) (simp_all add: max_id_def)
  have m: "(4, 50) \<in> set (shifted_blocks 3 [1, 50, 2, 7])" by (simp add: shifted_blocks_def)
  show ?thesis
    using vector_ids_disjoint [OF r, of "[(1, 40), (3, 4)]" 3 4 "[1, 50, 2, 7]" 4 50] m by force
qed

text \<open>
  C8: scaling keeps the ids of the histogram, and when the histogram is not empty the scaled values
  add up to the instructions of the region, up to a relative error of \<open>2 ^ -53\<close>: every region
  weighs its reuse distances by its own instruction count.
\<close>

theorem scaled_reuse_total:
  assumes "scaled_reuse ins (sum_list (map snd reuse)) reuse = Inr rds"
    and "reuse \<noteq> []" "\<And>i c. (i, c) \<in> set reuse \<Longrightarrow> 0 \<le> c" "0 \<le> ins"
  shows "map fst rds = map fst reuse \<and> \<bar>sum_list (map snd rds) - of_int ins\<bar> \<le> of_int ins / 2 ^ 53"
proof -
  let ?tot = "sum_list (map snd reuse)"
  let ?x = "\<lambda>p :: int \<times> int. of_int (snd p * ins) / of_int ?tot :: rat"
  have nz: "?tot \<noteq> 0" and rds: "rds = map (scaled_value ins ?tot) reuse"
    using assms(1,2) by (auto simp: scaled_reuse_eq split: if_splits)
  have "0 \<le> ?tot" using assms(3) by (intro sum_list_nonneg) auto
  then have x: "0 \<le> ?x p" if "p \<in> set reuse" for p
    using assms(3,4) that by (cases p) (auto intro!: divide_nonneg_nonneg mult_nonneg_nonneg)
  have "sum_list (map ?x ps) = of_int (sum_list (map snd ps)) * of_int ins / of_int ?tot" for ps
    by (induction ps) (simp_all add: distrib_right add_divide_distrib)
  then have exact: "sum_list (map ?x reuse) = of_int ins" using nz by simp
  have "\<bar>sum_list (map fl64 (map ?x reuse)) - sum_list (map ?x reuse)\<bar> \<le> sum_list (map ?x reuse) / 2 ^ 53"
    by (rule sum_fl64_error) (use x in auto)
  then have "\<bar>sum_list (map fl64 (map ?x reuse)) - of_int ins\<bar> \<le> of_int ins / 2 ^ 53"
    by (simp only: exact)
  moreover have "map snd rds = map fl64 (map ?x reuse)" by (simp add: rds scaled_value_def)
  moreover have "map fst rds = map fst reuse" by (simp add: rds scaled_value_def)
  ultimately show ?thesis by (simp only: simp_thms)
qed

theorem scaled_reuse_total_witness:
  "\<bar>sum_list (map snd [(1 :: int, 75 :: rat), (3, 25)]) - of_int 100\<bar> \<le> of_int 100 / 2 ^ 53"
proof -
  have "fl64 75 = 75" "fl64 25 = 25" using fl64_int [of 75] fl64_int [of 25] by simp_all
  then have "scaled_reuse 100 (sum_list (map snd [(1, 30), (3, 10)])) [(1, 30), (3, 10)] = Inr [(1, 75), (3, 25)]"
    by (simp add: scaled_reuse_eq scaled_value_def)
  from scaled_reuse_total [OF this] show ?thesis by fastforce
qed

definition sample_run :: "barrier_points" where
  "sample_run = projr (BarrierPoints_init ''mm'' 2 [] ''out'' [] 0 ''bench'' ''dr'')"

text \<open>An object as \<open>__CreateVectors\<close> leaves it, with short file names.\<close>

definition sample_vectors :: "barrier_points" where
  "sample_vectors = sample_run\<lparr>bp_toolOutPath := ''o'', BBV_count := Some ''c'',
     BBV_inscount := Some ''i'', LDV_reuse := Some ''l''\<rparr>"

definition sample_files :: fs where
  "sample_files = fs_of
     [(''c'', file_text pairs_line ''W'' [[(1, 60), (2, 40)], [(2, 80)]]),
      (''i'', file_text counts_line ''0,0'' [[50, 50], [30, 50]]),
      (''l'', file_text pairs_line ''W'' [[(1, 30), (3, 10)], []])]"

lemma sample_vectors_fields [simp]:
  "BBV_count sample_vectors = Some ''c''" "BBV_inscount sample_vectors = Some ''i''"
  "LDV_reuse sample_vectors = Some ''l''" "bp_toolOutPath sample_vectors = ''o''"
  "bp_miniApp sample_vectors = ''mm''" "bp_out_suffix sample_vectors = []" "bp_nthreads sample_vectors = 2"
  by (simp_all add: sample_vectors_def sample_run_def BarrierPoints_init_def GetBenchParams_def)

text \<open>
  C5: on the client's files for the same regions the method returns \<open>True\<close> and writes one vector per
  line of the block counts, each made of its own region's scaled histogram and shifted blocks; it
  records the instructions per region and writes no other file.
\<close>

theorem CombineBBVsandLDVs_writes:
  assumes paths: "BBV_count self = Some cp" "BBV_inscount self = Some ip" "LDV_reuse self = Some lp"
    and contents: "open_read w cp = Some (file_text pairs_line h1 cs)"
      "open_read w ip = Some (file_text counts_line h2 nss)"
      "open_read w lp = Some (file_text pairs_line h3 rs)"
    and heads: "newline \<notin> set h1" "newline \<notin> set h2" "newline \<notin> set h3"
    and regions: "length nss = length rs" "length cs \<le> length rs" "\<And>ns. ns \<in> set nss \<Longrightarrow> ns \<noteq> []"
      "\<And>r. r \<in> set rs \<Longrightarrow> r \<noteq> [] \<Longrightarrow> sum_list (map snd r) \<noteq> 0"
    and stem: "stem = bp_toolOutPath self @ ''/'' @ run_name (bp_miniApp self) (bp_out_suffix self) (bp_nthreads self)"
    and perm: "writable w (stem @ ''.bpv.gz'')"
  shows "\<exists>self' w'. CombineBBVsandLDVs repr self w = Inr (True, self', w')
    \<and> ins_per_phase self' = map sum_list nss \<and> BP self' = Some (stem @ ''.bpv.gz'')
    \<and> files w' (stem @ ''.bpv.gz'')
        = Some (concat (map (region_text repr (max_id 0 rs)) (zip (map sum_list nss) (zip rs cs))))
    \<and> (\<forall>p. p \<noteq> stem @ ''.bpv.gz'' \<longrightarrow> files w' p = files w p)"
  by (subst combine_run [OF assms]) simp_all

theorem CombineBBVsandLDVs_writes_witness:
  "\<exists>self' w'. CombineBBVsandLDVs (\<lambda>q. if q = 75 then ''75.0'' else ''25.0'') sample_vectors sample_files = Inr (True, self', w')
     \<and> ins_per_phase self' = [100, 80]
     \<and> files w' (''o/'' @ run_name ''mm'' [] 2 @ ''.bpv.gz'')
         = Some (''T:1:75.0 :3:25.0 :4:60 :5:40 '' @ [newline] @ ''T:5:80 '' @ [newline])"
proof -
  let ?stem = "''o'' @ ''/'' @ run_name ''mm'' [] 2"
  have n: "str_int 1 = ''1''" "str_int 3 = ''3''" "str_int 4 = ''4''" "str_int 60 = ''60''" "str_int 5 = ''5''"
    "str_int 40 = ''40''" "str_int 80 = ''80''" by code_simp+
  have f: "fl64 75 = 75" "fl64 25 = 25" using fl64_int [of 75] fl64_int [of 25] by simp_all
  have "\<exists>self' w'. CombineBBVsandLDVs (\<lambda>q. if q = 75 then ''75.0'' else ''25.0'') sample_vectors sample_files = Inr (True, self', w')
    \<and> ins_per_phase self' = map sum_list [[50, 50], [30, 50]] \<and> BP self' = Some (?stem @ ''.bpv.gz'')
    \<and> files w' (?stem @ ''.bpv.gz'')
        = Some (concat (map (region_text (\<lambda>q. if q = 75 then ''75.0'' else ''25.0'') (max_id 0 [[(1, 30), (3, 10)], []]))
            (zip (map sum_list [[50, 50], [30, 50]]) (zip [[(1, 30), (3, 10)], []] [[(1, 60), (2, 40)], [(2, 80)]]))))
    \<and> (\<forall>p. p \<noteq> ?stem @ ''.bpv.gz'' \<longrightarrow> files w' p = files sample_files p)"
    by (rule CombineBBVsandLDVs_writes [where ?h1.0 = "''W''" and ?h2.0 = "''0,0''" and ?h3.0 = "''W''"])
      (auto simp: sample_files_def, simp_all add: fs_of_def)
  then show ?thesis
    by (auto simp: max_id_def region_text_def vector_text_def scaled_value_def n f)
qed

text \<open>
  C14: files that disagree on the number of regions. When the instruction counts and the histograms
  differ the method raises \<open>AssertionError\<close>. Block counts for more regions raise \<open>IndexError\<close>; block
  counts for fewer regions are not noticed: the method returns \<open>True\<close> with vectors for the first
  regions only. When one of the three files does not exist it returns \<open>False\<close> and changes nothing.
\<close>

theorem CombineBBVsandLDVs_rejects:
  assumes paths: "BBV_count self = Some cp" "BBV_inscount self = Some ip" "LDV_reuse self = Some lp"
  shows "(\<forall>h1 h2 h3 cs nss rs. open_read w cp = Some (file_text pairs_line h1 cs)
        \<and> open_read w ip = Some (file_text counts_line h2 nss) \<and> open_read w lp = Some (file_text pairs_line h3 rs)
        \<and> newline \<notin> set h1 \<and> newline \<notin> set h2 \<and> newline \<notin> set h3 \<and> [] \<notin> set nss
        \<and> (\<forall>r \<in> set rs. r \<noteq> [] \<longrightarrow> sum_list (map snd r) \<noteq> 0) \<longrightarrow>
          (length nss \<noteq> length rs \<longrightarrow> CombineBBVsandLDVs repr self w = Inl AssertionError)
          \<and> (length nss = length rs \<and> writable w (vectors_path self) \<longrightarrow>
              (length rs < length cs \<longrightarrow> CombineBBVsandLDVs repr self w = Inl IndexError)
              \<and> (length cs < length rs \<longrightarrow> (\<exists>self' w'. CombineBBVsandLDVs repr self w = Inr (True, self', w')
                  \<and> files w' (vectors_path self) = Some (concat (map (region_text repr (max_id 0 rs))
                      (zip (map sum_list (take (length cs) nss)) (zip (take (length cs) rs) cs))))))))
    \<and> (\<not> is_file w cp \<or> \<not> is_file w ip \<or> \<not> is_file w lp
          \<longrightarrow> CombineBBVsandLDVs repr self w = Inr (False, self, w))"
proof (intro conjI allI impI)
  fix h1 h2 h3 cs nss rs
  assume f: "open_read w cp = Some (file_text pairs_line h1 cs)
        \<and> open_read w ip = Some (file_text counts_line h2 nss) \<and> open_read w lp = Some (file_text pairs_line h3 rs)
        \<and> newline \<notin> set h1 \<and> newline \<notin> set h2 \<and> newline \<notin> set h3 \<and> [] \<notin> set nss
        \<and> (\<forall>r \<in> set rs. r \<noteq> [] \<longrightarrow> sum_list (map snd r) \<noteq> 0)"
  then have nss: "ns \<noteq> []" if "ns \<in> set nss" for ns using that by auto
  note run = combine_files [where repr = repr and w = w and cs = cs and rs = rs, OF paths _ _ _ _ _ _ nss refl]
  {
    assume "length nss \<noteq> length rs"
    then show "CombineBBVsandLDVs repr self w = Inl AssertionError" using run f by simp
  next
    assume l: "length nss = length rs \<and> writable w (vectors_path self)" "length rs < length cs"
    then show "CombineBBVsandLDVs repr self w = Inl IndexError"
      using run f count_lines_too_many [of "\<lparr>bbmax = max_id 0 rs, total_reuse = map (\<lambda>r. sum_list (map snd r)) rs, reuse_data = rs\<rparr>"
        rs "map sum_list nss" cs repr] by simp
  next
    assume l: "length nss = length rs \<and> writable w (vectors_path self)" "length cs < length rs"
    have "zip (map sum_list (take (length cs) nss)) (zip (take (length cs) rs) cs) = zip (map sum_list nss) (zip rs cs)"
      using l by (intro nth_equalityI) auto
    then show "\<exists>self' w'. CombineBBVsandLDVs repr self w = Inr (True, self', w')
        \<and> files w' (vectors_path self) = Some (concat (map (region_text repr (max_id 0 rs))
            (zip (map sum_list (take (length cs) nss)) (zip (take (length cs) rs) cs))))"
      using l run f count_lines_write [of "\<lparr>bbmax = max_id 0 rs, total_reuse = map (\<lambda>r. sum_list (map snd r)) rs, reuse_data = rs\<rparr>"
        rs "map sum_list nss" 0 cs repr "[]"] by simp
  }
next
  assume "\<not> is_file w cp \<or> \<not> is_file w ip \<or> \<not> is_file w lp"
  then show "CombineBBVsandLDVs repr self w = Inr (False, self, w)"
    using assms by (auto simp: CombineBBVsandLDVs_def missing_file_def Let_def)
qed

text \<open>Two regions in the counts and one histogram; and two regions with the blocks of one.\<close>

theorem CombineBBVsandLDVs_rejects_witness:
  "CombineBBVsandLDVs (\<lambda>_. []) sample_vectors
     (fs_of [(''c'', file_text pairs_line ''W'' [[(1, 2)]]), (''i'', file_text counts_line ''0,0'' [[50, 50], [30, 50]]),
       (''l'', file_text pairs_line ''W'' [[(1, 30)]])])
     = Inl AssertionError
   \<and> (\<exists>self' w'. CombineBBVsandLDVs (\<lambda>_. []) sample_vectors
       (fs_of [(''c'', file_text pairs_line ''W'' [[(1, 2)]]), (''i'', file_text counts_line ''0,0'' [[50, 50], [30, 50]]),
         (''l'', file_text pairs_line ''W'' [[], [(1, 30)]])])
       = Inr (True, self', w') \<and> files w' (vectors_path sample_vectors) = Some (''T:2:2 '' @ [newline]))"
proof -
  have n: "str_int 2 = ''2''" by code_simp
  have t: "region_text (\<lambda>_. []) (max_id 0 [[], [(1, 30)]]) (100, [], [(1, 2)]) = ''T:2:2 '' @ [newline]"
    by (simp add: region_text_def vector_text_def max_id_def n)
  have wr: "writable (fs_of ps) p" for ps p by (simp add: fs_of_def)
  note th = CombineBBVsandLDVs_rejects [OF sample_vectors_fields(1-3), THEN conjunct1, rule_format]
  show ?thesis
    using th [of "fs_of [(''c'', file_text pairs_line ''W'' [[(1, 2)]]), (''i'', file_text counts_line ''0,0'' [[50, 50], [30, 50]]),
        (''l'', file_text pairs_line ''W'' [[(1, 30)]])]" "''W''" "[[(1, 2)]]" "''0,0''" "[[50, 50], [30, 50]]" "''W''" "[[(1, 30)]]" "\<lambda>_. []"]
      th [of "fs_of [(''c'', file_text pairs_line ''W'' [[(1, 2)]]), (''i'', file_text counts_line ''0,0'' [[50, 50], [30, 50]]),
        (''l'', file_text pairs_line ''W'' [[], [(1, 30)]])]" "''W''" "[[(1, 2)]]" "''0,0''" "[[50, 50], [30, 50]]" "''W''" "[[], [(1, 30)]]" "\<lambda>_. []"] t wr
    by simp
qed

end
