(* ===== verification/Bp_Cluster.thy ===== *)
theory Bp_Cluster
  imports Bp_Vectors
begin

text \<open>
  \<open>BarrierPoints.__ClusterBarrierPoints\<close> of \<open>DrAnalysis.py\<close>: every region is mapped to the
  simpoint of its cluster, for every simpoint an earlier region of the same cluster is chosen in
  two ways (the closest one and the earliest one), and the map is rewritten to each choice.

  The locale \<open>region_choice\<close> is the contract of such a choice; it is interpreted on the two that
  the code makes.
\<close>

section \<open>The map from regions to simpoints\<close>

definition py_max :: "'a::linorder list \<Rightarrow> 'a res" where
  "py_max xs = (if xs = [] then Inl ValueError else Inr (Max (set xs)))"

text \<open>\<open>id2index\<close>: the position of each cluster id, \<open>None\<close> where there is none.\<close>

definition id2index :: "int list \<Rightarrow> nat option list res" where
  "id2index ids =
     bindE (py_max ids) (\<lambda>m.
       foldE (\<lambda>t (i, d). set_item t d (Some i)) (replicate (nat (m + 1)) None) (List.enumerate 0 ids))"

definition simpoint_bb_map :: "nat option list \<Rightarrow> int list \<Rightarrow> int list \<Rightarrow> int list res" where
  "simpoint_bb_map idx sps labels =
     mapE (\<lambda>l. bindE (get_item idx l) (\<lambda>k.
       case k of None \<Rightarrow> Inl TypeError | Some k \<Rightarrow> get_item sps (int k))) labels"

section \<open>Earlier regions of a cluster\<close>

definition cluster_of :: "int list \<Rightarrow> int \<Rightarrow> nat list" where
  "cluster_of m sp = map fst (filter (\<lambda>(j, jj). jj = sp) (List.enumerate 0 m))"

definition tolerance :: "rat \<Rightarrow> rat \<Rightarrow> rat" where
  "tolerance match_sp max_distance = fadd match_sp (fmul max_distance (fl64 (5 / 100)))"

text \<open>The list \<open>closer\<close>: the regions of the cluster up to \<open>sp\<close> whose distance is within tolerance.\<close>

definition closer :: "rat list \<Rightarrow> int list \<Rightarrow> int \<Rightarrow> (nat \<times> rat) list res" where
  "closer match m sp =
     (let cluster = cluster_of m sp in
      bindE (mapE (\<lambda>x. get_item match (int x)) cluster) (\<lambda>distanc.
      bindE (get_item match sp) (\<lambda>msp.
      bindE (py_max distanc) (\<lambda>mx.
        let maxD_05 = tolerance msp mx in
        Inr (filter (\<lambda>(jj, d). d \<le> maxD_05 \<and> int jj \<le> sp) (zip cluster distanc))))))"

text \<open>\<open>functools.reduce(lambda x, y: x if x[1] < y[1] else y, closer)[0]\<close>.\<close>

definition pick_closest :: "(nat \<times> rat) list \<Rightarrow> int res" where
  "pick_closest cs =
     (case cs of [] \<Rightarrow> Inl TypeError
      | c # cs' \<Rightarrow> Inr (int (fst (foldl (\<lambda>x y. if snd x < snd y then x else y) c cs'))))"

text \<open>\<open>closer[0][0]\<close>.\<close>

definition pick_earliest :: "(nat \<times> rat) list \<Rightarrow> int res" where
  "pick_earliest cs = (case cs of [] \<Rightarrow> Inl IndexError | c # _ \<Rightarrow> Inr (int (fst c)))"

definition earlier_bps :: "rat list \<Rightarrow> int list \<Rightarrow> int \<Rightarrow> (int \<times> int) res" where
  "earlier_bps match m sp =
     bindE (closer match m sp) (\<lambda>cs.
     bindE (pick_closest cs) (\<lambda>ec.
     bindE (pick_earliest cs) (\<lambda>ee. Inr (ec, ee))))"

text \<open>The loops that rewrite a copy of the map in place, one pair of simpoint and choice at a time.\<close>

fun remap :: "(int \<times> int) list \<Rightarrow> int list \<Rightarrow> int list" where
  "remap [] m = m"
| "remap ((s1, s2) # ps) m =
     remap ps (if s1 = s2 then m else map (\<lambda>x. if x = s1 then s2 else x) m)"

definition ClusterBarrierPoints ::
    "(string \<Rightarrow> fs \<Rightarrow> int \<times> fs) \<Rightarrow> barrier_points \<Rightarrow> fs \<Rightarrow> (bool \<times> barrier_points \<times> fs) res" where
  "ClusterBarrierPoints bash self w =
     bindE (SimPoints_init bash (format_opt (BP self)) (FixedStr ''off'') False 20 15 (temporalSPfiles self) w)
       (\<lambda>(sim, w').
     let d = getSimPointData sim in
     bindE (key (sp_id d)) (\<lambda>ids.
     bindE (id2index ids) (\<lambda>idx.
     bindE (key (sp_labels d)) (\<lambda>labels.
     bindE (key (sp_simpoints d)) (\<lambda>sps.
     bindE (simpoint_bb_map idx sps labels) (\<lambda>m.
     bindE (key (sp_match d)) (\<lambda>match.
     bindE (mapE (earlier_bps match m) sps) (\<lambda>earlier.
       let ecs = map fst earlier; ees = map snd earlier in
       Inr (True,
            self\<lparr>bp_SPData := d, simpointsEC := ecs, simpointsEE := ees,
                 SimPointBBMap := m,
                 SimPointBBMap_EC := remap (zip sps ecs) m,
                 SimPointBBMap_EE := remap (zip sps ees) m\<rparr>,
            w')))))))))"

section \<open>Representation maps\<close>

text \<open>
  The abstract content of a region map: \<open>m\<close> sends every region to one of the representatives
  \<open>reps\<close>, and every representative to itself.
\<close>

definition rep_map :: "int list \<Rightarrow> int list \<Rightarrow> bool" where
  "rep_map reps m =
     (distinct reps \<and> set m \<subseteq> set reps
      \<and> (\<forall>r \<in> set reps. 0 \<le> r \<and> r < int (length m) \<and> m ! nat r = r))"

text \<open>
  What SimPoint guarantees with full coverage: distinct non-negative cluster ids with one simpoint
  each, a simpoint that is a region of its own cluster, a label that is an id and a distance for
  every region.
\<close>

definition sp_wf :: "int list \<Rightarrow> int list \<Rightarrow> int list \<Rightarrow> rat list \<Rightarrow> bool" where
  "sp_wf ids sps labels match =
     (ids \<noteq> [] \<and> distinct ids \<and> (\<forall>d \<in> set ids. 0 \<le> d) \<and> length sps = length ids
      \<and> set labels \<subseteq> set ids \<and> length match = length labels
      \<and> (\<forall>k < length ids. 0 \<le> sps ! k \<and> sps ! k < int (length labels) \<and> labels ! nat (sps ! k) = ids ! k)
      \<and> (\<forall>x \<in> set match. 0 \<le> x \<and> is_float x))"

lemma id2index_fold:
  assumes "distinct ids" "\<And>d. d \<in> set ids \<Longrightarrow> 0 \<le> d \<and> d < int (length t)"
  shows "\<exists>t'. foldE (\<lambda>t (i, d). set_item t d (Some i)) t (List.enumerate n ids) = Inr t'
    \<and> length t' = length t \<and> (\<forall>k < length ids. t' ! nat (ids ! k) = Some (n + k))
    \<and> (\<forall>j. j < length t \<and> int j \<notin> set ids \<longrightarrow> t' ! j = t ! j)"
  using assms
proof (induction ids arbitrary: t n)
  case Nil
  then show ?case by simp
next
  case (Cons d ds)
  let ?t = "t[nat d := Some n]"
  have "\<exists>t'. foldE (\<lambda>t (i, d). set_item t d (Some i)) ?t (List.enumerate (Suc n) ds) = Inr t'
    \<and> length t' = length ?t \<and> (\<forall>k < length ds. t' ! nat (ds ! k) = Some (Suc n + k))
    \<and> (\<forall>j. j < length ?t \<and> int j \<notin> set ds \<longrightarrow> t' ! j = ?t ! j)"
    by (rule Cons.IH) (use Cons.prems in auto)
  then obtain t' where t': "foldE (\<lambda>t (i, d). set_item t d (Some i)) ?t (List.enumerate (Suc n) ds) = Inr t'"
    "length t' = length t" "\<And>k. k < length ds \<Longrightarrow> t' ! nat (ds ! k) = Some (Suc n + k)"
    "\<And>j. j < length t \<Longrightarrow> int j \<notin> set ds \<Longrightarrow> t' ! j = ?t ! j"
    by auto
  have d: "0 \<le> d" "d < int (length t)" using Cons.prems by auto
  have "t' ! nat ((d # ds) ! k) = Some (n + k)" if "k < length (d # ds)" for k
    using that t'(3) t'(4) [of "nat d"] d Cons.prems(1) by (cases k) auto
  moreover have "t' ! j = t ! j" if "j < length t" "int j \<notin> set (d # ds)" for j
    using t'(4) [of j] that d by (cases "j = nat d") auto
  ultimately show ?case using t'(1,2) d by (auto simp: set_item_in)
qed

lemma id2index_returns:
  assumes "ids \<noteq> []" "distinct ids" "\<And>d. d \<in> set ids \<Longrightarrow> 0 \<le> d"
  shows "\<exists>t. id2index ids = Inr t \<and> (\<forall>k < length ids. get_item t (ids ! k) = Inr (Some k))"
proof -
  let ?t = "replicate (nat (Max (set ids) + 1)) None :: nat option list"
  have r: "0 \<le> d \<and> d < int (length ?t)" if "d \<in> set ids" for d
  proof -
    have "0 \<le> d" "d \<le> Max (set ids)" using assms(3) that by auto
    then show ?thesis by simp
  qed
  obtain t where "foldE (\<lambda>t (i, d). set_item t d (Some i)) ?t (List.enumerate 0 ids) = Inr t"
    "length t = length ?t" "\<forall>k < length ids. t ! nat (ids ! k) = Some (0 + k)"
    using id2index_fold [of ids ?t 0] assms(2) r by blast
  moreover have "get_item t (ids ! k) = Inr (t ! nat (ids ! k))" if "k < length ids" for k
    using r [of "ids ! k"] that \<open>length t = length ?t\<close> by (intro get_item_in) simp_all
  ultimately show ?thesis using assms(1) by (simp add: id2index_def py_max_def)
qed

lemma sp_wf_rep:
  assumes "sp_wf ids sps labels match"
  shows "\<exists>idx m. id2index ids = Inr idx \<and> simpoint_bb_map idx sps labels = Inr m
    \<and> length m = length labels \<and> rep_map sps m
    \<and> (\<forall>j < length labels. \<forall>k < length ids. labels ! j = ids ! k \<longrightarrow> m ! j = sps ! k)"
proof -
  obtain idx where idx: "id2index ids = Inr idx"
    "\<And>k. k < length ids \<Longrightarrow> get_item idx (ids ! k) = Inr (Some k)"
    using id2index_returns [of ids] assms by (auto simp: sp_wf_def)
  define pos where "pos l = (SOME k. k < length ids \<and> ids ! k = l)" for l
  have pos: "pos l < length ids" "ids ! pos l = l" if "l \<in> set ids" for l
    using someI_ex [of "\<lambda>k. k < length ids \<and> ids ! k = l"] that by (auto simp: pos_def in_set_conv_nth)
  have pos_ids: "pos (ids ! k) = k" if "k < length ids" for k
    using pos [of "ids ! k"] that assms by (simp add: sp_wf_def nth_eq_iff_index_eq)
  let ?m = "map (\<lambda>l. sps ! pos l) labels"
  have m: "simpoint_bb_map idx sps labels = Inr ?m"
    unfolding simpoint_bb_map_def
  proof (rule mapE_returns)
    fix l
    assume "l \<in> set labels"
    then have "l \<in> set ids" using assms by (auto simp: sp_wf_def)
    then have "get_item idx l = Inr (Some (pos l))" "pos l < length sps"
      using idx(2) [of "pos l"] pos assms by (auto simp: sp_wf_def)
    then show "bindE (get_item idx l) (\<lambda>k. case k of None \<Rightarrow> Inl TypeError | Some k \<Rightarrow> get_item sps (int k))
        = Inr (sps ! pos l)"
      by (simp add: get_item_nat)
  qed
  have dist: "distinct sps"
    unfolding distinct_conv_nth
  proof (intro allI impI)
    fix i j
    assume "i < length sps" "j < length sps" "i \<noteq> j"
    then have "labels ! nat (sps ! i) = ids ! i" "labels ! nat (sps ! j) = ids ! j" "ids ! i \<noteq> ids ! j"
      using assms by (auto simp: sp_wf_def nth_eq_iff_index_eq)
    then show "sps ! i \<noteq> sps ! j" by auto
  qed
  have reps: "0 \<le> r \<and> r < int (length ?m) \<and> ?m ! nat r = r" if "r \<in> set sps" for r
  proof -
    obtain k where k: "k < length ids" "r = sps ! k"
      using \<open>r \<in> set sps\<close> assms by (auto simp: in_set_conv_nth sp_wf_def)
    then have "0 \<le> r" "r < int (length labels)" "labels ! nat r = ids ! k"
      using assms by (auto simp: sp_wf_def)
    then show ?thesis using k pos_ids by (simp add: nat_less_iff)
  qed
  have "set ?m \<subseteq> set sps" using pos assms by (force simp: sp_wf_def)
  then have "rep_map sps ?m" using dist reps by (simp add: rep_map_def)
  moreover have "?m ! j = sps ! k" if "j < length labels" "k < length ids" "labels ! j = ids ! k" for j k
    using that pos_ids by simp
  ultimately show ?thesis using idx(1) m by auto
qed

section \<open>Choosing an earlier region\<close>

text \<open>The candidates of a simpoint: its cluster's regions up to itself, within tolerance.\<close>

definition cluster_tolerance :: "rat list \<Rightarrow> int list \<Rightarrow> int \<Rightarrow> rat" where
  "cluster_tolerance match m sp =
     tolerance (match ! nat sp) (Max (set (map (\<lambda>j. match ! j) (cluster_of m sp))))"

definition candidates :: "rat list \<Rightarrow> int list \<Rightarrow> int \<Rightarrow> nat list" where
  "candidates match m sp =
     filter (\<lambda>j. m ! j = sp \<and> match ! j \<le> cluster_tolerance match m sp \<and> int j \<le> sp) [0..<length m]"

lemma cluster_of_eq: "cluster_of m sp = filter (\<lambda>j. m ! j = sp) [0..<length m]"
proof -
  have "filter (\<lambda>(j, jj). jj = sp) (map (\<lambda>j. (j, m ! j)) js) = map (\<lambda>j. (j, m ! j)) (filter (\<lambda>j. m ! j = sp) js)" for js
    by (induction js) auto
  moreover have "List.enumerate 0 m = map (\<lambda>j. (j, m ! j)) [0..<length m]"
    by (rule nth_equalityI) (simp_all add: nth_enumerate_eq)
  ultimately show ?thesis by (simp add: cluster_of_def comp_def)
qed

lemma filter_zip_map:
  "filter (\<lambda>(j, d). P j d) (zip js (map f js)) = map (\<lambda>j. (j, f j)) (filter (\<lambda>j. P j (f j)) js)"
  by (induction js) auto

lemma closer_eq:
  assumes "length match = length m" "0 \<le> sp" "sp < int (length m)" "m ! nat sp = sp"
  shows "closer match m sp = Inr (map (\<lambda>j. (j, match ! j)) (candidates match m sp))"
proof -
  let ?c = "cluster_of m sp"
  have "nat sp \<in> set ?c" using assms by (auto simp: cluster_of_eq nat_less_iff)
  then have ne: "?c \<noteq> []" by auto
  have "mapE (\<lambda>x. get_item match (int x)) ?c = Inr (map (\<lambda>j. match ! j) ?c)"
    using assms(1) by (intro mapE_returns) (simp add: cluster_of_eq get_item_nat)
  then show ?thesis
    using ne assms
    by (simp add: closer_def get_item_in py_max_def cluster_tolerance_def candidates_def Let_def
        filter_zip_map cluster_of_eq conj_commute conj_left_commute)
qed

text \<open>The simpoint itself is a candidate, because rounding is monotone and its distance is a float.\<close>

lemma simpoint_candidate:
  assumes "length match = length m" "0 \<le> sp" "sp < int (length m)" "m ! nat sp = sp"
    and "\<And>x. x \<in> set match \<Longrightarrow> 0 \<le> x \<and> is_float x"
  shows "nat sp \<in> set (candidates match m sp)"
proof -
  let ?mx = "Max (set (map (\<lambda>j. match ! j) (cluster_of m sp)))" and ?d = "match ! nat sp"
  have sp: "nat sp < length m" using assms(2,3) by (simp add: nat_less_iff)
  then have d: "0 \<le> ?d" "fl64 ?d = ?d" using assms(1,5) by (simp_all add: is_float_def)
  have "?d \<in> set (map (\<lambda>j. match ! j) (cluster_of m sp))"
    using sp assms(4) by (simp add: cluster_of_eq)
  then have "?d \<le> ?mx" by simp
  then have "0 \<le> fmul ?mx (fl64 (5 / 100))"
    using d(1) by (auto simp: fmul_def intro!: fl64_nonneg mult_nonneg_nonneg)
  then have "fl64 ?d \<le> fl64 (?d + fmul ?mx (fl64 (5 / 100)))" by (intro fl64_mono) simp
  then have "?d \<le> cluster_tolerance match m sp"
    using d(2) by (simp add: cluster_tolerance_def tolerance_def fadd_def)
  then show ?thesis using sp assms by (simp add: candidates_def)
qed


lemma remap_eq:
  "remap ps m = map (\<lambda>x. foldl (\<lambda>x (s1, s2). if x = s1 then s2 else x) x ps) m"
  by (induction ps m rule: remap.induct) auto

lemma rename_stays:
  "x \<notin> fst ` set ps \<Longrightarrow> foldl (\<lambda>x (s1, s2). if x = s1 then s2 else x) x ps = x"
  by (induction ps) auto

lemma rename_one:
  assumes "distinct (map fst ps)" "(s, r) \<in> set ps" "r \<notin> fst ` set ps \<or> r = s"
  shows "foldl (\<lambda>x (s1, s2). if x = s1 then s2 else x) s ps = r"
  using assms
proof (induction ps)
  case (Cons p ps)
  obtain s1 s2 where p: "p = (s1, s2)" by fastforce
  show ?case
  proof (cases "s = s1")
    case True
    then have r: "r = s2" using Cons.prems(1,2) by (force simp: p)
    then have "r \<notin> fst ` set ps" using Cons.prems(1,3) True by (auto simp: p)
    then show ?thesis using True r by (simp add: p rename_stays)
  next
    case False
    then show ?thesis using Cons by (auto simp: p)
  qed
qed simp

lemma remap_own_cluster:
  assumes "rep_map sps m"
    and es: "list_all2 (\<lambda>sp e. 0 \<le> e \<and> nat e < length m \<and> m ! nat e = sp) sps es"
  shows "length (remap (zip sps es) m) = length m
    \<and> (\<forall>j < length m. \<forall>k < length sps. m ! j = sps ! k \<longrightarrow> remap (zip sps es) m ! j = es ! k)
    \<and> rep_map es (remap (zip sps es) m)"
proof -
  let ?n = "remap (zip sps es) m"
  have len: "length es = length sps" using es by (simp add: list_all2_lengthD)
  have bounds: "0 \<le> es ! k" "nat (es ! k) < length m" "m ! nat (es ! k) = sps ! k" if "k < length sps" for k
    using list_all2_nthD [OF es that] by blast+
  have reps: "distinct sps" "set m \<subseteq> set sps" "\<And>r. r \<in> set sps \<Longrightarrow> 0 \<le> r \<and> m ! nat r = r"
    using assms(1) by (auto simp: rep_map_def)
  have fst: "map fst (zip sps es) = sps" using len by simp
  have ren: "foldl (\<lambda>x (s1, s2). if x = s1 then s2 else x) (sps ! k) (zip sps es) = es ! k"
    if k: "k < length sps" for k
  proof (rule rename_one)
    show "distinct (map fst (zip sps es))" using fst reps(1) by simp
    show "(sps ! k, es ! k) \<in> set (zip sps es)" using k len by (auto simp: set_zip)
    have "es ! k = sps ! k" if "es ! k \<in> set sps"
      using reps(3) [OF that] bounds [OF k] by simp
    moreover have "fst ` set (zip sps es) = set sps" using fst by (metis set_map)
    ultimately show "es ! k \<notin> fst ` set (zip sps es) \<or> es ! k = sps ! k" by auto
  qed
  have n: "?n ! j = es ! k" if "j < length m" "k < length sps" "m ! j = sps ! k" for j k
    using that ren by (simp add: remap_eq)
  have "distinct es"
    unfolding distinct_conv_nth
  proof (intro allI impI)
    fix i j
    assume "i < length es" "j < length es" "i \<noteq> j"
    then have "m ! nat (es ! i) = sps ! i" "m ! nat (es ! j) = sps ! j" "sps ! i \<noteq> sps ! j"
      using bounds reps(1) len by (auto simp: nth_eq_iff_index_eq)
    then show "es ! i \<noteq> es ! j" by auto
  qed
  moreover have "set ?n \<subseteq> set es"
  proof
    fix x
    assume "x \<in> set ?n"
    then obtain j where j: "j < length m" "x = ?n ! j" by (auto simp: in_set_conv_nth remap_eq)
    then have "m ! j \<in> set sps" using reps(2) by auto
    then obtain k where "k < length sps" "m ! j = sps ! k" by (auto simp: in_set_conv_nth)
    then show "x \<in> set es" using n [of j k] j len by simp
  qed
  moreover have "0 \<le> r \<and> r < int (length ?n) \<and> ?n ! nat r = r" if "r \<in> set es" for r
  proof -
    obtain k where k: "k < length sps" "r = es ! k"
      using \<open>r \<in> set es\<close> len by (auto simp: in_set_conv_nth)
    then show ?thesis using bounds [of k] n [of "nat r" k] by (simp add: remap_eq)
  qed
  moreover have "length ?n = length m" by (simp add: remap_eq)
  ultimately show ?thesis using n by (simp add: rep_map_def)
qed

text \<open>
  The contract of a choice: it returns a candidate whenever there is one. Then every choice is a
  region of the simpoint's own cluster that is not later than the simpoint, and rewriting the map
  one simpoint at a time is the same as replacing every simpoint by its choice at once.
\<close>

locale region_choice =
  fixes pick :: "(nat \<times> rat) list \<Rightarrow> int res"
  assumes pick_member: "cs \<noteq> [] \<Longrightarrow> \<exists>c \<in> set cs. pick cs = Inr (int (fst c))"
begin

lemma choice_returns:
  assumes "length match = length m" "0 \<le> sp" "sp < int (length m)" "m ! nat sp = sp"
    and "\<And>x. x \<in> set match \<Longrightarrow> 0 \<le> x \<and> is_float x"
  shows "\<exists>j \<in> set (candidates match m sp). bindE (closer match m sp) pick = Inr (int j)"
proof -
  have "candidates match m sp \<noteq> []" using simpoint_candidate [OF assms] by auto
  then have "map (\<lambda>j. (j, match ! j)) (candidates match m sp) \<noteq> []" by simp
  from pick_member [OF this] show ?thesis using assms by (auto simp: closer_eq)
qed

lemma candidate_bounds:
  assumes "j \<in> set (candidates match m sp)"
  shows "j < length m" "m ! j = sp" "int j \<le> sp"
  using assms by (auto simp: candidates_def)

lemma choices_return:
  assumes "rep_map sps m" "length match = length m" "\<And>x. x \<in> set match \<Longrightarrow> 0 \<le> x \<and> is_float x"
  shows "\<exists>es. mapE (\<lambda>sp. bindE (closer match m sp) pick) sps = Inr es
    \<and> list_all2 (\<lambda>sp e. 0 \<le> e \<and> e \<le> sp \<and> nat e \<in> set (candidates match m sp)) sps es"
proof -
  define e where "e sp = projr (bindE (closer match m sp) pick)" for sp
  have e: "bindE (closer match m sp) pick = Inr (e sp)
      \<and> 0 \<le> e sp \<and> e sp \<le> sp \<and> nat (e sp) \<in> set (candidates match m sp)" if "sp \<in> set sps" for sp
  proof -
    obtain j where "j \<in> set (candidates match m sp)" "bindE (closer match m sp) pick = Inr (int j)"
      using choice_returns [of match m sp] assms \<open>sp \<in> set sps\<close> by (auto simp: rep_map_def)
    then show ?thesis using candidate_bounds(3) by (simp add: e_def)
  qed
  then have "mapE (\<lambda>sp. bindE (closer match m sp) pick) sps = Inr (map e sps)"
    by (intro mapE_returns) simp
  moreover have "list_all2 (\<lambda>sp e. 0 \<le> e \<and> e \<le> sp \<and> nat e \<in> set (candidates match m sp)) sps (map e sps)"
    using e by (simp add: list.rel_map list_all2_same)
  ultimately show ?thesis by blast
qed

lemma remap_choices:
  assumes "rep_map sps m"
    and "list_all2 (\<lambda>sp e. 0 \<le> e \<and> e \<le> sp \<and> nat e \<in> set (candidates match m sp)) sps es"
  shows "length (remap (zip sps es) m) = length m
    \<and> (\<forall>j < length m. \<forall>k < length sps. m ! j = sps ! k \<longrightarrow> remap (zip sps es) m ! j = es ! k)
    \<and> rep_map es (remap (zip sps es) m)"
proof (rule remap_own_cluster [OF assms(1)])
  show "list_all2 (\<lambda>sp e. 0 \<le> e \<and> nat e < length m \<and> m ! nat e = sp) sps es"
    using assms(2) by (rule list_all2_mono) (use candidate_bounds in blast)
qed

end

section \<open>The two choices\<close>

lemma foldl_closest:
  fixes f :: "'a \<times> rat \<Rightarrow> 'a \<times> rat \<Rightarrow> 'a \<times> rat"
  assumes "f = (\<lambda>x y. if snd x < snd y then x else y)"
  shows "\<exists>pre post. c # cs = pre @ foldl f c cs # post \<and> (\<forall>x \<in> set pre. snd (foldl f c cs) \<le> snd x)
    \<and> (\<forall>x \<in> set post. snd (foldl f c cs) < snd x)"
proof (induction cs arbitrary: c)
  case Nil
  show ?case by (intro exI [of _ "[]"]) simp
next
  case (Cons d cs)
  let ?r = "foldl f (f c d) cs"
  obtain pre post where IH: "f c d # cs = pre @ ?r # post" "\<forall>x \<in> set pre. snd ?r \<le> snd x"
    "\<forall>x \<in> set post. snd ?r < snd x"
    using Cons.IH by blast
  show ?case
  proof (cases "snd c < snd d")
    case True
    then have fc: "f c d = c" by (simp add: assms)
    show ?thesis
    proof (cases pre)
      case Nil
      then have "c = ?r" "cs = post" using IH(1) fc by auto
      then have "c # d # cs = [] @ ?r # d # post" "\<forall>x \<in> set (d # post). snd ?r < snd x"
        using IH(3) True by auto
      then show ?thesis by (metis empty_iff foldl_Cons list.set(1))
    next
      case (Cons a pre')
      then have "a = c" "cs = pre' @ ?r # post" using IH(1) fc by auto
      then have "c # d # cs = (c # d # pre') @ ?r # post" "\<forall>x \<in> set (c # d # pre'). snd ?r \<le> snd x"
        using IH(2) True Cons by auto
      then show ?thesis using IH(3) by (metis foldl_Cons)
    qed
  next
    case False
    then have fd: "f c d = d" by (simp add: assms)
    have "snd ?r \<le> snd d" using IH fd by (cases pre) auto
    then have "c # d # cs = (c # pre) @ ?r # post" "\<forall>x \<in> set (c # pre). snd ?r \<le> snd x"
      using IH(1,2) fd False by auto
    then show ?thesis using IH(3) by (metis foldl_Cons)
  qed
qed

interpretation ec: region_choice pick_closest
proof
  fix cs :: "(nat \<times> rat) list"
  assume "cs \<noteq> []"
  then obtain c cs' where cs: "cs = c # cs'" by (cases cs) auto
  let ?r = "foldl (\<lambda>x y. if snd x < snd y then x else y) c cs'"
  have "\<exists>pre post. c # cs' = pre @ ?r # post" using foldl_closest [OF refl, of c cs'] by blast
  then have "?r \<in> set cs" unfolding cs by (rule in_set_conv_decomp [THEN iffD2])
  then show "\<exists>c \<in> set cs. pick_closest cs = Inr (int (fst c))" by (auto simp: pick_closest_def cs)
qed

interpretation ee: region_choice pick_earliest
  by unfold_locales (auto simp: pick_earliest_def split: list.split)


lemma earlier_bps_pairs:
  assumes "mapE (\<lambda>sp. bindE (closer match m sp) pick_closest) sps = Inr ecs"
    and "mapE (\<lambda>sp. bindE (closer match m sp) pick_earliest) sps = Inr ees"
  shows "mapE (earlier_bps match m) sps = Inr (zip ecs ees)"
  using assms
  by (induction sps arbitrary: ecs ees) (auto simp: bindE_eq_Inr earlier_bps_def)

text \<open>The runs of the tool that end with 0 and leave some of its files out.\<close>

lemma no_weights_ValueError:
  assumes run: "SimPoints_init bash (format_opt (BP self)) (FixedStr ''off'') False 20 15 (temporalSPfiles self) w
      = (if rc \<noteq> 0 then Inr (sim, w') else bindE (AnalysisSimPoints sim w') (\<lambda>(ok, s, w''). Inr (s, w'')))"
    and "rc = 0" "open_read w' (tWeights sim) = None"
  shows "ClusterBarrierPoints bash self w = Inl ValueError"
  using assms(2,3)
  by (simp add: ClusterBarrierPoints_def run getSimPointData_def id2index_def py_max_def AnalysisSimPoints_def Let_def)

lemma no_simpoints_KeyError:
  assumes run: "SimPoints_init bash (format_opt (BP self)) (FixedStr ''off'') False 20 15 (temporalSPfiles self) w
      = (if rc \<noteq> 0 then Inr (sim, w') else bindE (AnalysisSimPoints sim w') (\<lambda>(ok, s, w''). Inr (s, w'')))"
    and "SPData sim = empty_sp_data" "rc = 0" "open_read w' (tWeights sim) = Some (weights_text ws)"
    and "ws \<noteq> []" "distinct (map snd ws)" "\<forall>(x, d) \<in> set ws. decimal x \<and> 0 \<le> d"
    and "open_read w' (tSimPoints sim) = None"
  shows "ClusterBarrierPoints bash self w = Inl KeyError"
proof -
  have "foldE weight_line ([], []) (file_lines (weights_text ws)) = Inr (map snd ws, map (decimal_value \<circ> fst) ws)"
    using weight_lines_read [of ws "[]" "[]"] assms(7) by auto
  moreover have "0 \<le> d" if "d \<in> set (map snd ws)" for d using that assms(7) by auto
  then obtain t where "id2index (map snd ws) = Inr t"
    using id2index_returns [of "map snd ws"] assms(5,6) by auto
  ultimately show ?thesis
    using assms(2-4,8)
    by (simp add: ClusterBarrierPoints_def run getSimPointData_def AnalysisSimPoints_def read_simpoints_def
        empty_sp_data_def Let_def)
qed

lemma no_labels_IndexError:
  assumes run: "SimPoints_init bash (format_opt (BP self)) (FixedStr ''off'') False 20 15 (temporalSPfiles self) w
      = (if rc \<noteq> 0 then Inr (sim, w') else bindE (AnalysisSimPoints sim w') (\<lambda>(ok, s, w''). Inr (s, w'')))"
    and "SPData sim = empty_sp_data" "rc = 0" "open_read w' (tWeights sim) = Some (weights_text ws)"
    and "ws \<noteq> []" "distinct (map snd ws)" "\<forall>(x, d) \<in> set ws. decimal x \<and> 0 \<le> d"
    and "open_read w' (tSimPoints sim) = Some (simpoints_text (zip sps (map snd ws)))" "length sps = length ws"
    and "open_read w' (tLabels sim) = None"
  shows "ClusterBarrierPoints bash self w = Inl IndexError"
proof -
  have w: "foldE weight_line ([], []) (file_lines (weights_text ws)) = Inr (map snd ws, map (decimal_value \<circ> fst) ws)"
    using weight_lines_read [of ws "[]" "[]"] assms(7) by auto
  have s: "simpoint_lines (map snd ws) 0 [] (file_lines (simpoints_text (zip sps (map snd ws)))) = Inr (True, sps)"
    using simpoint_lines_read [of "zip sps (map snd ws)" 0 "map snd ws" "[]" "[]"] assms(9) by simp
  have "0 \<le> d" if "d \<in> set (map snd ws)" for d using that assms(7) by auto
  then obtain t where t: "id2index (map snd ws) = Inr t"
    using id2index_returns [of "map snd ws"] assms(5,6) by auto
  obtain sp sps' where "sps = sp # sps'" using assms(5,9) by (cases sps) auto
  moreover have "get_item ([] :: rat list) sp = Inl IndexError" by (auto simp: get_item_def norm_index_def)
  ultimately have "mapE (earlier_bps [] []) sps = Inl IndexError"
    by (simp add: earlier_bps_def closer_def cluster_of_def)
  then show ?thesis
    using assms(2-4,8,10)
    by (simp add: ClusterBarrierPoints_def run getSimPointData_def AnalysisSimPoints_def read_simpoints_def
        read_labels_def empty_sp_data_def simpoint_bb_map_def w s t Let_def)
qed

text \<open>The whole method on a clustering that covers every region.\<close>

lemma cluster_run:
  assumes "SimPoints_init bash (format_opt (BP self)) (FixedStr ''off'') False 20 15 (temporalSPfiles self) w = Inr (sim, w')"
    and "SPData sim = \<lparr>sp_id = Some ids, sp_weights = Some ws, sp_simpoints = Some sps,
      sp_labels = Some labels, sp_match = Some match\<rparr>"
    and wf: "sp_wf ids sps labels match"
  shows "\<exists>m ecs ees. ClusterBarrierPoints bash self w = Inr (True,
      self\<lparr>bp_SPData := SPData sim, simpointsEC := ecs, simpointsEE := ees, SimPointBBMap := m,
        SimPointBBMap_EC := remap (zip sps ecs) m, SimPointBBMap_EE := remap (zip sps ees) m\<rparr>, w')
    \<and> length m = length labels \<and> rep_map sps m
    \<and> rep_map ecs (remap (zip sps ecs) m) \<and> rep_map ees (remap (zip sps ees) m)
    \<and> (\<forall>j < length labels. \<forall>k < length ids. labels ! j = ids ! k \<longrightarrow>
         m ! j = sps ! k \<and> remap (zip sps ecs) m ! j = ecs ! k \<and> remap (zip sps ees) m ! j = ees ! k)
    \<and> (\<forall>k < length ids. \<forall>e \<in> {ecs ! k, ees ! k}.
         0 \<le> e \<and> e \<le> sps ! k \<and> labels ! nat e = ids ! k
         \<and> match ! nat e \<le> cluster_tolerance match m (sps ! k))"
proof -
  obtain idx m where idx: "id2index ids = Inr idx" and m: "simpoint_bb_map idx sps labels = Inr m"
    and len: "length m = length labels" and rep: "rep_map sps m"
    and lab: "\<And>j k. j < length labels \<Longrightarrow> k < length ids \<Longrightarrow> labels ! j = ids ! k \<Longrightarrow> m ! j = sps ! k"
    using sp_wf_rep [OF wf] by blast
  have n: "length sps = length ids" "length match = length m" and ids: "set labels \<subseteq> set ids"
    and pos: "\<And>x. x \<in> set match \<Longrightarrow> 0 \<le> x \<and> is_float x"
    using wf len by (auto simp: sp_wf_def)
  obtain ecs where ecs: "mapE (\<lambda>sp. bindE (closer match m sp) pick_closest) sps = Inr ecs"
    and ecl: "list_all2 (\<lambda>sp e. 0 \<le> e \<and> e \<le> sp \<and> nat e \<in> set (candidates match m sp)) sps ecs"
    using ec.choices_return [OF rep n(2) pos] by blast
  obtain ees where ees: "mapE (\<lambda>sp. bindE (closer match m sp) pick_earliest) sps = Inr ees"
    and eel: "list_all2 (\<lambda>sp e. 0 \<le> e \<and> e \<le> sp \<and> nat e \<in> set (candidates match m sp)) sps ees"
    using ee.choices_return [OF rep n(2) pos] by blast
  have same: "length ecs = length sps" "length ees = length sps"
    using list_all2_lengthD [OF ecl] list_all2_lengthD [OF eel] by simp_all
  let ?self = "self\<lparr>bp_SPData := SPData sim, simpointsEC := ecs, simpointsEE := ees, SimPointBBMap := m,
    SimPointBBMap_EC := remap (zip sps ecs) m, SimPointBBMap_EE := remap (zip sps ees) m\<rparr>"
  have zips: "map fst (zip ecs ees) = ecs" "map snd (zip ecs ees) = ees" using same by simp_all
  have run: "ClusterBarrierPoints bash self w = Inr (True, ?self, w')"
    by (simp only: ClusterBarrierPoints_def getSimPointData_def assms(1,2) idx m
        earlier_bps_pairs [OF ecs ees] zips Let_def bindE_Inr key_simps sp_data.simps prod.case)
  have lab': "labels ! j = ids ! k" if "j < length labels" "k < length ids" "m ! j = sps ! k" for j k
  proof -
    have "labels ! j \<in> set ids" using ids that(1) by (simp add: subset_iff)
    then obtain k' where k': "k' < length ids" "labels ! j = ids ! k'"
      by (auto simp: in_set_conv_nth)
    then have "sps ! k' = sps ! k" using lab [OF that(1)] that(3) by simp
    then show ?thesis using k' that(2) rep n(1) by (simp add: rep_map_def nth_eq_iff_index_eq)
  qed
  have choice: "0 \<le> e \<and> e \<le> sps ! k \<and> labels ! nat e = ids ! k \<and> match ! nat e \<le> cluster_tolerance match m (sps ! k)"
    if "k < length ids" "e \<in> {ecs ! k, ees ! k}" for k e
  proof -
    have "0 \<le> e \<and> e \<le> sps ! k \<and> nat e \<in> set (candidates match m (sps ! k))"
      using that n(1) list_all2_nthD [OF ecl, of k] list_all2_nthD [OF eel, of k] by auto
    then show ?thesis using lab' [of "nat e" k] that(1) len by (auto simp: candidates_def)
  qed
  have maps: "remap (zip sps ecs) m ! j = ecs ! k \<and> remap (zip sps ees) m ! j = ees ! k"
    if "j < length labels" "k < length ids" "m ! j = sps ! k" for j k
    using that ec.remap_choices [OF rep ecl] ee.remap_choices [OF rep eel] len n(1) by simp
  have reps: "rep_map ecs (remap (zip sps ecs) m)" "rep_map ees (remap (zip sps ees) m)"
    using ec.remap_choices [OF rep ecl] ee.remap_choices [OF rep eel] by blast+
  have "\<forall>j < length labels. \<forall>k < length ids. labels ! j = ids ! k \<longrightarrow>
      m ! j = sps ! k \<and> remap (zip sps ecs) m ! j = ecs ! k \<and> remap (zip sps ees) m ! j = ees ! k"
    using lab maps by blast
  moreover have "\<forall>k < length ids. \<forall>e \<in> {ecs ! k, ees ! k}.
      0 \<le> e \<and> e \<le> sps ! k \<and> labels ! nat e = ids ! k \<and> match ! nat e \<le> cluster_tolerance match m (sps ! k)"
    using choice by blast
  ultimately show ?thesis using run rep reps len by blast
qed

section \<open>Properties\<close>

text \<open>
  C4: on a clustering that covers every region, the method returns \<open>True\<close> and its three maps are
  consistent: two regions with the same label have the same simpoint, the map sends every simpoint
  to itself, and the maps \<open>EC\<close> and \<open>EE\<close> send every region to the choice made for its own
  cluster, a region of that cluster that is not later than the simpoint and within tolerance.
\<close>

theorem ClusterBarrierPoints_maps:
  assumes "SimPoints_init bash (format_opt (BP self)) (FixedStr ''off'') False 20 15 (temporalSPfiles self) w = Inr (sim, w')"
    and "SPData sim = \<lparr>sp_id = Some ids, sp_weights = Some ws, sp_simpoints = Some sps,
      sp_labels = Some labels, sp_match = Some match\<rparr>"
    and wf: "sp_wf ids sps labels match"
  shows "\<exists>self'. ClusterBarrierPoints bash self w = Inr (True, self', w')
    \<and> rep_map sps (SimPointBBMap self')
    \<and> rep_map (simpointsEC self') (SimPointBBMap_EC self')
    \<and> rep_map (simpointsEE self') (SimPointBBMap_EE self')
    \<and> (\<forall>j < length labels. \<forall>k < length ids. labels ! j = ids ! k \<longrightarrow>
         SimPointBBMap self' ! j = sps ! k
         \<and> SimPointBBMap_EC self' ! j = simpointsEC self' ! k
         \<and> SimPointBBMap_EE self' ! j = simpointsEE self' ! k)
    \<and> (\<forall>k < length ids. \<forall>e \<in> {simpointsEC self' ! k, simpointsEE self' ! k}.
         0 \<le> e \<and> e \<le> sps ! k \<and> labels ! nat e = ids ! k
         \<and> match ! nat e \<le> cluster_tolerance match (SimPointBBMap self') (sps ! k))"
proof -
  obtain m ecs ees where run: "ClusterBarrierPoints bash self w = Inr (True,
      self\<lparr>bp_SPData := SPData sim, simpointsEC := ecs, simpointsEE := ees, SimPointBBMap := m,
        SimPointBBMap_EC := remap (zip sps ecs) m, SimPointBBMap_EE := remap (zip sps ees) m\<rparr>, w')"
    (is "_ = Inr (True, ?self, w')")
    and maps: "rep_map sps m" "rep_map ecs (remap (zip sps ecs) m)" "rep_map ees (remap (zip sps ees) m)"
    "\<forall>j < length labels. \<forall>k < length ids. labels ! j = ids ! k \<longrightarrow>
       m ! j = sps ! k \<and> remap (zip sps ecs) m ! j = ecs ! k \<and> remap (zip sps ees) m ! j = ees ! k"
    "\<forall>k < length ids. \<forall>e \<in> {ecs ! k, ees ! k}. 0 \<le> e \<and> e \<le> sps ! k \<and> labels ! nat e = ids ! k
       \<and> match ! nat e \<le> cluster_tolerance match m (sps ! k)"
    using cluster_run [OF assms] by blast
  from maps show ?thesis by (intro exI [of _ ?self] conjI run) simp_all
qed

text \<open>A run of SimPoint on four regions in two clusters, with its simpoints 2 and 1.\<close>

definition sample_clustering :: fs where
  "sample_clustering = fs_of
     [(''t.weights'', weights_text [(''0.5'', 0), (''0.5'', 1)]),
      (''t.simpoints'', simpoints_text [(2, 0), (1, 1)]),
      (''t.labels'', labels_text [(0, ''0.5''), (1, ''0''), (0, ''0''), (1, ''0.25'')])]"

lemma sample_clustering_read:
  "\<exists>sim. SimPoints_init (\<lambda>cmd w. (0, w)) bp (FixedStr ''off'') False 20 15 [] sample_clustering
     = Inr (sim, sample_clustering)
   \<and> SPData sim = \<lparr>sp_id = Some [0, 1], sp_weights = Some [1 / 2, 1 / 2], sp_simpoints = Some [2, 1],
       sp_labels = Some [0, 1, 0, 1], sp_match = Some [1 / 2, 0, 0, 1 / 4]\<rparr>"
proof -
  have d: "py_float ''0.25'' = Inr (1 / 4)" "py_float ''0'' = Inr 0" "py_float ''0.5'' = Inr (1 / 2)"
    by code_simp+
  note w = d [THEN decimalI [rotated]]
  have "decimal ''0.25'' \<and> decimal ''0'' \<and> decimal ''0.5''"
    by (intro conjI w) (simp_all add: word_def is_space_def)
  then have dec: "decimal x" if "x \<in> {''0.25'', ''0'', ''0.5''}" for x using that by blast
  let ?s = "new_simpoints bp (FixedStr ''off'') False 20 15 []"
  let ?ws = "[(''0.5'', 0), (''0.5'', 1 :: int)]"
  let ?ls = "[(0 :: int, ''0.5''), (1, ''0''), (0, ''0''), (1, ''0.25'')]"
  have "AnalysisSimPoints ?s sample_clustering = Inr (True, ?s\<lparr>SPData :=
      \<lparr>sp_id = Some (map snd ?ws), sp_weights = Some (map (decimal_value \<circ> fst) ?ws),
       sp_simpoints = Some [2, 1], sp_labels = Some (map fst ?ls),
       sp_match = Some (map (decimal_value \<circ> snd) ?ls)\<rparr>\<rparr>, clean_files ?s sample_clustering)"
    by (rule analysis_complete) (auto simp: sample_clustering_def intro!: dec)
  then show ?thesis
    by (simp add: SimPoints_init_def RunSimPoints_def decimal_value_def d clean_files_def)
qed

lemma sample_clustering_wf: "sp_wf [0, 1] [2, 1] [0, 1, 0, 1] [1 / 2, 0, 0, 1 / 4]"
proof -
  have "is_float (1 / 2)" "is_float (1 / 4)" "is_float 0" by code_simp+
  then have "\<forall>x \<in> set [1 / 2, 0, 0, 1 / 4 :: rat]. 0 \<le> x \<and> is_float x" by simp
  moreover have "0 \<le> [2, 1 :: int] ! k \<and> [2, 1 :: int] ! k < 4 \<and> [0, 1, 0, 1 :: int] ! nat ([2, 1] ! k) = [0, 1] ! k"
    if "k < 2" for k :: nat
    using that by (cases k) (simp_all add: less_Suc_eq numeral_2_eq_2)
  ultimately show ?thesis by (simp add: sp_wf_def)
qed

theorem ClusterBarrierPoints_maps_witness:
  "\<exists>self'. ClusterBarrierPoints (\<lambda>cmd w. (0, w)) sample_vectors sample_clustering
     = Inr (True, self', sample_clustering) \<and> rep_map [2, 1] (SimPointBBMap self')
     \<and> simpointsEE self' ! 1 = 1"
proof -
  have "temporalSPfiles sample_vectors = []"
    by (simp add: sample_vectors_def sample_run_def BarrierPoints_init_def GetBenchParams_def)
  then obtain sim where
    run: "SimPoints_init (\<lambda>cmd w. (0, w)) (format_opt (BP sample_vectors)) (FixedStr ''off'') False 20 15
      (temporalSPfiles sample_vectors) sample_clustering = Inr (sim, sample_clustering)"
    and data: "SPData sim = \<lparr>sp_id = Some [0, 1], sp_weights = Some [1 / 2, 1 / 2], sp_simpoints = Some [2, 1],
       sp_labels = Some [0, 1, 0, 1], sp_match = Some [1 / 2, 0, 0, 1 / 4]\<rparr>"
    using sample_clustering_read [of "format_opt (BP sample_vectors)"] by auto
  obtain self' where self': "ClusterBarrierPoints (\<lambda>cmd w. (0, w)) sample_vectors sample_clustering
      = Inr (True, self', sample_clustering)" "rep_map [2, 1] (SimPointBBMap self')"
    "\<forall>k < length [0 :: int, 1]. \<forall>e \<in> {simpointsEC self' ! k, simpointsEE self' ! k}.
       0 \<le> e \<and> e \<le> [2, 1] ! k \<and> [0, 1, 0, 1] ! nat e = [0 :: int, 1] ! k
       \<and> [1 / 2, 0, 0, 1 / 4] ! nat e \<le> cluster_tolerance [1 / 2, 0, 0, 1 / 4] (SimPointBBMap self') ([2, 1] ! k)"
    using ClusterBarrierPoints_maps [OF run data sample_clustering_wf] by blast
  let ?e = "simpointsEE self' ! 1"
  have "0 \<le> ?e" "?e \<le> 1" "[0, 1, 0, 1] ! nat ?e = (1 :: int)"
    using self'(3) [rule_format, of 1 ?e] by simp_all
  moreover from this have "?e = 0 \<or> ?e = 1" by linarith
  ultimately have "?e = 1" by (elim disjE) (simp_all only:, simp)
  then show ?thesis using self'(1,2) by blast
qed

text \<open>
  C7: the choices themselves. Among the regions of the cluster up to the simpoint that lie within
  tolerance, \<open>EE\<close> is the earliest, and \<open>EC\<close> is one of smallest distance; of several such regions
  it is the latest.
\<close>

theorem earlier_bps_spec:
  assumes "length match = length m" "0 \<le> sp" "sp < int (length m)" "m ! nat sp = sp"
    and "\<And>x. x \<in> set match \<Longrightarrow> 0 \<le> x \<and> is_float x"
  shows "\<exists>c e. earlier_bps match m sp = Inr (int c, int e)
    \<and> c \<in> set (candidates match m sp) \<and> e \<in> set (candidates match m sp)
    \<and> (\<forall>j \<in> set (candidates match m sp). e \<le> j
         \<and> (match ! c < match ! j \<or> match ! c = match ! j \<and> j \<le> c))"
proof -
  let ?cs = "candidates match m sp"
  obtain e js where e: "?cs = e # js" using simpoint_candidate [OF assms] by (cases ?cs) auto
  have sorted: "sorted_wrt (<) ?cs" by (simp add: candidates_def sorted_wrt_filter)
  let ?f = "\<lambda>x y. if snd x < snd y then x else y :: nat \<times> rat" and ?g = "\<lambda>j. (j, match ! j)"
  let ?r = "foldl ?f (?g e) (map ?g js)"
  obtain pre post where r: "map ?g ?cs = pre @ ?r # post" "\<forall>x \<in> set pre. snd ?r \<le> snd x" "\<forall>x \<in> set post. snd ?r < snd x"
    using foldl_closest [OF refl, of "?g e" "map ?g js"] by (auto simp: e)
  then obtain as c bs where cs: "?cs = as @ c # bs" "pre = map ?g as" "?r = ?g c" "post = map ?g bs"
    by (auto simp: map_eq_append_conv Cons_eq_map_conv)
  have "j \<le> c" if "j \<in> set as" for j using sorted that by (auto simp: cs(1) sorted_wrt_append)
  then have c: "match ! c < match ! j \<or> match ! c = match ! j \<and> j \<le> c" if "j \<in> set ?cs" for j
    using that r(2,3) by (fastforce simp: cs)
  have "earlier_bps match m sp = Inr (int c, int e)"
    using assms cs(3) by (simp add: earlier_bps_def closer_eq pick_closest_def pick_earliest_def e)
  moreover have "\<forall>j \<in> set ?cs. e \<le> j" using sorted by (auto simp: e)
  moreover have "c \<in> set ?cs" using cs(1) by simp
  moreover have "e \<in> set ?cs" using e by simp
  ultimately show ?thesis using c by blast
qed

theorem earlier_bps_spec_witness:
  "\<exists>c e. earlier_bps [1, 1 / 2, 1 / 2, 1] [2, 2, 2, 2] 2 = Inr (int c, int e)
     \<and> c \<in> set (candidates [1, 1 / 2, 1 / 2, 1] [2, 2, 2, 2] 2)
     \<and> (\<forall>j \<in> set (candidates [1, 1 / 2, 1 / 2, 1] [2, 2, 2, 2] 2). e \<le> j)"
proof -
  have fl: "is_float 1" "is_float (1 / 2)" by code_simp+
  have f: "0 \<le> x \<and> is_float x" if "x \<in> set [1, 1 / 2, 1 / 2, 1]" for x
  proof -
    have "x = 1 \<or> x = 1 / 2" using that by auto
    then show ?thesis using fl by (elim disjE) (simp_all only:, simp_all)
  qed
  show ?thesis
    using earlier_bps_spec [of "[1, 1 / 2, 1 / 2, 1]" "[2, 2, 2, 2]" 2, OF _ _ _ _ f]
    by (simp only: list.size) (simp, blast)
qed

text \<open>
  C6: rewriting the copy of the map in place, simpoint after simpoint, never rewrites a region twice:
  as long as every choice is a region of its own cluster, the loops replace each simpoint by its
  choice as one simultaneous substitution would.
\<close>

theorem remap_simultaneous:
  assumes "rep_map sps m"
    and "list_all2 (\<lambda>sp e. 0 \<le> e \<and> nat e < length m \<and> m ! nat e = sp) sps es"
  shows "map Some (remap (zip sps es) m) = map (map_of (zip sps es)) m"
proof (rule nth_equalityI)
  have len: "length es = length sps" using assms(2) by (simp add: list_all2_lengthD)
  note r = remap_own_cluster [OF assms]
  show "length (map Some (remap (zip sps es) m)) = length (map (map_of (zip sps es)) m)" using r by simp
  fix j
  assume "j < length (map Some (remap (zip sps es) m))"
  then have j: "j < length m" using r by simp
  then have "m ! j \<in> set sps" using assms(1) by (auto simp: rep_map_def)
  then obtain k where k: "k < length sps" "m ! j = sps ! k" by (auto simp: in_set_conv_nth)
  then have "remap (zip sps es) m ! j = es ! k" using r j by blast
  moreover have "map_of (zip sps es) (sps ! k) = Some (es ! k)"
    using k(1) len assms(1) by (simp add: map_of_zip_nth rep_map_def)
  ultimately show "map Some (remap (zip sps es) m) ! j = map (map_of (zip sps es)) m ! j"
    using j k r by simp
qed

theorem remap_simultaneous_witness:
  "map Some (remap (zip [2, 1] [0, 1]) [2, 1, 2, 1]) = map (map_of (zip [2, 1] [0, 1 :: int])) [2, 1, 2, 1 :: int]"
  by (rule remap_simultaneous) (simp_all add: rep_map_def)

text \<open>
  C16: a SimPoint run that fails is never reported by a result of \<open>False\<close>: the constructor only logs
  the failure and the method goes on with a partial dictionary. A non-zero exit code gives
  \<open>KeyError\<close>; a run that leaves no weights gives \<open>ValueError\<close>, one without simpoints \<open>KeyError\<close>, and
  one without labels \<open>IndexError\<close>. Whenever the method returns, it returns \<open>True\<close>.
\<close>

theorem ClusterBarrierPoints_failed_tool:
  assumes "bash (execCmd (new_simpoints (format_opt (BP self)) (FixedStr ''off'') False 20 15 (temporalSPfiles self))) w
      = (rc, w')"
  shows "(rc \<noteq> 0 \<longrightarrow> ClusterBarrierPoints bash self w = Inl KeyError)
    \<and> (rc = 0 \<and> open_read w' (temporalSPfiles self @ ''t.weights'') = None
        \<longrightarrow> ClusterBarrierPoints bash self w = Inl ValueError)
    \<and> (\<forall>ws. rc = 0 \<and> open_read w' (temporalSPfiles self @ ''t.weights'') = Some (weights_text ws)
        \<and> ws \<noteq> [] \<and> distinct (map snd ws) \<and> (\<forall>(x, d) \<in> set ws. decimal x \<and> 0 \<le> d) \<longrightarrow>
          (open_read w' (temporalSPfiles self @ ''t.simpoints'') = None
             \<longrightarrow> ClusterBarrierPoints bash self w = Inl KeyError)
          \<and> (\<forall>sps. open_read w' (temporalSPfiles self @ ''t.simpoints'') = Some (simpoints_text (zip sps (map snd ws)))
                \<and> length sps = length ws \<and> open_read w' (temporalSPfiles self @ ''t.labels'') = None
                \<longrightarrow> ClusterBarrierPoints bash self w = Inl IndexError))
    \<and> (\<forall>ok self' w''. ClusterBarrierPoints bash self w = Inr (ok, self', w'') \<longrightarrow> ok)"
proof -
  let ?sim = "new_simpoints (format_opt (BP self)) (FixedStr ''off'') False 20 15 (temporalSPfiles self)"
  have run: "SimPoints_init bash (format_opt (BP self)) (FixedStr ''off'') False 20 15 (temporalSPfiles self) w
      = (if rc \<noteq> 0 then Inr (?sim, w') else bindE (AnalysisSimPoints ?sim w') (\<lambda>(ok, s, w''). Inr (s, w'')))"
    using assms by (simp add: SimPoints_init_def RunSimPoints_def)
  show ?thesis
  proof (intro conjI allI impI)
    assume "rc \<noteq> 0"
    then show "ClusterBarrierPoints bash self w = Inl KeyError"
      by (simp add: ClusterBarrierPoints_def run getSimPointData_def empty_sp_data_def)
  next
    assume "rc = 0 \<and> open_read w' (temporalSPfiles self @ ''t.weights'') = None"
    then show "ClusterBarrierPoints bash self w = Inl ValueError"
      using no_weights_ValueError [OF run] by simp
  next
    fix ws
    assume ws: "rc = 0 \<and> open_read w' (temporalSPfiles self @ ''t.weights'') = Some (weights_text ws)
        \<and> ws \<noteq> [] \<and> distinct (map snd ws) \<and> (\<forall>(x, d) \<in> set ws. decimal x \<and> 0 \<le> d)"
      and "open_read w' (temporalSPfiles self @ ''t.simpoints'') = None"
    then show "ClusterBarrierPoints bash self w = Inl KeyError"
      using no_simpoints_KeyError [OF run] by simp
  next
    fix ws sps
    assume "rc = 0 \<and> open_read w' (temporalSPfiles self @ ''t.weights'') = Some (weights_text ws)
        \<and> ws \<noteq> [] \<and> distinct (map snd ws) \<and> (\<forall>(x, d) \<in> set ws. decimal x \<and> 0 \<le> d)"
      and "open_read w' (temporalSPfiles self @ ''t.simpoints'') = Some (simpoints_text (zip sps (map snd ws)))
        \<and> length sps = length ws \<and> open_read w' (temporalSPfiles self @ ''t.labels'') = None"
    then show "ClusterBarrierPoints bash self w = Inl IndexError"
      using no_labels_IndexError [OF run] by simp
  next
    fix ok self' w''
    show "ClusterBarrierPoints bash self w = Inr (ok, self', w'') \<Longrightarrow> ok"
      by (auto simp: ClusterBarrierPoints_def bindE_eq_Inr Let_def)
  qed
qed

text \<open>A shell without SimPoint, and one that leaves nothing but the weights of two clusters.\<close>

theorem ClusterBarrierPoints_failed_tool_witness:
  "ClusterBarrierPoints (\<lambda>cmd w. (127, w)) sample_vectors sample_files = Inl KeyError
   \<and> ClusterBarrierPoints (\<lambda>cmd w. (0, fs_of [(''t.weights'', weights_text [(''0.5'', 0), (''0.5'', 1)])])) sample_vectors sample_files
       = Inl KeyError
   \<and> ClusterBarrierPoints (\<lambda>cmd w. (0, w)) sample_vectors sample_files = Inl ValueError"
proof -
  have t: "temporalSPfiles sample_vectors = []"
    by (simp add: sample_vectors_def sample_run_def BarrierPoints_init_def GetBenchParams_def)
  have "py_float ''0.5'' = Inr (1 / 2)" by code_simp
  then have "decimal ''0.5''" by (rule decimalI [rotated]) (simp add: word_def is_space_def)
  then have ws: "\<forall>(x, d) \<in> set [(''0.5'', 0), (''0.5'', 1 :: int)]. decimal x \<and> 0 \<le> d" by simp
  have n: "open_read sample_files ''t.weights'' = None" by (simp add: sample_files_def)
  show ?thesis
  proof (intro conjI)
    show "ClusterBarrierPoints (\<lambda>cmd w. (127, w)) sample_vectors sample_files = Inl KeyError"
      using ClusterBarrierPoints_failed_tool [of "\<lambda>cmd w. (127, w)" sample_vectors sample_files 127 sample_files] by simp
    show "ClusterBarrierPoints (\<lambda>cmd w. (0, fs_of [(''t.weights'', weights_text [(''0.5'', 0), (''0.5'', 1)])])) sample_vectors sample_files
       = Inl KeyError"
      using ClusterBarrierPoints_failed_tool
        [of "\<lambda>cmd w. (0, fs_of [(''t.weights'', weights_text [(''0.5'', 0), (''0.5'', 1)])])" sample_vectors sample_files, OF refl,
          THEN conjunct2, THEN conjunct2, THEN conjunct1, rule_format, of "[(''0.5'', 0), (''0.5'', 1)]", THEN conjunct1, rule_format]
        ws t by simp
    show "ClusterBarrierPoints (\<lambda>cmd w. (0, w)) sample_vectors sample_files = Inl ValueError"
      using ClusterBarrierPoints_failed_tool [of "\<lambda>cmd w. (0, w)" sample_vectors sample_files 0 sample_files] t n by simp
  qed
qed

end
