(* ===== verification/Bp_Select.thy ===== *)
theory Bp_Select
  imports Bp_Cluster
begin

text \<open>
  \<open>BarrierPoints.__SelectSignificantBarrierPoints\<close> of \<open>DrAnalysis.py\<close>: the multiplier of every
  representative is the sum of the scaling factors of the regions it stands for, and the three
  selections are written with their multipliers to the \<open>.barrierpoints\<close> files.

  All arithmetic is on floats. The lemmas bound the distance of the multipliers from the exact sums
  and of the reconstructed instruction count from the real one.
\<close>

section \<open>Scaling factors and multipliers\<close>

text \<open>\<open>1.0 + (float(ins[i]) - ins[sp]) / ins[sp]\<close>.\<close>

definition scaling_factor :: "int list \<Rightarrow> nat \<times> int \<Rightarrow> rat res" where
  "scaling_factor ins = (\<lambda>(i, sp).
     bindE (get_item ins (int i)) (\<lambda>a.
     bindE (get_item ins sp) (\<lambda>b.
     bindE (fdiv (fsub (fl_int a) (fl_int b)) (fl_int b)) (\<lambda>q. Inr (fadd 1 q)))))"

definition scaling_factors :: "int list \<Rightarrow> int list \<Rightarrow> rat list res" where
  "scaling_factors ins m = mapE (scaling_factor ins) (List.enumerate 0 m)"

text \<open>\<open>bp_to_scaling[sp] += scaling_factors[i]\<close>.\<close>

definition accumulate :: "rat list \<Rightarrow> rat list \<Rightarrow> nat \<times> int \<Rightarrow> rat list res" where
  "accumulate sf acc = (\<lambda>(i, sp).
     bindE (get_item acc sp) (\<lambda>x.
     bindE (get_item sf (int i)) (\<lambda>s. set_item acc sp (fadd x s))))"

definition bp_to_scaling :: "int list \<Rightarrow> rat list \<Rightarrow> rat list res" where
  "bp_to_scaling m sf = foldE (accumulate sf) (replicate (length m) 0) (List.enumerate 0 m)"

section \<open>Selection\<close>

text \<open>The loop over the sorted representatives: each with its multiplier.\<close>

definition selected :: "int list \<Rightarrow> rat list \<Rightarrow> (int \<times> rat) list res" where
  "selected sps b = mapE (\<lambda>sp. bindE (get_item b sp) (\<lambda>x. Inr (sp, x))) (sort sps)"

definition selected_line :: "int \<times> rat \<Rightarrow> string" where
  "selected_line = (\<lambda>(sp, x). str_int (sp + 1) @ '' '' @ fixed4 x)"

definition selection_text :: "(int \<times> rat) list \<Rightarrow> string" where
  "selection_text sel = concat (map (\<lambda>s. selected_line s @ [newline]) sel)"

definition SelectSignificantBarrierPoints ::
    "barrier_points \<Rightarrow> fs \<Rightarrow> (bool \<times> barrier_points \<times> fs) res" where
  "SelectSignificantBarrierPoints self0 w =
     (let ins = ins_per_phase self0 in
      bindE (scaling_factors ins (SimPointBBMap self0)) (\<lambda>sf.
      bindE (scaling_factors ins (SimPointBBMap_EC self0)) (\<lambda>sf_EC.
      bindE (scaling_factors ins (SimPointBBMap_EE self0)) (\<lambda>sf_EE.
      bindE (bp_to_scaling (SimPointBBMap self0) sf) (\<lambda>b.
      bindE (bp_to_scaling (SimPointBBMap_EC self0) sf_EC) (\<lambda>b_EC.
      bindE (bp_to_scaling (SimPointBBMap_EE self0) sf_EE) (\<lambda>b_EE.
      bindE (key (sp_simpoints (bp_SPData self0))) (\<lambda>sps.
      bindE (selected sps b) (\<lambda>sel.
      let self = self0\<lparr>SelectedBarrierPoints := map fst sel, SelectedMultipliers := map snd sel\<rparr> in
      case selectedBP self of
        None \<Rightarrow> Inl TypeError
      | Some path \<Rightarrow>
        (case write_file w path (selection_text sel) of
           None \<Rightarrow> Inr (False, self, w)
         | Some w1 \<Rightarrow>
           bindE (selected (simpointsEC self) b_EC) (\<lambda>sel_EC.
           let self1 = self\<lparr>SelectedBarrierPoints_EC := map fst sel_EC, SelectedMultipliers_EC := map snd sel_EC\<rparr> in
           case write_file w1 (path @ ''_EC05'') (selection_text sel_EC) of
             None \<Rightarrow> Inr (False, self1, w1)
           | Some w2 \<Rightarrow>
             bindE (selected (simpointsEE self1) b_EE) (\<lambda>sel_EE.
             let self2 = self1\<lparr>SelectedBarrierPoints_EE := map fst sel_EE, SelectedMultipliers_EE := map snd sel_EE\<rparr> in
             case write_file w2 (path @ ''_EE05'') (selection_text sel_EE) of
               None \<Rightarrow> Inr (False, self2, w2)
             | Some w3 \<Rightarrow> Inr (True, self2, w3)))))))))))))"

section \<open>What the multipliers are\<close>

text \<open>The exact factor of region \<open>j\<close> and the exact multiplier of representative \<open>r\<close>.\<close>

definition exact_factor :: "int list \<Rightarrow> int \<Rightarrow> nat \<Rightarrow> rat" where
  "exact_factor ins r j = of_int (ins ! j) / of_int (ins ! nat r)"

definition exact_multiplier :: "int list \<Rightarrow> int list \<Rightarrow> int \<Rightarrow> rat" where
  "exact_multiplier ins m r = sum_list (map (exact_factor ins r) (cluster_of m r))"

definition float_factor :: "int list \<Rightarrow> int \<Rightarrow> nat \<Rightarrow> rat" where
  "float_factor ins r j =
     fl64 (1 + fl64 (fsub (fl_int (ins ! j)) (fl_int (ins ! nat r)) / fl_int (ins ! nat r)))"

definition float_multiplier :: "int list \<Rightarrow> int list \<Rightarrow> int \<Rightarrow> rat" where
  "float_multiplier ins m r = foldl fadd 0 (map (float_factor ins r) (cluster_of m r))"

text \<open>Regions that have executed something, in counts a float can hold.\<close>

definition counts_ok :: "int list \<Rightarrow> int list \<Rightarrow> bool" where
  "counts_ok ins m =
     (length ins = length m \<and> (\<forall>a \<in> set ins. 0 < a \<and> a \<le> 2 ^ 53)
      \<and> (\<forall>r \<in> set m. 0 \<le> r \<and> r < int (length m)))"

lemma counts_okD:
  assumes "counts_ok ins m" "j < length m"
  shows "0 < ins ! j" "ins ! j \<le> 2 ^ 53" "0 \<le> m ! j" "nat (m ! j) < length m"
  using assms nth_mem [of j ins] nth_mem [of j m] by (auto simp: counts_ok_def nat_less_iff)

lemma scaling_factors_eq:
  assumes "counts_ok ins m"
  shows "scaling_factors ins m = Inr (map (\<lambda>j. float_factor ins (m ! j) j) [0..<length m])"
proof -
  have "List.enumerate 0 m = map (\<lambda>j. (j, m ! j)) [0..<length m]"
    by (rule nth_equalityI) (simp_all add: nth_enumerate_eq)
  moreover have "scaling_factor ins (j, m ! j) = Inr (float_factor ins (m ! j) j)" if "j < length m" for j
  proof -
    have "length ins = length m" using assms by (simp add: counts_ok_def)
    then show ?thesis
      using counts_okD [OF assms that] counts_okD(1) [OF assms, of "nat (m ! j)"] that
      by (simp add: scaling_factor_def get_item_in fdiv_def fadd_def float_factor_def)
  qed
  ultimately show ?thesis
    unfolding scaling_factors_def by (subst mapE_returns [where g = "\<lambda>(j, r). float_factor ins r j"]) auto
qed

lemma accumulate_fold:
  assumes "\<forall>r \<in> set m. 0 \<le> r \<and> r < int (length acc)" "n + length m \<le> length sf"
  shows "\<exists>b. foldE (accumulate sf) acc (List.enumerate n m) = Inr b \<and> length b = length acc
    \<and> (\<forall>r < length acc. b ! r
         = foldl fadd (acc ! r) (map ((!) sf) (map fst (filter (\<lambda>(j, jj). jj = int r) (List.enumerate n m)))))"
  using assms
proof (induction m arbitrary: acc n)
  case (Cons x m)
  let ?acc = "acc[nat x := fadd (acc ! nat x) (sf ! n)]"
  have "\<exists>b. foldE (accumulate sf) ?acc (List.enumerate (Suc n) m) = Inr b \<and> length b = length ?acc
    \<and> (\<forall>r < length ?acc. b ! r
         = foldl fadd (?acc ! r) (map ((!) sf) (map fst (filter (\<lambda>(j, jj). jj = int r) (List.enumerate (Suc n) m)))))"
    by (rule Cons.IH) (use Cons.prems in auto)
  moreover have "accumulate sf acc (n, x) = Inr ?acc"
    using Cons.prems by (simp add: accumulate_def get_item_in get_item_nat set_item_in)
  moreover have "x = int r \<longleftrightarrow> nat x = r" for r using Cons.prems(1) by auto
  ultimately show ?case using Cons.prems(1) by (auto simp: nth_list_update)
qed simp

lemma bp_to_scaling_eq:
  assumes "counts_ok ins m"
  shows "\<exists>b. bindE (scaling_factors ins m) (bp_to_scaling m) = Inr b \<and> length b = length m
    \<and> (\<forall>r < length m. b ! r = float_multiplier ins m (int r))"
proof -
  let ?sf = "map (\<lambda>j. float_factor ins (m ! j) j) [0..<length m]"
  obtain b where b: "bp_to_scaling m ?sf = Inr b" "length b = length m"
    "\<And>r. r < length m \<Longrightarrow> b ! r = foldl fadd 0 (map ((!) ?sf) (cluster_of m (int r)))"
    using accumulate_fold [of m "replicate (length m) 0" 0 ?sf] assms
    by (auto simp: bp_to_scaling_def counts_ok_def cluster_of_def)
  have own: "map ((!) ?sf) (cluster_of m r) = map (float_factor ins r) (cluster_of m r)" for r
    by (auto simp: cluster_of_eq)
  have "b ! r = float_multiplier ins m (int r)" if "r < length m" for r
    unfolding float_multiplier_def using b(3) [OF that] by (simp only: own)
  then show ?thesis using b(1,2) by (simp add: scaling_factors_eq [OF assms])
qed

lemma selected_eq:
  assumes "length b = length m" "\<And>r. r < length m \<Longrightarrow> b ! r = f (int r)"
    and "\<And>r. r \<in> set reps \<Longrightarrow> 0 \<le> r \<and> r < int (length m)"
  shows "selected reps b = Inr (map (\<lambda>r. (r, f r)) (sort reps))"
  unfolding selected_def
proof (rule mapE_returns)
  fix r
  assume "r \<in> set (sort reps)"
  then have "0 \<le> r" "r < int (length m)" using assms(3) by auto
  then show "bindE (get_item b r) (\<lambda>x. Inr (r, x)) = Inr (r, f r)"
    using assms(1) assms(2) [of "nat r"] by (simp add: get_item_in nat_less_iff)
qed

section \<open>Rounding errors\<close>

lemma float_factor_alt:
  assumes "0 < ins ! j" "ins ! j \<le> 2 ^ 53" "0 < ins ! nat r" "ins ! nat r \<le> 2 ^ 53"
  shows "float_factor ins r j = fl64 (1 + fl64 (exact_factor ins r j - 1))"
proof -
  let ?a = "ins ! j" and ?b = "ins ! nat r"
  have "fsub (fl_int ?a) (fl_int ?b) = of_int ?a - of_int ?b"
    using assms fl64_int [of "?a - ?b"] by (simp add: fl_int_small fsub_def)
  then show ?thesis
    using assms by (simp add: float_factor_def exact_factor_def fl_int_small diff_divide_distrib)
qed

lemma rounded_factor:
  fixes x :: rat
  assumes "0 \<le> x"
  shows "0 \<le> fl64 (1 + fl64 (x - 1))" "\<bar>fl64 (1 + fl64 (x - 1)) - x\<bar> \<le> 3 / 2 ^ 53 * (1 + x)"
proof -
  let ?q = "fl64 (x - 1)"
  have "fl64 (- 1) \<le> ?q" using assms by (intro fl64_mono) simp
  then have q: "0 \<le> 1 + ?q" using fl64_int [of 1] by (simp add: fl64_minus)
  then show "0 \<le> fl64 (1 + ?q)" by (rule fl64_nonneg)
  have "\<bar>?q - (x - 1)\<bar> \<le> \<bar>x - 1\<bar> / 2 ^ 53" by (rule fl64_error)
  moreover have "\<bar>fl64 (1 + ?q) - (1 + ?q)\<bar> \<le> \<bar>1 + ?q\<bar> / 2 ^ 53" by (rule fl64_error)
  moreover have "\<bar>x - 1\<bar> \<le> 1 + x" using assms by linarith
  ultimately show "\<bar>fl64 (1 + ?q) - x\<bar> \<le> 3 / 2 ^ 53 * (1 + x)"
    using q assms by (simp add: abs_if split: if_splits)
qed

text \<open>The growth of the error over a loop of at most \<open>2 ^ 40\<close> additions.\<close>

lemma rounding_growth:
  fixes u :: rat
  assumes "0 \<le> u" "2 * of_nat n * u \<le> 1"
  shows "(1 + u) ^ n \<le> 1 + 2 * of_nat n * u"
  using assms(2)
proof (induction n)
  case (Suc n)
  have p: "2 * of_nat n * u \<le> 1" using Suc.prems assms(1) by (simp add: distrib_right distrib_left)
  have "(1 + u) ^ Suc n \<le> (1 + 2 * of_nat n * u) * (1 + u)"
    using Suc.IH [OF p] assms(1) by (simp add: mult.commute mult_right_mono)
  also have "\<dots> = 1 + 2 * of_nat n * u + u + 2 * of_nat n * u * u" by (simp add: algebra_simps)
  also have "\<dots> \<le> 1 + 2 * of_nat n * u + u + 1 * u"
    using mult_right_mono [OF p assms(1)] by simp
  also have "\<dots> = 1 + 2 * of_nat (Suc n) * u" by (simp add: algebra_simps)
  finally show ?case .
qed simp

text \<open>A running float sum of rounded factors, against the exact sum \<open>X\<close> of at least 1.\<close>

lemma factor_sum_error:
  fixes xs :: "rat list"
  assumes "\<And>x. x \<in> set xs \<Longrightarrow> 0 \<le> x" "1 \<le> sum_list xs" "length xs \<le> 2 ^ 40"
  shows "\<bar>foldl fadd 0 (map (\<lambda>x. fl64 (1 + fl64 (x - 1))) xs) - sum_list xs\<bar>
    \<le> of_nat (length xs) * sum_list xs / 2 ^ 49"
proof -
  let ?n = "of_nat (length xs) :: rat" and ?X = "sum_list xs" and ?u = "1 / 2 ^ 53 :: rat"
  let ?e = "\<lambda>x :: rat. 3 * ?u * (1 + x)" and ?p = "(1 + 1 / 2 ^ 53 :: rat) ^ length xs"
  have "list_all2 (\<lambda>x y. \<bar>x - y\<bar> \<le> ?e y) (map (\<lambda>x. fl64 (1 + fl64 (x - 1))) xs) xs"
    using rounded_factor(2) assms(1) by (simp add: list.rel_map list_all2_same)
  from f64.sum_error [OF this, of 0 0]
  have "\<bar>foldl fadd 0 (map (\<lambda>x. fl64 (1 + fl64 (x - 1))) xs) - ?X\<bar>
      \<le> ?p * sum_list (map ?e xs) + (?p - 1) * ?X"
    using assms(1) by (simp add: fadd_def [abs_def])
  also have "sum_list (map ?e xs) = 3 * ?u * (?n + ?X)"
    by (induction xs) (simp_all add: algebra_simps)
  also have "?p * (3 * ?u * (?n + ?X)) + (?p - 1) * ?X \<le> ?n * ?X / 2 ^ 49"
  proof -
    have "xs \<noteq> []" using assms(2) by auto
    then have n1: "1 \<le> ?n" by (cases xs) simp_all
    have n40: "?n \<le> 2 ^ 40" using assms(3) by (metis of_nat_le_iff of_nat_numeral of_nat_power)
    then have p: "?p \<le> 1 + 2 * ?n * ?u" by (intro rounding_growth) simp_all
    have nX: "?n \<le> ?n * ?X" "?X \<le> ?n * ?X"
      using mult_left_mono [of 1 ?X ?n] mult_right_mono [of 1 ?n ?X] n1 assms(2) by simp_all
    have "?p \<le> 2" using p n40 by simp
    then have "?p * (3 * ?u * (?n + ?X)) \<le> 2 * (3 * ?u * (2 * (?n * ?X)))"
    proof (rule mult_mono)
      show "3 * ?u * (?n + ?X) \<le> 3 * ?u * (2 * (?n * ?X))"
        by (rule mult_left_mono) (use nX in linarith, simp)
    qed (use n1 assms(2) in simp_all)
    moreover have "(?p - 1) * ?X \<le> (2 * ?n * ?u) * ?X"
      using p assms(2) by (intro mult_right_mono) simp_all
    ultimately have "?p * (3 * ?u * (?n + ?X)) + (?p - 1) * ?X
        \<le> 2 * (3 * ?u * (2 * (?n * ?X))) + (2 * ?n * ?u) * ?X"
      by (rule add_mono)
    also have "\<dots> = 14 / 2 ^ 53 * (?n * ?X)" by (simp add: field_simps)
    also have "\<dots> \<le> 1 / 2 ^ 49 * (?n * ?X)"
      using n1 assms(2) by (intro mult_right_mono) simp_all
    finally show ?thesis by simp
  qed
  finally show ?thesis .
qed

lemma float_multiplier_error:
  assumes "counts_ok ins m" "r \<in> set m" "m ! nat r = r" "length m \<le> 2 ^ 40"
  shows "\<bar>float_multiplier ins m r - exact_multiplier ins m r\<bar>
    \<le> of_nat (length m) * exact_multiplier ins m r / 2 ^ 49" "1 \<le> exact_multiplier ins m r"
proof -
  let ?c = "cluster_of m r" let ?xs = "map (exact_factor ins r) ?c"
  have r: "nat r < length m" "0 \<le> r" using assms(1,2) by (auto simp: counts_ok_def nat_less_iff)
  have j: "j < length m" if "j \<in> set ?c" for j using that by (simp add: cluster_of_eq)
  have pos: "0 \<le> exact_factor ins r j" if "j \<in> set ?c" for j
    using counts_okD(1) [OF assms(1)] j [OF that] r by (auto simp: exact_factor_def intro!: divide_nonneg_nonneg less_imp_le)
  have "exact_factor ins r (nat r) = 1" using counts_okD(1) [OF assms(1) r(1)] by (simp add: exact_factor_def)
  moreover have "nat r \<in> set ?c" using r assms(3) by (simp add: cluster_of_eq)
  ultimately have "1 \<in> set ?xs" by force
  then have "1 \<le> sum_list ?xs" using pos by (intro member_le_sum_list) auto
  then show X: "1 \<le> exact_multiplier ins m r" by (simp add: exact_multiplier_def)
  have len: "length ?c \<le> length m" unfolding cluster_of_eq by (metis diff_zero length_filter_le length_upt)
  have "map (float_factor ins r) ?c = map (\<lambda>x. fl64 (1 + fl64 (x - 1))) ?xs"
    using float_factor_alt counts_okD [OF assms(1)] j r by simp
  then have f: "float_multiplier ins m r = foldl fadd 0 (map (\<lambda>x. fl64 (1 + fl64 (x - 1))) ?xs)"
    by (simp only: float_multiplier_def)
  have "\<bar>foldl fadd 0 (map (\<lambda>x. fl64 (1 + fl64 (x - 1))) ?xs) - sum_list ?xs\<bar>
      \<le> of_nat (length ?xs) * sum_list ?xs / 2 ^ 49"
    by (rule factor_sum_error) (use pos \<open>1 \<le> sum_list ?xs\<close> len assms(4) in auto)
  then have "\<bar>float_multiplier ins m r - exact_multiplier ins m r\<bar>
      \<le> of_nat (length ?c) * exact_multiplier ins m r / 2 ^ 49"
    by (simp only: f exact_multiplier_def length_map)
  also have "\<dots> \<le> of_nat (length m) * exact_multiplier ins m r / 2 ^ 49"
    using len X by (intro divide_right_mono mult_right_mono) simp_all
  finally show "\<bar>float_multiplier ins m r - exact_multiplier ins m r\<bar>
      \<le> of_nat (length m) * exact_multiplier ins m r / 2 ^ 49" .
qed

text \<open>The factor of the representative itself is exactly 1, and so the multiplier is at least 1.\<close>

lemma float_factor_one:
  assumes "0 < ins ! nat r" "ins ! nat r \<le> 2 ^ 53" "ins ! j = ins ! nat r"
  shows "float_factor ins r j = 1"
proof -
  have "exact_factor ins r j = 1" using assms by (simp add: exact_factor_def)
  then show ?thesis using assms fl64_int [of 1] by (simp add: float_factor_alt)
qed

lemma float_multiplier_ge_1:
  assumes "counts_ok ins m" "r \<in> set m" "m ! nat r = r"
  shows "1 \<le> float_multiplier ins m r"
proof -
  have r: "nat r < length m" using assms(1,2) by (auto simp: counts_ok_def nat_less_iff)
  have "0 \<le> float_factor ins r j" if "j \<in> set (cluster_of m r)" for j
  proof -
    have j: "j < length m" using that by (simp add: cluster_of_eq)
    have "0 \<le> exact_factor ins r j"
      using counts_okD(1) [OF assms(1) j] counts_okD(1) [OF assms(1) r] by (simp add: exact_factor_def)
    then show ?thesis
      using rounded_factor(1) counts_okD(1,2) [OF assms(1) j] counts_okD(1,2) [OF assms(1) r]
      by (simp add: float_factor_alt)
  qed
  moreover have "float_factor ins r (nat r) = 1"
    using float_factor_one counts_okD(1,2) [OF assms(1) r] by simp
  moreover have "nat r \<in> set (cluster_of m r)" using r assms(3) by (simp add: cluster_of_eq)
  ultimately have "1 \<le> foldl (\<lambda>s x. fl64 (s + x)) 0 (map (float_factor ins r) (cluster_of m r))"
    by (intro f64.sum_dominates) (auto simp: f64.rd_one intro!: image_eqI [of _ _ "nat r"])
  then show ?thesis by (simp add: float_multiplier_def fadd_def [abs_def])
qed

lemma count_exact:
  "k + n \<le> 2 ^ 53 \<Longrightarrow> foldl fadd (of_nat k) (replicate n 1) = of_nat (k + n)"
proof (induction n arbitrary: k)
  case (Suc n)
  have "fadd (of_nat k) 1 = of_nat (Suc k)"
    using fl64_int [of "int (Suc k)"] Suc.prems by (simp add: fadd_def add.commute)
  then show ?case using Suc.IH [of "Suc k"] Suc.prems by simp
qed simp

text \<open>The representatives' clusters partition the regions.\<close>

lemma cluster_sums:
  fixes f :: "nat \<Rightarrow> rat"
  assumes "distinct reps" "set m \<subseteq> set reps"
  shows "sum_list (map (\<lambda>r. sum_list (map f (cluster_of m r))) reps) = sum_list (map f [0..<length m])"
proof -
  have "sum_list (map (\<lambda>r. sum_list (map f (filter (\<lambda>j. m ! j = r) js))) reps) = sum_list (map f js)"
    if "\<forall>j \<in> set js. m ! j \<in> set reps" for js
    using that
  proof (induction js)
    case (Cons j js)
    have "sum_list (map (\<lambda>r. sum_list (map f (filter (\<lambda>j. m ! j = r) (j # js)))) reps)
        = sum_list (map (\<lambda>r. (if r = m ! j then f j else 0) + sum_list (map f (filter (\<lambda>j. m ! j = r) js))) reps)"
      by (intro arg_cong [of _ _ sum_list] map_cong) auto
    also have "\<dots> = sum_list (map (\<lambda>r. if r = m ! j then f j else 0) reps) + sum_list (map f js)"
      using Cons by (simp add: sum_list_addf)
    also have "sum_list (map (\<lambda>r. if r = m ! j then f j else 0) reps) = f j"
      using assms(1) Cons.prems by (simp add: sum_list_distinct_conv_sum_set)
    finally show ?case by simp
  qed simp
  then show ?thesis using assms(2) by (simp add: cluster_of_eq subset_iff)
qed

lemma rep_map_set: "rep_map reps m \<Longrightarrow> set m = set reps"
proof
  assume m: "rep_map reps m"
  show "set reps \<subseteq> set m"
  proof
    fix r
    assume "r \<in> set reps"
    then have "nat r < length m" "m ! nat r = r" using m by (auto simp: rep_map_def nat_less_iff)
    then show "r \<in> set m" using nth_mem by metis
  qed
qed (simp add: rep_map_def)

lemma rep_map_counts_ok:
  "rep_map reps m \<Longrightarrow> length ins = length m \<Longrightarrow> (\<And>a. a \<in> set ins \<Longrightarrow> 0 < a \<and> a \<le> 2 ^ 53) \<Longrightarrow> counts_ok ins m"
  by (auto simp: counts_ok_def rep_map_def)

lemma exact_reconstruction:
  assumes "counts_ok ins m" "distinct reps" "set m = set reps"
  shows "sum_list (map (\<lambda>r. of_int (ins ! nat r) * exact_multiplier ins m r) reps) = of_int (sum_list ins)"
proof -
  have "of_int (ins ! nat r) * exact_multiplier ins m r
      = sum_list (map (\<lambda>j. of_int (ins ! j)) (cluster_of m r))" if "r \<in> set reps" for r
  proof -
    have "nat r < length m" using that assms by (auto simp: counts_ok_def nat_less_iff)
    then have "ins ! nat r \<noteq> 0" using counts_okD(1) [OF assms(1)] by force
    then show ?thesis
      by (simp add: exact_multiplier_def exact_factor_def sum_list_const_mult [symmetric])
  qed
  then have "sum_list (map (\<lambda>r. of_int (ins ! nat r) * exact_multiplier ins m r) reps)
      = sum_list (map (\<lambda>r. sum_list (map (\<lambda>j. of_int (ins ! j)) (cluster_of m r))) reps)"
    by (intro arg_cong [of _ _ sum_list] map_cong) auto
  also have "\<dots> = sum_list (map (\<lambda>j. of_int (ins ! j)) [0..<length ins])"
    using cluster_sums [of reps m] assms by (simp add: counts_ok_def)
  also have "map (\<lambda>j. of_int (ins ! j)) [0..<length ins] = map of_int ins"
    by (rule nth_equalityI) simp_all
  also have "sum_list (map of_int ins) = (of_int (sum_list ins) :: rat)" by (induction ins) simp_all
  finally show ?thesis .
qed

lemma selection_returns:
  assumes "counts_ok ins m" "rep_map reps m"
  shows "\<exists>sf b. scaling_factors ins m = Inr sf \<and> bp_to_scaling m sf = Inr b
    \<and> selected reps b = Inr (map (\<lambda>r. (r, float_multiplier ins m r)) (sort reps))"
proof -
  obtain b where b: "bindE (scaling_factors ins m) (bp_to_scaling m) = Inr b" "length b = length m"
    "\<forall>r < length m. b ! r = float_multiplier ins m (int r)"
    using bp_to_scaling_eq [OF assms(1)] by blast
  moreover have "selected reps b = Inr (map (\<lambda>r. (r, float_multiplier ins m r)) (sort reps))"
    by (rule selected_eq) (use b assms(2) in \<open>auto simp: rep_map_def\<close>)
  ultimately show ?thesis by (auto simp: bindE_eq_Inr)
qed

lemma scaling_factors_zero:
  assumes "\<And>r. r \<in> set m \<Longrightarrow> 0 \<le> r \<and> r < int (length ins)" "length m \<le> length ins"
    and "r \<in> set m" "ins ! nat r = 0"
  shows "scaling_factors ins m = Inl ZeroDivisionError"
proof -
  have "mapE (scaling_factor ins) (List.enumerate n ms) = Inl ZeroDivisionError"
    if "\<And>r. r \<in> set ms \<Longrightarrow> 0 \<le> r \<and> r < int (length ins)" "n + length ms \<le> length ins"
      "r \<in> set ms" "ins ! nat r = 0" for n ms
    using that
  proof (induction ms arbitrary: n)
    case (Cons x ms)
    then have x: "scaling_factor ins (n, x) = (if ins ! nat x = 0 then Inl ZeroDivisionError
        else Inr (float_factor ins x n))"
      by (simp add: scaling_factor_def get_item_nat get_item_in fdiv_def fadd_def float_factor_def)
    show ?case
    proof (cases "ins ! nat x = 0")
      case False
      then have "r \<in> set ms" using Cons.prems by auto
      then have "mapE (scaling_factor ins) (List.enumerate (Suc n) ms) = Inl ZeroDivisionError"
        using Cons.prems by (intro Cons.IH) auto
      then show ?thesis using False by (simp add: x)
    qed (simp add: x)
  qed simp
  from this [of m 0] show ?thesis using assms by (simp add: scaling_factors_def)
qed

text \<open>The float multipliers, weighted by the instruction counts, against the whole run.\<close>

lemma multipliers_reconstruct:
  assumes "counts_ok ins m" "rep_map reps m" "length m \<le> 2 ^ 40"
  shows "\<bar>sum_list (map (\<lambda>r. of_int (ins ! nat r) * float_multiplier ins m r) (sort reps)) - of_int (sum_list ins)\<bar>
    \<le> of_nat (length m) * of_int (sum_list ins) / 2 ^ 49"
proof -
  let ?F = "float_multiplier ins m" and ?X = "exact_multiplier ins m"
  let ?w = "\<lambda>r. of_int (ins ! nat r) :: rat" and ?k = "of_nat (length m) / 2 ^ 49 :: rat"
  let ?rs = "sort reps"
  have near: "\<bar>?w r * ?F r - ?w r * ?X r\<bar> \<le> ?k * (?w r * ?X r)" if "r \<in> set ?rs" for r
  proof -
    have r: "r \<in> set m" "m ! nat r = r" "nat r < length m"
      using that assms(2) rep_map_set [OF assms(2)] by (auto simp: rep_map_def nat_less_iff)
    have w: "0 \<le> ?w r" using counts_okD(1) [OF assms(1) r(3)] by simp
    have "\<bar>?w r * ?F r - ?w r * ?X r\<bar> = ?w r * \<bar>?F r - ?X r\<bar>"
      using w by (simp add: right_diff_distrib [symmetric] abs_mult)
    also have "\<dots> \<le> ?w r * (of_nat (length m) * ?X r / 2 ^ 49)"
      using float_multiplier_error(1) [OF assms(1) r(1,2) assms(3)] w by (rule mult_left_mono)
    finally show ?thesis by (simp add: mult_ac)
  qed
  have near_sum: "\<bar>sum_list (map (\<lambda>r. ?w r * ?F r) rs) - sum_list (map (\<lambda>r. ?w r * ?X r) rs)\<bar>
      \<le> ?k * sum_list (map (\<lambda>r. ?w r * ?X r) rs)" if "set rs \<subseteq> set ?rs" for rs
    using that
  proof (induction rs)
    case (Cons r rs)
    then have "r \<in> set ?rs" "set rs \<subseteq> set ?rs" by simp_all
    with near [of r] Cons.IH show ?case unfolding list.map sum_list.Cons distrib_left by linarith
  qed simp
  have "sum_list (map (\<lambda>r. ?w r * ?X r) ?rs) = of_int (sum_list ins)"
    by (rule exact_reconstruction) (use assms rep_map_set [OF assms(2)] in \<open>auto simp: rep_map_def\<close>)
  then show ?thesis using near_sum [OF order_refl] by simp
qed

text \<open>The whole method on the maps of a clustering.\<close>

definition multiplier_list :: "barrier_points \<Rightarrow> int list \<Rightarrow> int list \<Rightarrow> (int \<times> rat) list" where
  "multiplier_list self m reps = map (\<lambda>r. (r, float_multiplier (ins_per_phase self) m r)) (sort reps)"

lemma select_run:
  assumes "counts_ok (ins_per_phase self) (SimPointBBMap self)" "rep_map sps (SimPointBBMap self)"
    and "counts_ok (ins_per_phase self) (SimPointBBMap_EC self)" "rep_map (simpointsEC self) (SimPointBBMap_EC self)"
    and "counts_ok (ins_per_phase self) (SimPointBBMap_EE self)" "rep_map (simpointsEE self) (SimPointBBMap_EE self)"
    and "sp_simpoints (bp_SPData self) = Some sps" "selectedBP self = Some path"
    and "writable w path" "writable w (path @ ''_EC05'')" "writable w (path @ ''_EE05'')"
    and sel: "sel = multiplier_list self (SimPointBBMap self) sps"
      "sel_EC = multiplier_list self (SimPointBBMap_EC self) (simpointsEC self)"
      "sel_EE = multiplier_list self (SimPointBBMap_EE self) (simpointsEE self)"
  shows "SelectSignificantBarrierPoints self w = Inr (True,
        self\<lparr>SelectedBarrierPoints := map fst sel, SelectedMultipliers := map snd sel,
          SelectedBarrierPoints_EC := map fst sel_EC, SelectedMultipliers_EC := map snd sel_EC,
          SelectedBarrierPoints_EE := map fst sel_EE, SelectedMultipliers_EE := map snd sel_EE\<rparr>,
        w\<lparr>files := (files w)(path := Some (selection_text sel),
          path @ ''_EC05'' := Some (selection_text sel_EC), path @ ''_EE05'' := Some (selection_text sel_EE))\<rparr>)"
proof -
  note [simp] = assms(7-11)
  let ?s = "\<lambda>m reps. map (\<lambda>r. (r, float_multiplier (ins_per_phase self) m r)) (sort reps)"
  obtain sf b where b: "scaling_factors (ins_per_phase self) (SimPointBBMap self) = Inr sf"
    "bp_to_scaling (SimPointBBMap self) sf = Inr b" "selected sps b = Inr (?s (SimPointBBMap self) sps)"
    using selection_returns [OF assms(1,2)] by blast
  obtain sfc bc where bc: "scaling_factors (ins_per_phase self) (SimPointBBMap_EC self) = Inr sfc"
    "bp_to_scaling (SimPointBBMap_EC self) sfc = Inr bc"
    "selected (simpointsEC self) bc = Inr (?s (SimPointBBMap_EC self) (simpointsEC self))"
    using selection_returns [OF assms(3,4)] by blast
  obtain sfe be where be: "scaling_factors (ins_per_phase self) (SimPointBBMap_EE self) = Inr sfe"
    "bp_to_scaling (SimPointBBMap_EE self) sfe = Inr be"
    "selected (simpointsEE self) be = Inr (?s (SimPointBBMap_EE self) (simpointsEE self))"
    using selection_returns [OF assms(5,6)] by blast
  show ?thesis
    by (simp add: SelectSignificantBarrierPoints_def b bc be Let_def write_file_def comp_def sel multiplier_list_def)
qed

section \<open>Properties\<close>

text \<open>
  C3: the multiplier of a representative is close to the exact sum of the ratios of the instruction
  counts it stands for: with \<open>n\<close> regions the relative error is at most \<open>n / 2 ^ 49\<close>, and it is
  never below 1, whatever the rounding does.
\<close>

theorem multiplier_error:
  assumes "counts_ok ins m" "rep_map reps m" "length m \<le> 2 ^ 40"
    and "bindE (scaling_factors ins m) (bp_to_scaling m) = Inr b" "r \<in> set reps"
  shows "\<bar>b ! nat r - exact_multiplier ins m r\<bar> \<le> of_nat (length m) * exact_multiplier ins m r / 2 ^ 49
    \<and> 1 \<le> b ! nat r"
proof -
  have r: "0 \<le> r" "nat r < length m" "m ! nat r = r"
    using assms(2,5) by (auto simp: rep_map_def nat_less_iff)
  then have "r \<in> set m" using nth_mem [of "nat r" m] by simp
  moreover have "b ! nat r = float_multiplier ins m r"
    using bp_to_scaling_eq [OF assms(1)] assms(4) r by auto
  ultimately show ?thesis
    using float_multiplier_error [OF assms(1)] float_multiplier_ge_1 [OF assms(1)] r(3) assms(3) by simp
qed

theorem multiplier_error_witness:
  "\<exists>b. bindE (scaling_factors [300, 100, 200] [2, 1, 2]) (bp_to_scaling [2, 1, 2]) = Inr b \<and> 1 \<le> b ! 2"
proof -
  have c: "counts_ok [300, 100, 200] [2, 1, 2]" by (simp add: counts_ok_def)
  have r: "rep_map [1, 2] [2, 1, 2]" by (simp add: rep_map_def)
  obtain b where b: "bindE (scaling_factors [300, 100, 200] [2, 1, 2]) (bp_to_scaling [2, 1, 2]) = Inr b"
    using bp_to_scaling_eq [OF c] by blast
  show ?thesis using multiplier_error [OF c r _ b, of 2] b by simp
qed

text \<open>
  C1: reconstruction. The instruction counts of the selected regions, weighted by their multipliers,
  add up to the instructions of the whole run, up to a relative error of \<open>n / 2 ^ 49\<close>.
\<close>

theorem selection_reconstructs:
  assumes "counts_ok ins m" "rep_map reps m" "length m \<le> 2 ^ 40"
    and "bindE (bindE (scaling_factors ins m) (bp_to_scaling m)) (selected reps) = Inr sel"
  shows "\<bar>sum_list (map (\<lambda>(r, x). of_int (ins ! nat r) * x) sel) - of_int (sum_list ins)\<bar>
    \<le> of_nat (length m) * of_int (sum_list ins) / 2 ^ 49"
proof -
  have "sel = map (\<lambda>r. (r, float_multiplier ins m r)) (sort reps)"
    using selection_returns [OF assms(1,2)] assms(4) by auto
  then show ?thesis using multipliers_reconstruct [OF assms(1-3)] by (simp add: comp_def)
qed

theorem selection_reconstructs_witness:
  "\<exists>sel. bindE (bindE (scaling_factors [300, 100, 200] [2, 1, 2]) (bp_to_scaling [2, 1, 2])) (selected [2, 1]) = Inr sel
     \<and> \<bar>sum_list (map (\<lambda>(r, x). of_int ([300, 100, 200] ! nat r) * x) sel) - 600\<bar> \<le> (1800 / 2 ^ 49 :: rat)"
proof -
  have c: "counts_ok [300, 100, 200] [2, 1, 2]" by (simp add: counts_ok_def)
  have r: "rep_map [2, 1] [2, 1, 2]" by (simp add: rep_map_def)
  obtain b where b: "bindE (scaling_factors [300, 100, 200] [2, 1, 2]) (bp_to_scaling [2, 1, 2]) = Inr b" "length b = 3"
    "\<forall>r < 3. b ! r = float_multiplier [300, 100, 200] [2, 1, 2] (int r)"
    using bp_to_scaling_eq [OF c] by auto
  have "selected [2, 1] b = Inr (map (\<lambda>r. (r, float_multiplier [300, 100, 200] [2, 1, 2] r)) (sort [2, 1]))"
    by (rule selected_eq [where m = "[2, 1, 2]"]) (use b in auto)
  then obtain sel where
    sel: "bindE (bindE (scaling_factors [300, 100, 200] [2, 1, 2]) (bp_to_scaling [2, 1, 2])) (selected [2, 1]) = Inr sel"
    using b(1) by simp
  show ?thesis using selection_reconstructs [OF c r _ sel] sel by auto
qed

text \<open>
  C12: when the regions of a cluster execute the same number of instructions, the multiplier is exactly
  the number of regions, with no rounding error at all.
\<close>

theorem multiplier_exact_count:
  assumes "counts_ok ins m" "rep_map reps m" "length m \<le> 2 ^ 53" "r \<in> set reps"
    and "bindE (scaling_factors ins m) (bp_to_scaling m) = Inr b"
    and "\<And>j. j < length m \<Longrightarrow> m ! j = r \<Longrightarrow> ins ! j = ins ! nat r"
  shows "b ! nat r = of_nat (length (cluster_of m r))"
proof -
  have r: "0 \<le> r" "nat r < length m" using assms(2,4) by (auto simp: rep_map_def nat_less_iff)
  have "map (float_factor ins r) (cluster_of m r) = map (\<lambda>_. 1) (cluster_of m r)"
    using float_factor_one [of ins r] counts_okD [OF assms(1) r(2)] assms(6)
    by (intro map_cong refl) (simp add: cluster_of_eq)
  then have "map (float_factor ins r) (cluster_of m r) = replicate (length (cluster_of m r)) 1"
    by (simp only: map_replicate_const)
  moreover have "length (cluster_of m r) \<le> 2 ^ 53"
    using assms(3) unfolding cluster_of_eq by (metis diff_zero le_trans length_filter_le length_upt)
  ultimately have "float_multiplier ins m r = of_nat (length (cluster_of m r))"
    using count_exact [of 0] by (simp add: float_multiplier_def)
  then show ?thesis using bp_to_scaling_eq [OF assms(1)] assms(5) r by auto
qed

theorem multiplier_exact_count_witness:
  "\<exists>b. bindE (scaling_factors [70, 9, 70, 70] [2, 1, 2, 2]) (bp_to_scaling [2, 1, 2, 2]) = Inr b \<and> b ! 2 = 3"
proof -
  have c: "counts_ok [70, 9, 70, 70] [2, 1, 2, 2]" by (simp add: counts_ok_def)
  have r: "rep_map [2, 1] [2, 1, 2, 2]" by (simp add: rep_map_def)
  obtain b where b: "bindE (scaling_factors [70, 9, 70, 70] [2, 1, 2, 2]) (bp_to_scaling [2, 1, 2, 2]) = Inr b"
    using bp_to_scaling_eq [OF c] by blast
  have "[70, 9, 70, 70 :: int] ! j = 70" if "j < 4" "[2, 1, 2, 2 :: int] ! j = 2" for j
    using that by (auto simp: less_Suc_eq numeral_eq_Suc)
  then show ?thesis
    using multiplier_exact_count [OF c r _ _ b, of 2] b by (simp add: cluster_of_eq upt_rec)
qed

text \<open>
  C10: given the maps of a clustering and positive instruction counts, the method returns \<open>True\<close> and
  each of the three selections is made of its own representatives, in increasing order, with the
  multipliers of its own map. Exactly three files are written; each has one line per representative
  of its selection, with the number of the region counted from 1 and the multiplier to four decimals.
\<close>

theorem SelectSignificantBarrierPoints_writes:
  assumes "counts_ok (ins_per_phase self) (SimPointBBMap self)" "rep_map sps (SimPointBBMap self)"
    and "counts_ok (ins_per_phase self) (SimPointBBMap_EC self)" "rep_map (simpointsEC self) (SimPointBBMap_EC self)"
    and "counts_ok (ins_per_phase self) (SimPointBBMap_EE self)" "rep_map (simpointsEE self) (SimPointBBMap_EE self)"
    and "sp_simpoints (bp_SPData self) = Some sps" "selectedBP self = Some path"
    and "writable w path" "writable w (path @ ''_EC05'')" "writable w (path @ ''_EE05'')"
  shows "SelectSignificantBarrierPoints self w = Inr (True,
      self\<lparr>SelectedBarrierPoints := sort sps,
           SelectedMultipliers := map (float_multiplier (ins_per_phase self) (SimPointBBMap self)) (sort sps),
           SelectedBarrierPoints_EC := sort (simpointsEC self),
           SelectedMultipliers_EC := map (float_multiplier (ins_per_phase self) (SimPointBBMap_EC self)) (sort (simpointsEC self)),
           SelectedBarrierPoints_EE := sort (simpointsEE self),
           SelectedMultipliers_EE := map (float_multiplier (ins_per_phase self) (SimPointBBMap_EE self)) (sort (simpointsEE self))\<rparr>,
      w\<lparr>files := (files w)(
          path := Some (concat (map (\<lambda>r. str_int (r + 1) @ '' ''
              @ fixed4 (float_multiplier (ins_per_phase self) (SimPointBBMap self) r) @ [newline]) (sort sps))),
          path @ ''_EC05'' := Some (concat (map (\<lambda>r. str_int (r + 1) @ '' ''
              @ fixed4 (float_multiplier (ins_per_phase self) (SimPointBBMap_EC self) r) @ [newline]) (sort (simpointsEC self)))),
          path @ ''_EE05'' := Some (concat (map (\<lambda>r. str_int (r + 1) @ '' ''
              @ fixed4 (float_multiplier (ins_per_phase self) (SimPointBBMap_EE self) r) @ [newline]) (sort (simpointsEE self)))))\<rparr>)"
  using select_run [OF assms refl refl refl]
  by (simp add: multiplier_list_def comp_def selection_text_def selected_line_def)

text \<open>
  An object as the clustering leaves it: two clusters, and three selections that differ. The choices
  have other instruction counts than the simpoint, so the three multipliers of the large cluster differ.
\<close>

definition sample_selection :: "barrier_points" where
  "sample_selection = sample_vectors\<lparr>ins_per_phase := [300, 100, 150, 600], selectedBP := Some ''s'',
     bp_SPData := empty_sp_data\<lparr>sp_simpoints := Some [3, 1]\<rparr>, simpointsEC := [2, 1], simpointsEE := [0, 1],
     SimPointBBMap := [3, 1, 3, 3], SimPointBBMap_EC := [2, 1, 2, 2], SimPointBBMap_EE := [0, 1, 0, 0]\<rparr>"

text \<open>The numbers of this example as text and as floats: all of them are exact.\<close>

lemma sample_digits:
  "digit_char 0 = CHR ''0''" "digit_char 1 = CHR ''1''" "digit_char 3 = CHR ''3''" "digit_char 5 = CHR ''5''"
  "digit_char 7 = CHR ''7''"
  by code_simp+

lemma sample_numbers:
  "str_nat 1 = ''1''" "str_nat 7500 = ''7500''" "str_nat 0 = ''0''" "str_nat 7 = ''7''" "str_nat 3 = ''3''"
  "str_nat 5000 = ''5000''"
  by (simp_all add: str_nat.simps sample_digits [simplified])

lemma replicate_3: "replicate 3 c = [c, c, c]"
  by (simp add: numeral_3_eq_3)

lemma sample_fixed4:
  "fixed4 (7/4) = ''1.7500''" "fixed4 1 = ''1.0000''" "fixed4 7 = ''7.0000''" "fixed4 (7/2) = ''3.5000''"
  using round_half_even_int [of 17500] round_half_even_int [of 10000] round_half_even_int [of 70000]
    round_half_even_int [of 35000]
  by (simp_all add: fixed4_def pad_left_def sample_numbers [simplified] Let_def replicate_3)

lemma fl64_quarters:
  "fl64 (- (3 / 4)) = - (3 / 4)" "fl64 (- (1 / 2)) = - (1 / 2)" "fl64 (1 / 2) = 1 / 2" "fl64 (1 / 4) = 1 / 4"
  "fl64 (3 / 4) = 3 / 4" "fl64 (7 / 4) = 7 / 4" "fl64 (3 / 2) = 3 / 2" "fl64 (7 / 2) = 7 / 2"
  using fl64_exact [of "-3" "-2"] fl64_exact [of "-1" "-1"] fl64_exact [of 1 "-1"] fl64_exact [of 1 "-2"]
    fl64_exact [of 3 "-2"] fl64_exact [of 7 "-2"] fl64_exact [of 3 "-1"] fl64_exact [of 7 "-1"]
  by (simp_all add: power_int_def power2_eq_square)

lemma fl64_ints:
  "fl64 1 = 1" "fl64 2 = 2" "fl64 3 = 3" "fl64 4 = 4" "fl64 7 = 7" "fl64 100 = 100" "fl64 150 = 150"
  "fl64 300 = 300" "fl64 450 = 450" "fl64 600 = 600" "fl64 (-150) = -150" "fl64 (-300) = -300" "fl64 (-450) = -450"
  using fl64_int [of 1] fl64_int [of 2] fl64_int [of 3] fl64_int [of 4] fl64_int [of 7] fl64_int [of 100]
    fl64_int [of 150] fl64_int [of 300] fl64_int [of 450] fl64_int [of 600] fl64_int [of "-150"] fl64_int [of "-300"]
    fl64_int [of "-450"]
  by simp_all

lemma sample_selection_multipliers:
  "map (fixed4 \<circ> float_multiplier [300, 100, 150, 600] [3, 1, 3, 3]) [1, 3] = [''1.0000'', ''1.7500'']"
  "map (fixed4 \<circ> float_multiplier [300, 100, 150, 600] [2, 1, 2, 2]) [1, 2] = [''1.0000'', ''7.0000'']"
  "map (fixed4 \<circ> float_multiplier [300, 100, 150, 600] [0, 1, 0, 0]) [0, 1] = [''3.5000'', ''1.0000'']"
  by (simp_all add: float_multiplier_def cluster_of_def float_factor_def fsub_def fadd_def fl_int_def
      fl64_quarters fl64_ints [simplified] sample_fixed4)

theorem SelectSignificantBarrierPoints_writes_witness:
  "\<exists>self' w'. SelectSignificantBarrierPoints sample_selection (fs_of []) = Inr (True, self', w')
     \<and> SelectedBarrierPoints self' = [1, 3] \<and> SelectedBarrierPoints_EC self' = [1, 2] \<and> SelectedBarrierPoints_EE self' = [0, 1]
     \<and> files w' ''s'' = Some (''2 1.0000'' @ [newline] @ ''4 1.7500'' @ [newline])
     \<and> files w' ''s_EC05'' = Some (''2 1.0000'' @ [newline] @ ''3 7.0000'' @ [newline])
     \<and> files w' ''s_EE05'' = Some (''1 3.5000'' @ [newline] @ ''2 1.0000'' @ [newline])"
proof -
  have p: "writable (fs_of []) ''s''" "writable (fs_of []) (''s'' @ ''_EC05'')" "writable (fs_of []) (''s'' @ ''_EE05'')"
    by (simp_all add: fs_of_def)
  have f [simp]: "ins_per_phase sample_selection = [300, 100, 150, 600]" "SimPointBBMap sample_selection = [3, 1, 3, 3]"
    "SimPointBBMap_EC sample_selection = [2, 1, 2, 2]" "SimPointBBMap_EE sample_selection = [0, 1, 0, 0]"
    "simpointsEC sample_selection = [2, 1]" "simpointsEE sample_selection = [0, 1]"
    by (simp_all add: sample_selection_def)
  have c: "counts_ok (ins_per_phase sample_selection) (SimPointBBMap sample_selection)"
    "counts_ok (ins_per_phase sample_selection) (SimPointBBMap_EC sample_selection)"
    "counts_ok (ins_per_phase sample_selection) (SimPointBBMap_EE sample_selection)"
    by (simp_all add: counts_ok_def)
  have r: "rep_map [3, 1] (SimPointBBMap sample_selection)"
    "rep_map (simpointsEC sample_selection) (SimPointBBMap_EC sample_selection)"
    "rep_map (simpointsEE sample_selection) (SimPointBBMap_EE sample_selection)"
    by (simp_all add: rep_map_def)
  have s: "sp_simpoints (bp_SPData sample_selection) = Some [3, 1]" "selectedBP sample_selection = Some ''s''"
    by (simp_all add: sample_selection_def)
  have n: "str_int 1 = ''1''" "str_int 2 = ''2''" "str_int 3 = ''3''" "str_int 4 = ''4''" by code_simp+
  show ?thesis
    using SelectSignificantBarrierPoints_writes [OF c(1) r(1) c(2) r(2) c(3) r(3) s(1,2) p] sample_selection_multipliers
    by (simp add: n)
qed

text \<open>
  C15: one representative that executed no instruction stops the whole method with
  \<open>ZeroDivisionError\<close>, before any selection is stored or written.
\<close>

theorem SelectSignificantBarrierPoints_empty_region:
  assumes "length (SimPointBBMap self) \<le> length (ins_per_phase self)"
    and "\<And>r. r \<in> set (SimPointBBMap self) \<Longrightarrow> 0 \<le> r \<and> r < int (length (ins_per_phase self))"
    and "r \<in> set (SimPointBBMap self)" "ins_per_phase self ! nat r = 0"
  shows "SelectSignificantBarrierPoints self w = Inl ZeroDivisionError"
  using scaling_factors_zero [OF assms(2,1,3,4)]
  by (simp add: SelectSignificantBarrierPoints_def)

theorem SelectSignificantBarrierPoints_empty_region_witness:
  "SelectSignificantBarrierPoints (sample_selection\<lparr>ins_per_phase := [300, 0, 150, 600]\<rparr>) (fs_of []) = Inl ZeroDivisionError"
  by (rule SelectSignificantBarrierPoints_empty_region [where r = 1]) (auto simp: sample_selection_def)

end
