(* ===== verification/Bp_Pipeline.thy ===== *)
theory Bp_Pipeline
  imports Bp_Select
begin

text \<open>
  \<open>BarrierPoints.CreateBarrierPoints\<close> of \<open>DrAnalysis.py\<close>: the four steps in a row, each of
  which may return \<open>False\<close> or raise. The lemmas compose the results of the steps into one
  statement about a whole run.
\<close>

definition CreateBarrierPoints ::
    "(string \<Rightarrow> fs \<Rightarrow> int \<times> fs) \<Rightarrow> (rat \<Rightarrow> string) \<Rightarrow> bool \<Rightarrow> barrier_points \<Rightarrow> fs
     \<Rightarrow> (bool \<times> barrier_points \<times> fs) res" where
  "CreateBarrierPoints bash repr dryRun self0 w0 =
     (let (ok1, self1, w1) = CreateVectors bash dryRun self0 w0 in
      if \<not> ok1 then Inr (False, self1, w1)
      else bindE (CombineBBVsandLDVs repr self1 w1) (\<lambda>(ok2, self2, w2).
      if \<not> ok2 then Inr (False, self2, w2)
      else bindE (ClusterBarrierPoints bash self2 w2) (\<lambda>(ok3, self3, w3).
      if \<not> ok3 then Inr (False, self3, w3)
      else bindE (SelectSignificantBarrierPoints self3 w3) (\<lambda>(ok4, self4, w4).
      if \<not> ok4 then Inr (False, self4, w4)
      else Inr (True, self4, w4)))))"

section \<open>The environment of a successful run\<close>

text \<open>The path all files of a run start with.\<close>

definition run_stem :: "barrier_points \<Rightarrow> string" where
  "run_stem self = bp_toolOutPath self @ ''/''
     @ run_name (bp_miniApp self) (bp_out_suffix self) (bp_nthreads self)"

text \<open>
  The files of the client, as \<open>dynamorio_client/barrierpoint.cpp\<close> writes them: one line per region. The
  first line of each file is the region before the first synchronization, with block counts \<open>c0\<close>,
  instructions per thread \<open>n0\<close> and histogram \<open>r0\<close>; the program skips it. The other lines are the regions
  with block counts \<open>cs\<close>, instructions per thread \<open>nss\<close> and histograms \<open>rs\<close>. Every region executed some
  instructions, and a histogram holds positive frequencies.
\<close>

definition first_pairs_line :: "(int \<times> int) list \<Rightarrow> string" where
  "first_pairs_line ps = ''W'' @ concat (map pair_token ps)"

definition client_files ::
    "fs \<Rightarrow> string \<Rightarrow> (int \<times> int) list \<Rightarrow> (int \<times> int) list list \<Rightarrow> int list \<Rightarrow> int list list
     \<Rightarrow> (int \<times> int) list \<Rightarrow> (int \<times> int) list list \<Rightarrow> bool" where
  "client_files w stem c0 cs n0 nss r0 rs =
     (open_read w (stem @ ''.bbv_count.gz'') = Some (file_text pairs_line (first_pairs_line c0) cs)
      \<and> open_read w (stem @ ''.bbv_inscount.gz'') = Some (file_text counts_line (counts_line n0) nss)
      \<and> open_read w (stem @ ''.ldv_bb.gz'') = Some (file_text pairs_line (first_pairs_line r0) rs)
      \<and> length nss = length rs \<and> length cs = length rs
      \<and> (\<forall>ns \<in> set nss. ns \<noteq> [] \<and> 0 < sum_list ns \<and> sum_list ns \<le> 2 ^ 53)
      \<and> (\<forall>r \<in> set rs. \<forall>(i, n) \<in> set r. 0 < n))"

text \<open>The vectors of these regions, the input of SimPoint.\<close>

definition vectors_of ::
    "(rat \<Rightarrow> string) \<Rightarrow> (int \<times> int) list list \<Rightarrow> int list list \<Rightarrow> (int \<times> int) list list \<Rightarrow> string" where
  "vectors_of repr cs nss rs =
     concat (map (region_text repr (max_id 0 rs)) (zip (map sum_list nss) (zip rs cs)))"

text \<open>The command that runs SimPoint on them, and the three files of a clustering it leaves.\<close>

definition simpoint_cmd :: "string \<Rightarrow> string" where
  "simpoint_cmd stem =
     execCmd (new_simpoints (stem @ ''.bpv.gz'') (FixedStr ''off'') False 20 15 (stem @ ''.barrierpoints_''))"

definition simpoint_files ::
    "fs \<Rightarrow> string \<Rightarrow> (string \<times> int) list \<Rightarrow> int list \<Rightarrow> (int \<times> string) list \<Rightarrow> bool" where
  "simpoint_files w stem ws sps ls =
     (open_read w (stem @ ''.barrierpoints_t.weights'') = Some (weights_text ws)
      \<and> open_read w (stem @ ''.barrierpoints_t.simpoints'') = Some (simpoints_text (zip sps (map snd ws)))
      \<and> open_read w (stem @ ''.barrierpoints_t.labels'') = Some (labels_text ls)
      \<and> sp_wf (map snd ws) sps (map fst ls) (map (decimal_value \<circ> snd) ls)
      \<and> (\<forall>x \<in> fst ` set ws \<union> snd ` set ls. decimal x))"

definition weighted_total :: "int list \<Rightarrow> int list \<Rightarrow> rat list \<Rightarrow> rat" where
  "weighted_total ins sps mults = sum_list (map (\<lambda>(r, x). of_int (ins ! nat r) * x) (zip sps mults))"

text \<open>
  A selection with its multipliers reconstructs the run: the weighted instruction counts of the
  selected regions are within relative error \<open>n / 2 ^ 49\<close> of the total.
\<close>

definition reconstructs :: "int list \<Rightarrow> int list \<Rightarrow> rat list \<Rightarrow> bool" where
  "reconstructs ins bps mults =
     (\<bar>weighted_total ins bps mults - of_int (sum_list ins)\<bar>
        \<le> of_nat (length ins) * of_int (sum_list ins) / 2 ^ 49)"

definition selection_of :: "int list \<Rightarrow> int list \<Rightarrow> int list \<Rightarrow> int list \<Rightarrow> rat list \<Rightarrow> bool" where
  "selection_of ins reps m bps mults =
     (rep_map reps m \<and> counts_ok ins m \<and> bps = sort reps \<and> mults = map (float_multiplier ins m) (sort reps))"

lemma selection_of_reconstructs:
  assumes "selection_of ins reps m bps mults" "length ins \<le> 2 ^ 40"
  shows "reconstructs ins bps mults"
proof -
  have s: "rep_map reps m" "counts_ok ins m" "bps = sort reps" "mults = map (float_multiplier ins m) (sort reps)"
    using assms(1) by (simp_all add: selection_of_def)
  have len: "length m = length ins" using s(2) by (simp add: counts_ok_def)
  have "map (\<lambda>(r, x). of_int (ins ! nat r) * x) (zip rs (map f rs)) = map (\<lambda>r. of_int (ins ! nat r) * f r) rs"
    for f :: "int \<Rightarrow> rat" and rs
    by (induction rs) simp_all
  then show ?thesis
    using multipliers_reconstruct [OF s(2,1)] assms(2) len by (simp add: reconstructs_def weighted_total_def s(3,4))
qed

lemma SimPoints_init_run:
  assumes "bash (simpoint_cmd stem) w = (0, w')" and tool: "simpoint_files w' stem ws sps ls"
  shows "\<exists>sim. SimPoints_init bash (stem @ ''.bpv.gz'') (FixedStr ''off'') False 20 15 (stem @ ''.barrierpoints_'') w = Inr (sim, w')
    \<and> SPData sim = \<lparr>sp_id = Some (map snd ws), sp_weights = Some (map (decimal_value \<circ> fst) ws),
        sp_simpoints = Some sps, sp_labels = Some (map fst ls), sp_match = Some (map (decimal_value \<circ> snd) ls)\<rparr>"
proof -
  let ?s = "new_simpoints (stem @ ''.bpv.gz'') (FixedStr ''off'') False 20 15 (stem @ ''.barrierpoints_'')"
  have files: "open_read w' (tWeights ?s) = Some (weights_text ws)"
    "open_read w' (tSimPoints ?s) = Some (simpoints_text (zip sps (map snd ws)))"
    "open_read w' (tLabels ?s) = Some (labels_text ls)" and len: "length sps = length ws"
    and dec: "\<forall>x \<in> fst ` set ws \<union> snd ` set ls. decimal x"
    using tool by (simp_all add: simpoint_files_def sp_wf_def)
  have "AnalysisSimPoints ?s w' = Inr (True, ?s\<lparr>SPData := \<lparr>sp_id = Some (map snd ws),
      sp_weights = Some (map (decimal_value \<circ> fst) ws), sp_simpoints = Some sps,
      sp_labels = Some (map fst ls), sp_match = Some (map (decimal_value \<circ> snd) ls)\<rparr>\<rparr>, clean_files ?s w')"
    by (rule analysis_complete [OF _ files len]) (use dec in force)+
  then show ?thesis using assms(1) by (simp add: SimPoints_init_def RunSimPoints_def simpoint_cmd_def clean_files_def)
qed

text \<open>The client has run, unless this is a dry run.\<close>

definition client_ran :: "(string \<Rightarrow> fs \<Rightarrow> int \<times> fs) \<Rightarrow> bool \<Rightarrow> barrier_points \<Rightarrow> fs \<Rightarrow> fs \<Rightarrow> bool" where
  "client_ran bash dry self w w1 =
     (if dry then w1 = w else bash (drrun_cmd self (run_stem self) w) w = (0, w1))"

definition with_vectors :: "barrier_points \<Rightarrow> barrier_points" where
  "with_vectors self = self\<lparr>BBV_count := Some (run_stem self @ ''.bbv_count.gz''),
      BBV_inscount := Some (run_stem self @ ''.bbv_inscount.gz''), LDV_reuse := Some (run_stem self @ ''.ldv_bb.gz'')\<rparr>"

lemma CreateVectors_run:
  assumes "is_file w ''./dynamorio_client/build/libbarrierpoint.so''" "dirs w (bp_toolOutPath self)"
    and "client_ran bash dry self w w1"
  shows "CreateVectors bash dry self w = (True, with_vectors self, w1)"
proof -
  have "drrun_cmd (with_vectors self) p w = drrun_cmd self p w" for p by (simp add: drrun_cmd_def with_vectors_def)
  then show ?thesis
    using assms by (auto simp: CreateVectors_def ensure_out_path_def run_stem_def client_ran_def with_vectors_def Let_def)
qed

lemma first_pairs_line_one_line: "newline \<notin> set (first_pairs_line ps)"
  using pairs_line_one_line [of ps] by (simp add: first_pairs_line_def pairs_line_def)

lemma combine_client_files:
  assumes "client_files w (run_stem self) c0 cs n0 nss r0 rs" "writable w (run_stem self @ ''.bpv.gz'')"
  shows "CombineBBVsandLDVs repr (with_vectors self) w = Inr (True,
      (with_vectors self)\<lparr>BP := Some (run_stem self @ ''.bpv.gz''), selectedBP := Some (run_stem self @ ''.barrierpoints''),
        temporalSPfiles := run_stem self @ ''.barrierpoints_'', ins_per_phase := map sum_list nss\<rparr>,
      w\<lparr>files := (files w)(run_stem self @ ''.bpv.gz'' := Some (vectors_of repr cs nss rs))\<rparr>)"
proof -
  have "sum_list (map snd r) \<noteq> 0" if r: "r \<in> set rs" "r \<noteq> []" for r
  proof -
    have "0 < x" if "x \<in> set (map snd r)" for x using assms(1) r(1) that by (fastforce simp: client_files_def)
    moreover obtain y ys where "map snd r = y # ys" using r(2) by (cases r) auto
    ultimately have "0 < y" "0 \<le> sum_list ys" by (auto intro!: sum_list_nonneg simp: less_imp_le)
    then show ?thesis by (simp add: \<open>map snd r = y # ys\<close>)
  qed
  moreover have "newline \<notin> set (counts_line n0)"
    unfolding counts_line_def using str_int_no_sep by (intro join_one_line) auto
  ultimately show ?thesis
    unfolding vectors_of_def
    using assms first_pairs_line_one_line
    by (intro combine_run [of _ "run_stem self @ ''.bbv_count.gz''" "run_stem self @ ''.bbv_inscount.gz''"
        "run_stem self @ ''.ldv_bb.gz''" w "first_pairs_line c0" cs "counts_line n0" nss "first_pairs_line r0" rs])
      (simp_all add: client_files_def with_vectors_def run_stem_def)
qed

section \<open>The pipeline\<close>

lemma pipeline_run:
  assumes lib: "is_file w ''./dynamorio_client/build/libbarrierpoint.so''" "dirs w (bp_toolOutPath self)"
    and client: "client_ran bash dry self w w1" "client_files w1 (run_stem self) c0 cs n0 nss r0 rs"
    and tool: "bash (simpoint_cmd (run_stem self))
        (w1\<lparr>files := (files w1)(run_stem self @ ''.bpv.gz'' := Some (vectors_of repr cs nss rs))\<rparr>) = (0, w3)"
      "simpoint_files w3 (run_stem self) ws sps ls" "length ls = length nss"
    and perm: "writable w1 (run_stem self @ ''.bpv.gz'')" "writable w3 (run_stem self @ ''.barrierpoints'')"
      "writable w3 (run_stem self @ ''.barrierpoints_EC05'')" "writable w3 (run_stem self @ ''.barrierpoints_EE05'')"
  shows "\<exists>self' w' m ecs ees. CreateBarrierPoints bash repr dry self w = Inr (True, self', w')
    \<and> ins_per_phase self' = map sum_list nss
    \<and> selection_of (map sum_list nss) sps m (SelectedBarrierPoints self') (SelectedMultipliers self')
    \<and> selection_of (map sum_list nss) ecs (remap (zip sps ecs) m) (SelectedBarrierPoints_EC self') (SelectedMultipliers_EC self')
    \<and> selection_of (map sum_list nss) ees (remap (zip sps ees) m) (SelectedBarrierPoints_EE self') (SelectedMultipliers_EE self')
    \<and> (\<forall>k < length sps. ecs ! k \<le> sps ! k \<and> ees ! k \<le> sps ! k)
    \<and> files w' (run_stem self @ ''.barrierpoints'')
        = Some (selection_text (zip (SelectedBarrierPoints self') (SelectedMultipliers self')))
    \<and> files w' (run_stem self @ ''.barrierpoints_EC05'')
        = Some (selection_text (zip (SelectedBarrierPoints_EC self') (SelectedMultipliers_EC self')))
    \<and> files w' (run_stem self @ ''.barrierpoints_EE05'')
        = Some (selection_text (zip (SelectedBarrierPoints_EE self') (SelectedMultipliers_EE self')))"
proof -
  let ?st = "run_stem self" and ?ins = "map sum_list nss"
  let ?self2 = "(with_vectors self)\<lparr>BP := Some (?st @ ''.bpv.gz''), selectedBP := Some (?st @ ''.barrierpoints''),
        temporalSPfiles := ?st @ ''.barrierpoints_'', ins_per_phase := ?ins\<rparr>"
  let ?w2 = "w1\<lparr>files := (files w1)(?st @ ''.bpv.gz'' := Some (vectors_of repr cs nss rs))\<rparr>"
  obtain sim where sim: "SimPoints_init bash (?st @ ''.bpv.gz'') (FixedStr ''off'') False 20 15 (?st @ ''.barrierpoints_'') ?w2 = Inr (sim, w3)"
    and data: "SPData sim = \<lparr>sp_id = Some (map snd ws), sp_weights = Some (map (decimal_value \<circ> fst) ws),
        sp_simpoints = Some sps, sp_labels = Some (map fst ls), sp_match = Some (map (decimal_value \<circ> snd) ls)\<rparr>"
    using SimPoints_init_run [of bash ?st ?w2 w3 ws sps ls, OF tool(1,2)] by blast
  have sim2: "SimPoints_init bash (format_opt (BP ?self2)) (FixedStr ''off'') False 20 15 (temporalSPfiles ?self2) ?w2 = Inr (sim, w3)"
    using sim by (simp add: format_opt_def)
  have wf: "sp_wf (map snd ws) sps (map fst ls) (map (decimal_value \<circ> snd) ls)"
    using tool(2) by (simp add: simpoint_files_def)
  obtain m ecs ees where clu: "ClusterBarrierPoints bash ?self2 ?w2 = Inr (True,
      ?self2\<lparr>bp_SPData := SPData sim, simpointsEC := ecs, simpointsEE := ees, SimPointBBMap := m,
        SimPointBBMap_EC := remap (zip sps ecs) m, SimPointBBMap_EE := remap (zip sps ees) m\<rparr>, w3)"
    (is "_ = Inr (True, ?self3, _)")
    and len: "length m = length (map fst ls)"
    and reps: "rep_map sps m" "rep_map ecs (remap (zip sps ecs) m)" "rep_map ees (remap (zip sps ees) m)"
    and le: "\<forall>k < length (map snd ws). \<forall>e \<in> {ecs ! k, ees ! k}. 0 \<le> e \<and> e \<le> sps ! k"
    using cluster_run [OF sim2 data wf] by blast
  have ins: "0 < a \<and> a \<le> 2 ^ 53" if "a \<in> set ?ins" for a
    using that client(2) by (auto simp: client_files_def)
  have ok: "counts_ok ?ins m'" if "rep_map reps m'" "length m' = length m" for reps m'
    by (rule rep_map_counts_ok [OF that(1)]) (use ins that(2) len tool(3) in simp_all)
  have cok: "counts_ok ?ins m" "counts_ok ?ins (remap (zip sps ecs) m)" "counts_ok ?ins (remap (zip sps ees) m)"
    using ok [OF reps(1)] ok [OF reps(2)] ok [OF reps(3)] by (simp_all add: remap_eq)
  let ?sel = "multiplier_list ?self3 m sps" and ?sel_EC = "multiplier_list ?self3 (remap (zip sps ecs) m) ecs"
  let ?sel_EE = "multiplier_list ?self3 (remap (zip sps ees) m) ees"
  let ?self4 = "?self3\<lparr>SelectedBarrierPoints := map fst ?sel, SelectedMultipliers := map snd ?sel,
          SelectedBarrierPoints_EC := map fst ?sel_EC, SelectedMultipliers_EC := map snd ?sel_EC,
          SelectedBarrierPoints_EE := map fst ?sel_EE, SelectedMultipliers_EE := map snd ?sel_EE\<rparr>"
  let ?w4 = "w3\<lparr>files := (files w3)(?st @ ''.barrierpoints'' := Some (selection_text ?sel),
          (?st @ ''.barrierpoints'') @ ''_EC05'' := Some (selection_text ?sel_EC),
          (?st @ ''.barrierpoints'') @ ''_EE05'' := Some (selection_text ?sel_EE))\<rparr>"
  have sel: "SelectSignificantBarrierPoints ?self3 w3 = Inr (True, ?self4, ?w4)"
    by (rule select_run) (use cok reps data perm(2-4) in simp_all)
  have run: "CreateBarrierPoints bash repr dry self w = Inr (True, ?self4, ?w4)"
    unfolding CreateBarrierPoints_def CreateVectors_run [OF lib client(1)] Let_def prod.case
    by (simp only: combine_client_files [OF client(2) perm(1)] clu sel bindE_Inr prod.case not_True_eq_False if_False)
  have fst_snd: "map fst (multiplier_list ?self3 m' r) = sort r"
    "map snd (multiplier_list ?self3 m' r) = map (float_multiplier ?ins m') (sort r)" for m' r
    by (simp_all add: multiplier_list_def comp_def)
  have "length ws = length sps" using wf by (simp add: sp_wf_def)
  then have "\<forall>k < length sps. ecs ! k \<le> sps ! k \<and> ees ! k \<le> sps ! k" using le by simp
  moreover have "files ?w4 (?st @ ''.barrierpoints'') = Some (selection_text (zip (map fst ?sel) (map snd ?sel)))"
    "files ?w4 (?st @ ''.barrierpoints_EC05'') = Some (selection_text (zip (map fst ?sel_EC) (map snd ?sel_EC)))"
    "files ?w4 (?st @ ''.barrierpoints_EE05'') = Some (selection_text (zip (map fst ?sel_EE) (map snd ?sel_EE)))"
    by (simp_all add: zip_map_fst_snd)
  moreover have "selection_of ?ins sps m (SelectedBarrierPoints ?self4) (SelectedMultipliers ?self4)"
    "selection_of ?ins ecs (remap (zip sps ecs) m) (SelectedBarrierPoints_EC ?self4) (SelectedMultipliers_EC ?self4)"
    "selection_of ?ins ees (remap (zip sps ees) m) (SelectedBarrierPoints_EE ?self4) (SelectedMultipliers_EE ?self4)"
    using reps cok by (simp_all add: selection_of_def fst_snd)
  ultimately show ?thesis
    by (intro exI [of _ ?self4] exI [of _ ?w4] exI [of _ m] exI [of _ ecs] exI [of _ ees] conjI run) simp_all
qed

section \<open>Properties\<close>

text \<open>
  C2: a whole run. The client has left its files, in this run or, with \<open>dryRun\<close>, in an earlier one; the
  vectors made of them are clustered by a SimPoint run that succeeds. Then the method returns \<open>True\<close>;
  each of the three selections reconstructs the instructions of the run up to a relative error of
  \<open>n / 2 ^ 49\<close>; the alternative representatives never come later than the simpoints, and the three
  \<open>.barrierpoints\<close> files list the selections.
\<close>

theorem CreateBarrierPoints_run:
  assumes "is_file w ''./dynamorio_client/build/libbarrierpoint.so''" "dirs w (bp_toolOutPath self)"
    and "client_ran bash dry self w w1" "client_files w1 (run_stem self) c0 cs n0 nss r0 rs" "length nss \<le> 2 ^ 40"
    and "bash (simpoint_cmd (run_stem self))
        (w1\<lparr>files := (files w1)(run_stem self @ ''.bpv.gz'' := Some (vectors_of repr cs nss rs))\<rparr>) = (0, w3)"
      "simpoint_files w3 (run_stem self) ws sps ls" "length ls = length nss"
    and "writable w1 (run_stem self @ ''.bpv.gz'')" "writable w3 (run_stem self @ ''.barrierpoints'')"
      "writable w3 (run_stem self @ ''.barrierpoints_EC05'')" "writable w3 (run_stem self @ ''.barrierpoints_EE05'')"
  shows "\<exists>self' w' ecs ees. CreateBarrierPoints bash repr dry self w = Inr (True, self', w')
    \<and> ins_per_phase self' = map sum_list nss
    \<and> SelectedBarrierPoints self' = sort sps
    \<and> SelectedBarrierPoints_EC self' = sort ecs \<and> SelectedBarrierPoints_EE self' = sort ees
    \<and> (\<forall>k < length sps. ecs ! k \<le> sps ! k \<and> ees ! k \<le> sps ! k)
    \<and> reconstructs (map sum_list nss) (SelectedBarrierPoints self') (SelectedMultipliers self')
    \<and> reconstructs (map sum_list nss) (SelectedBarrierPoints_EC self') (SelectedMultipliers_EC self')
    \<and> reconstructs (map sum_list nss) (SelectedBarrierPoints_EE self') (SelectedMultipliers_EE self')
    \<and> files w' (run_stem self @ ''.barrierpoints'')
        = Some (selection_text (zip (SelectedBarrierPoints self') (SelectedMultipliers self')))
    \<and> files w' (run_stem self @ ''.barrierpoints_EC05'')
        = Some (selection_text (zip (SelectedBarrierPoints_EC self') (SelectedMultipliers_EC self')))
    \<and> files w' (run_stem self @ ''.barrierpoints_EE05'')
        = Some (selection_text (zip (SelectedBarrierPoints_EE self') (SelectedMultipliers_EE self')))"
proof -
  have n: "length (map sum_list nss) \<le> 2 ^ 40" using assms(5) by simp
  have b: "bps = sort reps \<and> reconstructs (map sum_list nss) bps mults"
    if "selection_of (map sum_list nss) reps m' bps mults" for reps m' bps mults
    using selection_of_reconstructs [OF that n] that by (simp add: selection_of_def)
  note run = pipeline_run [OF assms(1-4,6-12)]
  then obtain self' w' m ecs ees where r: "CreateBarrierPoints bash repr dry self w = Inr (True, self', w')"
    "ins_per_phase self' = map sum_list nss" "\<forall>k < length sps. ecs ! k \<le> sps ! k \<and> ees ! k \<le> sps ! k"
    and f: "files w' (run_stem self @ ''.barrierpoints'')
      = Some (selection_text (zip (SelectedBarrierPoints self') (SelectedMultipliers self')))"
      "files w' (run_stem self @ ''.barrierpoints_EC05'')
        = Some (selection_text (zip (SelectedBarrierPoints_EC self') (SelectedMultipliers_EC self')))"
      "files w' (run_stem self @ ''.barrierpoints_EE05'')
        = Some (selection_text (zip (SelectedBarrierPoints_EE self') (SelectedMultipliers_EE self')))"
    and sel: "selection_of (map sum_list nss) sps m (SelectedBarrierPoints self') (SelectedMultipliers self')"
    "selection_of (map sum_list nss) ecs (remap (zip sps ecs) m) (SelectedBarrierPoints_EC self') (SelectedMultipliers_EC self')"
    "selection_of (map sum_list nss) ees (remap (zip sps ees) m) (SelectedBarrierPoints_EE self') (SelectedMultipliers_EE self')"
    by (elim exE conjE)
  show ?thesis using r f b [OF sel(1)] b [OF sel(2)] b [OF sel(3)] by blast
qed

text \<open>
  A run of four regions, of which the first one is skipped, in two clusters. The shell knows the two
  commands of the run only: the client's, which leaves its files, and SimPoint's, which fails unless
  its input holds the vectors of these regions.
\<close>

definition sample_dir :: fs where
  "sample_dir = (fs_of [(''./dynamorio_client/build/libbarrierpoint.so'', [])])\<lparr>dirs := \<lambda>p. p = ''o''\<rparr>"

definition sample_client_dir :: fs where
  "sample_client_dir = fs_of
     [(''./dynamorio_client/build/libbarrierpoint.so'', []),
      (''o/mm.2t.bbv_count.gz'', file_text pairs_line (first_pairs_line [(3, 9)]) [[(1, 60)], [(1, 80)], [(2, 7)]]),
      (''o/mm.2t.bbv_inscount.gz'', file_text counts_line (counts_line [12, 0]) [[150, 150], [60, 40], [100, 100]]),
      (''o/mm.2t.ldv_bb.gz'', file_text pairs_line (first_pairs_line []) [[(1, 30), (3, 10)], [], [(2, 5)]])]"

definition sample_clustering_dir :: fs where
  "sample_clustering_dir = fs_of
     [(''o/mm.2t.barrierpoints_t.weights'', weights_text [(''0.5'', 0), (''0.5'', 1)]),
      (''o/mm.2t.barrierpoints_t.simpoints'', simpoints_text [(2, 0), (1, 1)]),
      (''o/mm.2t.barrierpoints_t.labels'', labels_text [(0, ''0.5''), (1, ''0''), (0, ''0'')])]"

definition sample_shell :: "string \<Rightarrow> fs \<Rightarrow> int \<times> fs" where
  "sample_shell cmd w =
     (if cmd = simpoint_cmd ''o/mm.2t'' then
        (if open_read w ''o/mm.2t.bpv.gz''
            = Some (vectors_of (\<lambda>_. ''x'') [[(1, 60)], [(1, 80)], [(2, 7)]] [[150, 150], [60, 40], [100, 100]]
                      [[(1, 30), (3, 10)], [], [(2, 5)]])
         then (0, sample_clustering_dir) else (1, w))
      else if cmd = drrun_cmd sample_vectors ''o/mm.2t'' sample_dir then (0, sample_client_dir)
      else (127, w))"

lemma sample_clustering_files:
  "simpoint_files sample_clustering_dir ''o/mm.2t'' [(''0.5'', 0), (''0.5'', 1)] [2, 1] [(0, ''0.5''), (1, ''0''), (0, ''0'')]"
proof -
  have d: "py_float ''0'' = Inr 0" "py_float ''0.5'' = Inr (1 / 2)" by code_simp+
  note dec = d [THEN decimalI [rotated]]
  have words: "decimal ''0'' \<and> decimal ''0.5''" by (intro conjI dec) (simp_all add: word_def is_space_def)
  have "is_float (1 / 2)" "is_float 0" by code_simp+
  then have fl: "\<forall>x \<in> set [1 / 2, 0, 0 :: rat]. 0 \<le> x \<and> is_float x" by simp
  have "0 \<le> [2, 1 :: int] ! k \<and> [2, 1 :: int] ! k < 3 \<and> [0, 1, 0 :: int] ! nat ([2, 1] ! k) = [0, 1] ! k"
    if "k < 2" for k :: nat
    using that by (cases k) (simp_all add: less_Suc_eq numeral_2_eq_2)
  then have wf: "sp_wf [0, 1] [2, 1] [0, 1, 0] [1 / 2, 0, 0]" using fl by (simp add: sp_wf_def)
  show ?thesis
    using words wf by (simp add: simpoint_files_def sample_clustering_dir_def decimal_value_def d)
qed

lemma sample_run_stem: "run_stem sample_vectors = ''o/mm.2t''"
proof -
  have "str_int 2 = ''2''" by code_simp
  then show ?thesis by (simp add: run_stem_def run_name_def)
qed

theorem CreateBarrierPoints_run_witness:
  "\<exists>self' w'. CreateBarrierPoints sample_shell (\<lambda>_. ''x'') False sample_vectors sample_dir = Inr (True, self', w')
     \<and> SelectedBarrierPoints self' = [1, 2]
     \<and> reconstructs [300, 100, 200] [1, 2] (SelectedMultipliers self')"
proof -
  have "drrun_cmd sample_vectors ''o/mm.2t'' sample_dir \<noteq> simpoint_cmd ''o/mm.2t''"
    by (simp add: drrun_cmd_def simpoint_cmd_def new_simpoints_def exec_cmd_def Let_def)
  then have client: "client_ran sample_shell False sample_vectors sample_dir sample_client_dir"
    by (simp add: client_ran_def sample_shell_def sample_run_stem)
  have files: "client_files sample_client_dir (run_stem sample_vectors) [(3, 9)] [[(1, 60)], [(1, 80)], [(2, 7)]]
      [12, 0] [[150, 150], [60, 40], [100, 100]] [] [[(1, 30), (3, 10)], [], [(2, 5)]]"
    by (simp add: client_files_def sample_client_dir_def sample_run_stem)
  have w: "is_file sample_dir ''./dynamorio_client/build/libbarrierpoint.so''" "dirs sample_dir (bp_toolOutPath sample_vectors)"
    "writable sample_client_dir p" "writable sample_clustering_dir p" "readable sample_client_dir p" for p
    by (simp_all add: sample_dir_def sample_client_dir_def sample_clustering_dir_def is_file_def fs_of_def)
  have tool: "sample_shell (simpoint_cmd (run_stem sample_vectors))
      (sample_client_dir\<lparr>files := (files sample_client_dir)(run_stem sample_vectors @ ''.bpv.gz'' :=
         Some (vectors_of (\<lambda>_. ''x'') [[(1, 60)], [(1, 80)], [(2, 7)]] [[150, 150], [60, 40], [100, 100]]
           [[(1, 30), (3, 10)], [], [(2, 5)]]))\<rparr>) = (0, sample_clustering_dir)"
    using w(5) by (simp add: sample_shell_def sample_run_stem open_read_def)
  have "simpoint_files sample_clustering_dir (run_stem sample_vectors) [(''0.5'', 0), (''0.5'', 1)] [2, 1]
      [(0, ''0.5''), (1, ''0''), (0, ''0'')]"
    using sample_clustering_files by (simp add: sample_run_stem)
  then show ?thesis
    using CreateBarrierPoints_run [OF w(1,2) client files _ tool _ _ w(3,4,4,4)] by fastforce
qed

end
