(* ===== verification/Py_Json.thy ===== *)
theory Py_Json
  imports Py_Text
begin

text \<open>
  The configuration of the three programs: a value of \<open>json.load\<close> and what the programs do with it.
  An object is the list of its members in the order of the file, with the last of equal keys.
\<close>

datatype json =
  JNull
| JBool bool
| JInt int
| JFloat rat
| JStr string
| JArr "json list"
| JObj "(string \<times> json) list"

text \<open>\<open>j[k]\<close> with a string key.\<close>

definition json_get :: "json \<Rightarrow> string \<Rightarrow> json res" where
  "json_get j k = (case j of JObj kvs \<Rightarrow> key (map_of kvs k) | _ \<Rightarrow> Inl TypeError)"

text \<open>\<open>if j:\<close>.\<close>

definition truthy :: "json \<Rightarrow> bool" where
  "truthy j = (case j of JNull \<Rightarrow> False | JBool b \<Rightarrow> b | JInt n \<Rightarrow> n \<noteq> 0 | JFloat q \<Rightarrow> q \<noteq> 0
     | JStr s \<Rightarrow> s \<noteq> [] | JArr xs \<Rightarrow> xs \<noteq> [] | JObj kvs \<Rightarrow> kvs \<noteq> [])"

text \<open>\<open>for x in j\<close>.\<close>

definition json_iter :: "json \<Rightarrow> json list res" where
  "json_iter j = (case j of JArr xs \<Rightarrow> Inr xs | JStr s \<Rightarrow> Inr (map (\<lambda>c. JStr [c]) s)
     | JObj kvs \<Rightarrow> Inr (map (JStr \<circ> fst) kvs) | _ \<Rightarrow> Inl TypeError)"

text \<open>\<open>range(j)\<close>.\<close>

definition json_range :: "json \<Rightarrow> int list res" where
  "json_range j = (case j of JInt n \<Rightarrow> Inr [0..n - 1] | JBool b \<Rightarrow> Inr (if b then [0] else []) | _ \<Rightarrow> Inl TypeError)"

text \<open>\<open>j + s\<close> with a string \<open>s\<close>.\<close>

definition json_append :: "json \<Rightarrow> string \<Rightarrow> string res" where
  "json_append j s = (case j of JStr t \<Rightarrow> Inr (t @ s) | _ \<Rightarrow> Inl TypeError)"

text \<open>The values the model of a program takes; values of other types are outside the model.\<close>

definition json_str :: "json \<Rightarrow> string res" where
  "json_str j = (case j of JStr s \<Rightarrow> Inr s | _ \<Rightarrow> Inl OutOfModel)"

definition json_int :: "json \<Rightarrow> int res" where
  "json_int j = (case j of JInt n \<Rightarrow> Inr n | _ \<Rightarrow> Inl OutOfModel)"

lemma json_simps [simp]:
  "json_get (JObj kvs) k = key (map_of kvs k)" "json_iter (JArr xs) = Inr xs"
  "json_range (JInt n) = Inr [0..n - 1]" "json_append (JStr t) s = Inr (t @ s)"
  "json_str (JStr t) = Inr t" "json_int (JInt n) = Inr n" "truthy (JBool b) = b"
  by (simp_all add: json_get_def json_iter_def json_range_def json_append_def json_str_def json_int_def truthy_def)

text \<open>\<open>itertools.product\<close> of two and of three sequences, the last one varying fastest.\<close>

definition product2 :: "'a list \<Rightarrow> 'b list \<Rightarrow> ('a \<times> 'b) list" where
  "product2 xs ys = concat (map (\<lambda>x. map (Pair x) ys) xs)"

definition product3 :: "'a list \<Rightarrow> 'b list \<Rightarrow> 'c list \<Rightarrow> ('a \<times> 'b \<times> 'c) list" where
  "product3 xs ys zs = product2 xs (product2 ys zs)"

lemma product2_Nil [simp]: "product2 [] ys = []" "product2 xs [] = []"
  by (simp add: product2_def) (induction xs; simp add: product2_def)

lemma set_product2 [simp]: "set (product2 xs ys) = set xs \<times> set ys"
  by (auto simp: product2_def)

lemma length_product2 [simp]: "length (product2 xs ys) = length xs * length ys"
  by (simp add: product2_def length_concat comp_def sum_list_triv)

lemma distinct_product2: "distinct xs \<Longrightarrow> distinct ys \<Longrightarrow> distinct (product2 xs ys)"
  unfolding product2_def by (induction xs) (auto simp: distinct_map inj_on_def)

lemma map_product2: "map (\<lambda>(x, y). (f x, g y)) (product2 xs ys) = product2 (map f xs) (map g ys)"
  unfolding product2_def by (induction xs) (simp_all add: comp_def)

end
