(* ===== verification/Bp_Driver.thy ===== *)
theory Bp_Driver
  imports Bp_Pipeline Py_Json
begin

text \<open>
  The function \<open>main\<close> of \<open>DrAnalysis.py\<close>: the settings are read from the parsed configuration, and
  the analysis runs for every application, thread count, suffix and iteration in turn. Logging and the
  printed summary are not modelled.
\<close>

record dr_settings =
  ds_benchpath :: json
  ds_outpath :: string
  ds_dry_run :: bool
  ds_suffix :: json
  ds_threads :: json
  ds_iters :: json

definition read_settings :: "json \<Rightarrow> dr_settings res" where
  "read_settings j =
     bindE (json_get j ''paths'') (\<lambda>paths.
     bindE (json_get paths ''rootdir'') (\<lambda>_.
     bindE (json_get paths ''benchpath'') (\<lambda>benchp.
     bindE (json_get paths ''libspath'') (\<lambda>_.
     bindE (json_get j ''dry_run'') (\<lambda>dry.
     bindE (json_get j ''Debug'') (\<lambda>_.
     bindE (json_get paths ''outpath'') (\<lambda>out.
     bindE (json_append out ''/barriers'') (\<lambda>outp.
     bindE (json_get j ''Suffix'') (\<lambda>suf.
     bindE (json_get j ''threads'') (\<lambda>nt.
     bindE (json_get j ''DR_iterations'') (\<lambda>it.
       Inr \<lparr>ds_benchpath = benchp, ds_outpath = outp, ds_dry_run = truthy dry,
            ds_suffix = suf, ds_threads = nt, ds_iters = it\<rparr>)))))))))))"

text \<open>\<open>for app in json_data["Application"]: app_dict[app] = json_data["Application"][app]\<close>.\<close>

definition app_dict :: "json \<Rightarrow> (string \<times> json) list res" where
  "app_dict j =
     bindE (json_get j ''Application'') (\<lambda>apps.
       case apps of JObj kvs \<Rightarrow> Inr kvs | JArr [] \<Rightarrow> Inr [] | JStr [] \<Rightarrow> Inr [] | _ \<Rightarrow> Inl TypeError)"

text \<open>The body of the inner loop: one object is created and appended, its analysis runs, a result of \<open>False\<close> is only logged.\<close>

definition dr_iteration ::
    "(string \<Rightarrow> fs \<Rightarrow> int \<times> fs) \<Rightarrow> (rat \<Rightarrow> string) \<Rightarrow> dr_settings \<Rightarrow> string \<Rightarrow> string \<times> json \<times> json \<times> json
     \<Rightarrow> barrier_points list \<times> fs \<Rightarrow> int \<Rightarrow> (barrier_points list \<times> fs) res" where
  "dr_iteration bash repr st drp = (\<lambda>(ap, params, nt, suf) (theApps, w) i.
     bindE (json_str params) (\<lambda>ps.
     bindE (json_int nt) (\<lambda>n.
     bindE (json_str suf) (\<lambda>s.
     bindE (json_str (ds_benchpath st)) (\<lambda>benchp.
     bindE (BarrierPoints_init ap n ps (ds_outpath st) s i benchp drp) (\<lambda>self.
     bindE (CreateBarrierPoints bash repr (ds_dry_run st) self w) (\<lambda>(ok, self', w').
       Inr (theApps @ [self'], w'))))))))"

definition dr_loop ::
    "(string \<Rightarrow> fs \<Rightarrow> int \<times> fs) \<Rightarrow> (rat \<Rightarrow> string) \<Rightarrow> dr_settings \<Rightarrow> string \<Rightarrow> (string \<times> json) list \<Rightarrow> fs
     \<Rightarrow> (barrier_points list \<times> fs) res" where
  "dr_loop bash repr st drp apps w =
     bindE (json_iter (ds_threads st)) (\<lambda>nts.
     bindE (json_iter (ds_suffix st)) (\<lambda>sufs.
       foldE (\<lambda>s ((ap, params), nt, suf).
           bindE (json_range (ds_iters st)) (\<lambda>is.
             foldE (dr_iteration bash repr st drp (ap, params, nt, suf)) s is))
         ([], w) (product3 apps nts sufs)))"

text \<open>\<open>drpath\<close> is the environment variable \<open>DYNAMORIO_BUILD_DIR\<close>.\<close>

definition DrAnalysis_main ::
    "(string \<Rightarrow> fs \<Rightarrow> int \<times> fs) \<Rightarrow> (rat \<Rightarrow> string) \<Rightarrow> string option \<Rightarrow> json \<Rightarrow> fs
     \<Rightarrow> (barrier_points list \<times> fs) res" where
  "DrAnalysis_main bash repr drpath j w =
     bindE (read_settings j) (\<lambda>st.
     case drpath of
       None \<Rightarrow> Inl SystemExit
     | Some drp \<Rightarrow>
         if drp = [] \<or> \<not> is_file w (drp @ ''/bin64/drrun'') then Inl SystemExit
         else bindE (json_get j ''execution'') (\<lambda>ex.
              bindE (json_get ex ''bp_identification'') (\<lambda>on.
              if \<not> truthy on then Inl SystemExit
              else bindE (app_dict j) (\<lambda>apps. dr_loop bash repr st drp apps w))))"

section \<open>What a run is\<close>

definition run_id :: "barrier_points \<Rightarrow> string \<times> int \<times> string \<times> int" where
  "run_id self = (bp_miniApp self, bp_nthreads self, bp_out_suffix self, bp_iteration self)"

lemma BarrierPoints_init_id:
  "BarrierPoints_init ap n ps out s i benchp drp = Inr self \<Longrightarrow> run_id self = (ap, n, s, i)"
  by (auto simp: BarrierPoints_init_def bindE_eq_Inr run_id_def)

lemma CreateVectors_id: "CreateVectors bash d self w = (ok, self', w') \<Longrightarrow> run_id self' = run_id self"
  by (auto simp: CreateVectors_def ensure_out_path_def run_id_def Let_def split: if_splits option.splits prod.splits)

lemma CombineBBVsandLDVs_id: "res_all (\<lambda>(ok, self', w'). run_id self' = run_id self) (CombineBBVsandLDVs repr self w)"
  unfolding CombineBBVsandLDVs_def write_vectors_def Let_def
  by (intro res_all_intros) (simp_all add: run_id_def)

lemma ClusterBarrierPoints_id: "res_all (\<lambda>(ok, self', w'). run_id self' = run_id self) (ClusterBarrierPoints bash self w)"
  unfolding ClusterBarrierPoints_def Let_def
  by (intro res_all_intros) (simp add: run_id_def)

lemma SelectSignificantBarrierPoints_id:
  "res_all (\<lambda>(ok, self', w'). run_id self' = run_id self) (SelectSignificantBarrierPoints self w)"
  unfolding SelectSignificantBarrierPoints_def Let_def
  by (intro res_all_intros) (simp_all add: run_id_def)

lemma CreateBarrierPoints_id:
  "res_all (\<lambda>(ok, self', w'). run_id self' = run_id self) (CreateBarrierPoints bash repr d self w)"
  unfolding CreateBarrierPoints_def Let_def
  by (intro res_all_intros)
    (auto dest!: CreateVectors_id res_allD [OF CombineBBVsandLDVs_id] res_allD [OF ClusterBarrierPoints_id]
      res_allD [OF SelectSignificantBarrierPoints_id])

section \<open>The runs of a configuration\<close>

text \<open>A configuration file with members of the types the program expects and the identification switched on.\<close>

definition dr_config ::
    "json \<Rightarrow> string \<Rightarrow> string \<Rightarrow> bool \<Rightarrow> (string \<times> string) list \<Rightarrow> int list \<Rightarrow> string list \<Rightarrow> int \<Rightarrow> bool" where
  "dr_config j out benchp dry apps nts sufs n =
     (\<exists>paths rootd libp d dbg ex on.
        json_get j ''paths'' = Inr paths \<and> json_get paths ''rootdir'' = Inr rootd
        \<and> json_get paths ''benchpath'' = Inr (JStr benchp) \<and> json_get paths ''libspath'' = Inr libp
        \<and> json_get paths ''outpath'' = Inr (JStr out)
        \<and> json_get j ''dry_run'' = Inr d \<and> truthy d = dry \<and> json_get j ''Debug'' = Inr dbg
        \<and> json_get j ''Suffix'' = Inr (JArr (map JStr sufs)) \<and> json_get j ''threads'' = Inr (JArr (map JInt nts))
        \<and> json_get j ''DR_iterations'' = Inr (JInt n)
        \<and> json_get j ''execution'' = Inr ex \<and> json_get ex ''bp_identification'' = Inr on \<and> truthy on
        \<and> json_get j ''Application'' = Inr (JObj (map (\<lambda>(ap, ps). (ap, JStr ps)) apps)))"

text \<open>The runs of a configuration, in the order of the loops: application, parameters, threads, suffix, iteration.\<close>

type_synonym dr_job = "string \<times> string \<times> int \<times> string \<times> int"

definition dr_jobs :: "(string \<times> string) list \<Rightarrow> int list \<Rightarrow> string list \<Rightarrow> int \<Rightarrow> dr_job list" where
  "dr_jobs apps nts sufs n =
     concat (map (\<lambda>((ap, ps), nt, suf). map (\<lambda>i. (ap, ps, nt, suf, i)) [0..n - 1]) (product3 apps nts sufs))"

text \<open>
  The specification of the program: each job creates its object and runs its whole analysis on the disk
  its predecessor left, and ends with a result, \<open>True\<close> or \<open>False\<close>.
\<close>

inductive dr_runs ::
    "(string \<Rightarrow> fs \<Rightarrow> int \<times> fs) \<Rightarrow> (rat \<Rightarrow> string) \<Rightarrow> bool \<Rightarrow> string \<Rightarrow> string \<Rightarrow> string
     \<Rightarrow> dr_job list \<Rightarrow> fs \<Rightarrow> barrier_points list \<Rightarrow> fs \<Rightarrow> bool"
  for bash repr dry out benchp drp where
  dr_done: "dr_runs bash repr dry out benchp drp [] w [] w"
| dr_next: "BarrierPoints_init ap nt ps out suf i benchp drp = Inr self0 \<Longrightarrow>
    CreateBarrierPoints bash repr dry self0 w = Inr (ok, self, w1) \<Longrightarrow>
    dr_runs bash repr dry out benchp drp jobs w1 selfs w' \<Longrightarrow>
    dr_runs bash repr dry out benchp drp ((ap, ps, nt, suf, i) # jobs) w (self # selfs) w'"

inductive_simps dr_runs_Nil: "dr_runs bash repr dry out benchp drp [] w selfs w'"
inductive_simps dr_runs_Cons: "dr_runs bash repr dry out benchp drp ((ap, ps, nt, suf, i) # jobs) w selfs w'"

lemma dr_runs_ids:
  "dr_runs bash repr dry out benchp drp jobs w selfs w' \<Longrightarrow>
   map run_id selfs = map (\<lambda>(ap, ps, nt, suf, i). (ap, nt, suf, i)) jobs"
  by (induction rule: dr_runs.induct)
    (auto dest!: BarrierPoints_init_id res_allD [OF CreateBarrierPoints_id])

lemma dr_fold_runs:
  assumes "ds_benchpath st = JStr benchp"
  shows "foldE (\<lambda>s (ap, ps, nt, suf, i). dr_iteration bash repr st drp (ap, JStr ps, JInt nt, JStr suf) s i) (done, w) jobs
      = Inr (theApps, w')
    \<longleftrightarrow> (\<exists>selfs. theApps = done @ selfs
          \<and> dr_runs bash repr (ds_dry_run st) (ds_outpath st) benchp drp jobs w selfs w')"
proof (induction jobs arbitrary: "done" w)
  case Nil
  then show ?case by (auto simp: dr_runs_Nil)
next
  case (Cons job jobs)
  obtain ap ps nt suf i where job: "job = (ap, ps, nt, suf, i)" by (metis prod.exhaust)
  show ?case
    using assms Cons.IH by (fastforce simp: job dr_iteration_def bindE_eq_Inr dr_runs_Cons)
qed

lemma dr_loop_runs:
  assumes "ds_threads st = JArr (map JInt nts)" "ds_suffix st = JArr (map JStr sufs)" "ds_iters st = JInt n"
    and "ds_benchpath st = JStr benchp"
  shows "dr_loop bash repr st drp (map (\<lambda>(ap, ps). (ap, JStr ps)) apps) w = Inr (theApps, w')
    \<longleftrightarrow> dr_runs bash repr (ds_dry_run st) (ds_outpath st) benchp drp (dr_jobs apps nts sufs n) w theApps w'"
proof -
  let ?f = "\<lambda>s (ap, ps, nt, suf, i). dr_iteration bash repr st drp (ap, JStr ps, JInt nt, JStr suf) s i"
  let ?g = "\<lambda>((ap, ps), nt, suf). map (\<lambda>i. (ap, ps, nt, suf, i)) [0..n - 1]"
  have "product3 (map (\<lambda>(ap, ps). (ap, JStr ps)) apps) (map JInt nts) (map JStr sufs)
      = map (\<lambda>((ap, ps), nt, suf). ((ap, JStr ps), JInt nt, JStr suf)) (product3 apps nts sufs)"
    by (simp add: product3_def product2_def map_concat comp_def case_prod_beta)
  then have "dr_loop bash repr st drp (map (\<lambda>(ap, ps). (ap, JStr ps)) apps) w
      = foldE (\<lambda>s x. foldE ?f s (?g x)) ([], w) (product3 apps nts sufs)"
    using assms(1-3) by (simp add: dr_loop_def foldE_map case_prod_beta)
  also have "\<dots> = foldE ?f ([], w) (dr_jobs apps nts sufs n)" by (simp add: foldE_concat dr_jobs_def)
  finally show ?thesis using dr_fold_runs [OF assms(4), of bash repr drp "[]" w "dr_jobs apps nts sufs n"] by simp
qed

lemma distinct_dr_jobs:
  assumes "distinct apps" "distinct nts" "distinct sufs"
  shows "distinct (dr_jobs apps nts sufs n)"
proof -
  have "distinct (concat (map (\<lambda>((ap, ps), nt, suf). map (\<lambda>i. (ap, ps, nt, suf, i)) [0..n - 1]) xs))"
    if "distinct xs" for xs :: "((string \<times> string) \<times> int \<times> string) list"
    using that by (induction xs) (auto simp: distinct_map inj_on_def)
  then show ?thesis using assms by (simp add: dr_jobs_def product3_def distinct_product2)
qed

lemma length_dr_jobs: "length (dr_jobs apps nts sufs n) = length apps * length nts * length sufs * nat n"
proof -
  have "length (concat (map (\<lambda>((ap, ps), nt, suf). map (\<lambda>i. (ap, ps, nt, suf, i)) [0..n - 1]) xs)) = length xs * nat n"
    for xs :: "((string \<times> string) \<times> int \<times> string) list"
    by (induction xs) auto
  then show ?thesis by (simp add: dr_jobs_def product3_def)
qed

section \<open>Names of the output folders\<close>

lemma append_unique_suffix:
  "c \<notin> set s1 \<Longrightarrow> c \<notin> set s2 \<Longrightarrow> p1 @ c # s1 = p2 @ c # s2 \<Longrightarrow> p1 = p2 \<and> s1 = s2"
proof (induction p1 arbitrary: p2)
  case Nil
  then show ?case by (cases p2) auto
next
  case (Cons a p1)
  then show ?case by (cases p2) auto
qed

lemma str_int_no_special: "CHR ''.'' \<notin> set (str_int n)" "CHR ''/'' \<notin> set (str_int n)" "CHR ''t'' \<notin> set (str_int n)"
  using str_int_chars digit_not_special(4,12) by (force simp: is_digit_def)+

lemma str_int_inject: "str_int m = str_int n \<longleftrightarrow> m = n"
  using py_int_str_int by (metis sum.inject(2))

lemma pad3_inject: "0 \<le> i \<Longrightarrow> 0 \<le> j \<Longrightarrow> pad3 i = pad3 j \<longleftrightarrow> i = j"
proof
  assume "0 \<le> i" "0 \<le> j" "pad3 i = pad3 j"
  then have "py_int (pad_left 3 (str_nat (nat i))) = py_int (pad_left 3 (str_nat (nat j)))"
    by (simp add: pad3_def str_int_def)
  then show "i = j" using \<open>0 \<le> i\<close> \<open>0 \<le> j\<close> by simp
qed simp

lemma pad3_no_slash: "CHR ''/'' \<notin> set (pad3 i)"
  using str_int_no_special(2) by (simp add: pad3_def pad_left_def)

definition tagged :: "string \<Rightarrow> string \<Rightarrow> string" where
  "tagged app suffix = (if suffix \<noteq> [] then app @ ''-'' @ suffix else app)"

lemma run_name_tagged: "run_name app suffix nt = tagged app suffix @ ''.'' @ str_int nt @ ''t''"
  by (simp add: run_name_def tagged_def)

lemma tagged_inject:
  assumes "CHR ''-'' \<notin> set a1" "CHR ''-'' \<notin> set a2" "tagged a1 s1 = tagged a2 s2"
  shows "a1 = a2 \<and> s1 = s2"
proof -
  have eq: "takeWhile (\<lambda>c. c \<noteq> CHR ''-'') (tagged a s) = a \<and> dropWhile (\<lambda>c. c \<noteq> CHR ''-'') (tagged a s)
      = (if s = [] then [] else CHR ''-'' # s)" if "CHR ''-'' \<notin> set a" for a s
  proof (cases "s = []")
    case True
    then show ?thesis using that by (simp add: tagged_def takeWhile_eq_all_conv dropWhile_eq_Nil_conv) metis
  next
    case False
    then have "tagged a s = a @ CHR ''-'' # s" by (simp add: tagged_def)
    moreover have "\<forall>c \<in> set a. c \<noteq> CHR ''-''" using that by metis
    ultimately show ?thesis using False by (simp add: takeWhile_append2 dropWhile_append2)
  qed
  show ?thesis using eq [OF assms(1), of s1] eq [OF assms(2), of s2] assms(3) by (auto split: if_splits)
qed

lemma run_names_inject: "run_name a1 s1 n1 = run_name a2 s2 n2 \<longleftrightarrow> tagged a1 s1 = tagged a2 s2 \<and> n1 = n2"
proof
  assume "run_name a1 s1 n1 = run_name a2 s2 n2"
  then have "tagged a1 s1 @ CHR ''.'' # str_int n1 = tagged a2 s2 @ CHR ''.'' # str_int n2"
    by (simp add: run_name_tagged)
  then have "tagged a1 s1 = tagged a2 s2 \<and> str_int n1 = str_int n2"
    by (rule append_unique_suffix [OF str_int_no_special(1) str_int_no_special(1)])
  then show "tagged a1 s1 = tagged a2 s2 \<and> n1 = n2" using str_int_inject by blast
qed (simp add: run_name_tagged)

lemma out_path_eq:
  "BarrierPoints_init ap n ps out s i benchp drp = Inr self \<Longrightarrow>
   bp_toolOutPath self = (out @ ''/'' @ run_name ap s n) @ CHR ''/'' # pad3 i @ ''/''"
  by (auto simp: BarrierPoints_init_def bindE_eq_Inr)

lemma out_paths_inject:
  assumes "BarrierPoints_init a1 n1 p1 out s1 i1 b1 d1 = Inr x" "BarrierPoints_init a2 n2 p2 out s2 i2 b2 d2 = Inr y"
    and "0 \<le> i1" "0 \<le> i2"
  shows "bp_toolOutPath x = bp_toolOutPath y \<longleftrightarrow> tagged a1 s1 = tagged a2 s2 \<and> n1 = n2 \<and> i1 = i2"
proof
  assume "bp_toolOutPath x = bp_toolOutPath y"
  then have "out @ CHR ''/'' # run_name a1 s1 n1 @ CHR ''/'' # pad3 i1 = out @ CHR ''/'' # run_name a2 s2 n2 @ CHR ''/'' # pad3 i2"
    unfolding out_path_eq [OF assms(1)] out_path_eq [OF assms(2)] by simp
  then have "run_name a1 s1 n1 @ CHR ''/'' # pad3 i1 = run_name a2 s2 n2 @ CHR ''/'' # pad3 i2" by simp
  then have "run_name a1 s1 n1 = run_name a2 s2 n2 \<and> pad3 i1 = pad3 i2"
    by (rule append_unique_suffix [OF pad3_no_slash pad3_no_slash])
  then show "tagged a1 s1 = tagged a2 s2 \<and> n1 = n2 \<and> i1 = i2" using run_names_inject pad3_inject [OF assms(3,4)] by blast
next
  assume "tagged a1 s1 = tagged a2 s2 \<and> n1 = n2 \<and> i1 = i2"
  then show "bp_toolOutPath x = bp_toolOutPath y"
    unfolding out_path_eq [OF assms(1)] out_path_eq [OF assms(2)] by (simp add: run_name_tagged)
qed

text \<open>The folder of a run exists or can be created.\<close>

definition folder_usable :: "fs \<Rightarrow> barrier_points \<Rightarrow> bool" where
  "folder_usable w self = (dirs w (bp_toolOutPath self) \<or> creatable w (bp_toolOutPath self))"

lemma ensure_out_path_usable:
  "fst (ensure_out_path self w) = (if folder_usable w self then self else self\<lparr>bp_toolOutPath := ''.''\<rparr>)"
  by (auto simp: ensure_out_path_def folder_usable_def make_dirs_def)

section \<open>Properties\<close>

text \<open>
  C20: for a configuration with the expected members the program ends normally exactly when every job
  does, one after the other: for every application, thread count, suffix and iteration, in this order
  of nesting, one object is created and its whole analysis runs on the disk the previous one left,
  whether that one succeeded or returned \<open>False\<close>. No job is run twice; the program returns the objects
  in this order and the last disk. An analysis that raises ends the program.
\<close>

theorem DrAnalysis_main_runs:
  assumes "dr_config j out benchp dry apps nts sufs n"
    and "drp \<noteq> []" "is_file w (drp @ ''/bin64/drrun'')"
  shows "(DrAnalysis_main bash repr (Some drp) j w = Inr (theApps, w')
      \<longleftrightarrow> dr_runs bash repr dry (out @ ''/barriers'') benchp drp (dr_jobs apps nts sufs n) w theApps w')
    \<and> (DrAnalysis_main bash repr (Some drp) j w = Inr (theApps, w') \<longrightarrow>
        map run_id theApps = map (\<lambda>(ap, ps, nt, suf, i). (ap, nt, suf, i)) (dr_jobs apps nts sufs n))
    \<and> length (dr_jobs apps nts sufs n) = length apps * length nts * length sufs * nat n
    \<and> (distinct apps \<and> distinct nts \<and> distinct sufs \<longrightarrow> distinct (dr_jobs apps nts sufs n))"
proof -
  let ?st = "\<lparr>ds_benchpath = JStr benchp, ds_outpath = out @ ''/barriers'', ds_dry_run = dry,
    ds_suffix = JArr (map JStr sufs), ds_threads = JArr (map JInt nts), ds_iters = JInt n\<rparr>"
  have "read_settings j = Inr ?st" using assms(1) by (auto simp: dr_config_def read_settings_def)
  moreover have "app_dict j = Inr (map (\<lambda>(ap, ps). (ap, JStr ps)) apps)"
    using assms(1) by (auto simp: dr_config_def app_dict_def)
  ultimately have "DrAnalysis_main bash repr (Some drp) j w
      = dr_loop bash repr ?st drp (map (\<lambda>(ap, ps). (ap, JStr ps)) apps) w"
    using assms by (auto simp: DrAnalysis_main_def dr_config_def)
  then have "DrAnalysis_main bash repr (Some drp) j w = Inr (theApps, w')
      \<longleftrightarrow> dr_runs bash repr dry (out @ ''/barriers'') benchp drp (dr_jobs apps nts sufs n) w theApps w'"
    using dr_loop_runs [of ?st nts sufs n benchp bash repr drp apps w theApps w'] by simp
  then show ?thesis using dr_runs_ids distinct_dr_jobs length_dr_jobs by blast
qed

text \<open>A configuration of one application, two suffixes and two iterations, without the client library.\<close>

definition sample_config :: json where
  "sample_config = JObj
     [(''paths'', JObj [(''rootdir'', JStr ''./''), (''benchpath'', JStr ''b''), (''libspath'', JStr ''l''), (''outpath'', JStr ''o'')]),
      (''execution'', JObj [(''bp_identification'', JBool True), (''perfcntrs'', JBool True)]),
      (''threads'', JArr [JInt 4]), (''Application'', JObj [(''mm'', JStr [])]),
      (''Suffix'', JArr [JStr ''a'', JStr ''b'']), (''Debug'', JBool False),
      (''DR_iterations'', JInt 2), (''Perfcntrs_iterations'', JInt 3), (''dry_run'', JBool True)]"

definition sample_disk :: fs where
  "sample_disk = (fs_of [(''d/bin64/drrun'', [])])\<lparr>dirs := \<lambda>_. True\<rparr>"

lemma sample_config_main:
  "\<exists>theApps w'. DrAnalysis_main (\<lambda>cmd w. (0, w)) (\<lambda>_. []) (Some ''d'') sample_config sample_disk = Inr (theApps, w')"
proof -
  let ?st = "\<lparr>ds_benchpath = JStr ''b'', ds_outpath = ''o/barriers'', ds_dry_run = True,
    ds_suffix = JArr [JStr ''a'', JStr ''b''], ds_threads = JArr [JInt 4], ds_iters = JInt 2\<rparr>"
  let ?it = "\<lambda>suf. dr_iteration (\<lambda>cmd w. (0, w)) (\<lambda>_. []) ?st ''d'' (''mm'', JStr [], JInt 4, JStr suf)"
  have st: "read_settings sample_config = Inr ?st" by (simp add: read_settings_def sample_config_def)
  have "\<exists>self'. CreateVectors bash d self sample_disk = (False, self', sample_disk)" for bash d self
    by (simp add: CreateVectors_def ensure_out_path_def is_file_def sample_disk_def fs_of_def)
  then obtain c where "CreateVectors bash d self sample_disk = (False, c bash d self, sample_disk)" for bash d self by metis
  then have "\<exists>b. ?it suf (bs, sample_disk) i = Inr (bs @ [b], sample_disk)" for suf bs i
    by (simp add: dr_iteration_def BarrierPoints_init_def GetBenchParams_def CreateBarrierPoints_def)
  then obtain b where it: "?it suf (bs, sample_disk) i = Inr (bs @ [b suf bs i], sample_disk)" for suf bs i by metis
  have "[0..1] = [0, 1 :: int]" by (simp add: upto_rec1)
  then have "\<exists>bs. dr_loop (\<lambda>cmd w. (0, w)) (\<lambda>_. []) ?st ''d'' [(''mm'', JStr [])] sample_disk = Inr (bs, sample_disk)"
    by (simp add: dr_loop_def product3_def product2_def it)
  moreover have "app_dict sample_config = Inr [(''mm'', JStr [])]" by (simp add: app_dict_def sample_config_def)
  moreover have "is_file sample_disk ''d/bin64/drrun''" by (simp add: is_file_def sample_disk_def fs_of_def)
  ultimately show ?thesis by (simp add: DrAnalysis_main_def st) (simp add: sample_config_def, blast)
qed

theorem DrAnalysis_main_runs_witness:
  "\<exists>theApps w'. DrAnalysis_main (\<lambda>cmd w. (0, w)) (\<lambda>_. []) (Some ''d'') sample_config sample_disk = Inr (theApps, w')
     \<and> dr_runs (\<lambda>cmd w. (0, w)) (\<lambda>_. []) True ''o/barriers'' ''b'' ''d''
         [(''mm'', [], 4, ''a'', 0), (''mm'', [], 4, ''a'', 1), (''mm'', [], 4, ''b'', 0), (''mm'', [], 4, ''b'', 1)]
         sample_disk theApps w'
     \<and> map run_id theApps = [(''mm'', 4, ''a'', 0), (''mm'', 4, ''a'', 1), (''mm'', 4, ''b'', 0), (''mm'', 4, ''b'', 1)]"
proof -
  obtain theApps w' where run: "DrAnalysis_main (\<lambda>cmd w. (0, w)) (\<lambda>_. []) (Some ''d'') sample_config sample_disk = Inr (theApps, w')"
    using sample_config_main by blast
  have "[0..1] = [0, 1 :: int]" by (simp add: upto_rec1)
  then have jobs: "dr_jobs [(''mm'', [])] [4] [''a'', ''b''] 2
      = [(''mm'', [], 4, ''a'', 0), (''mm'', [], 4, ''a'', 1), (''mm'', [], 4, ''b'', 0), (''mm'', [], 4, ''b'', 1)]"
    by (simp add: dr_jobs_def product3_def product2_def)
  have c: "dr_config sample_config ''o'' ''b'' True [(''mm'', [])] [4] [''a'', ''b''] 2"
    by (simp add: dr_config_def sample_config_def)
  have f: "is_file sample_disk (''d'' @ ''/bin64/drrun'')" by (simp add: is_file_def sample_disk_def fs_of_def)
  show ?thesis using DrAnalysis_main_runs [OF c _ f, of "\<lambda>cmd w. (0, w)" "\<lambda>_. []" theApps w'] run jobs by auto
qed

text \<open>
  C21: the folders two runs really write to, with the fallback of \<open>__CreateVectors\<close>. While the folders
  exist or can be created, two runs share one only if application and suffix give the same name and
  threads and iteration agree; without hyphens in the application names they are then the same run.
  When neither folder can be created both write to the current one, and their files have the same names
  whatever the iterations are, so a later iteration overwrites an earlier one.
\<close>

theorem output_folders:
  assumes "BarrierPoints_init a1 n1 p1 out s1 i1 b1 d1 = Inr x" "BarrierPoints_init a2 n2 p2 out s2 i2 b2 d2 = Inr y"
    and "0 \<le> i1" "0 \<le> i2"
    and "x' = fst (ensure_out_path x w1)" "y' = fst (ensure_out_path y w2)"
  shows "(folder_usable w1 x \<and> folder_usable w2 y \<longrightarrow>
        (bp_toolOutPath x' = bp_toolOutPath y' \<longleftrightarrow>
          (if s1 = [] then a1 else a1 @ ''-'' @ s1) = (if s2 = [] then a2 else a2 @ ''-'' @ s2) \<and> n1 = n2 \<and> i1 = i2)
        \<and> (CHR ''-'' \<notin> set a1 \<and> CHR ''-'' \<notin> set a2 \<longrightarrow>
            (bp_toolOutPath x' = bp_toolOutPath y' \<longleftrightarrow> run_id x = run_id y)))
    \<and> (\<not> folder_usable w1 x \<and> \<not> folder_usable w2 y \<longrightarrow>
        bp_toolOutPath x' = ''.'' \<and> bp_toolOutPath y' = ''.''
        \<and> (run_stem x' = run_stem y' \<longleftrightarrow>
            (if s1 = [] then a1 else a1 @ ''-'' @ s1) = (if s2 = [] then a2 else a2 @ ''-'' @ s2) \<and> n1 = n2))"
proof -
  have t: "(if s = [] then a else a @ ''-'' @ s) = tagged a s" for a s by (simp add: tagged_def)
  have ids: "run_id x = (a1, n1, s1, i1)" "run_id y = (a2, n2, s2, i2)"
    using BarrierPoints_init_id [OF assms(1)] BarrierPoints_init_id [OF assms(2)] by simp_all
  have paths: "bp_toolOutPath x = bp_toolOutPath y \<longleftrightarrow> tagged a1 s1 = tagged a2 s2 \<and> n1 = n2 \<and> i1 = i2"
    using out_paths_inject [OF assms(1-4)] .
  show ?thesis
    unfolding t
  proof (intro conjI impI)
    assume u: "folder_usable w1 x \<and> folder_usable w2 y"
    then have same: "bp_toolOutPath x' = bp_toolOutPath x" "bp_toolOutPath y' = bp_toolOutPath y"
      using assms(5,6) by (simp_all add: ensure_out_path_usable)
    with paths show "bp_toolOutPath x' = bp_toolOutPath y' \<longleftrightarrow> tagged a1 s1 = tagged a2 s2 \<and> n1 = n2 \<and> i1 = i2" by simp
    assume h: "CHR ''-'' \<notin> set a1 \<and> CHR ''-'' \<notin> set a2"
    show "bp_toolOutPath x' = bp_toolOutPath y' \<longleftrightarrow> run_id x = run_id y"
      using same paths ids tagged_inject [of a1 a2 s1 s2] h by auto
  next
    assume u: "\<not> folder_usable w1 x \<and> \<not> folder_usable w2 y"
    then have here: "x' = x\<lparr>bp_toolOutPath := ''.''\<rparr>" "y' = y\<lparr>bp_toolOutPath := ''.''\<rparr>"
      using assms(5,6) by (simp_all add: ensure_out_path_usable)
    then show "bp_toolOutPath x' = ''.''" "bp_toolOutPath y' = ''.''" by simp_all
    show "run_stem x' = run_stem y' \<longleftrightarrow> tagged a1 s1 = tagged a2 s2 \<and> n1 = n2"
      using ids run_names_inject [of a1 s1 n1 a2 s2 n2] by (simp add: here run_stem_def run_id_def)
  qed
qed

text \<open>Two iterations on a disk where every folder can be created, and on one where none can.\<close>

theorem output_folders_witness:
  "\<exists>x y. BarrierPoints_init ''mm'' 4 [] ''o'' ''a'' 0 [] [] = Inr x \<and> BarrierPoints_init ''mm'' 4 [] ''o'' ''a'' 1 [] [] = Inr y
     \<and> bp_toolOutPath (fst (ensure_out_path x (fs_of []))) \<noteq> bp_toolOutPath (fst (ensure_out_path y (fs_of [])))
     \<and> run_stem (fst (ensure_out_path x ((fs_of [])\<lparr>creatable := \<lambda>_. False\<rparr>)))
         = run_stem (fst (ensure_out_path y ((fs_of [])\<lparr>creatable := \<lambda>_. False\<rparr>)))"
proof -
  obtain x y where xy: "BarrierPoints_init ''mm'' 4 [] ''o'' ''a'' 0 [] [] = Inr x" "BarrierPoints_init ''mm'' 4 [] ''o'' ''a'' 1 [] [] = Inr y"
    by (simp add: BarrierPoints_init_def GetBenchParams_def)
  have u: "folder_usable (fs_of []) z" "\<not> folder_usable ((fs_of [])\<lparr>creatable := \<lambda>_. False\<rparr>) z" for z
    by (simp_all add: folder_usable_def fs_of_def)
  note th = output_folders [OF xy _ _ refl refl]
  have "bp_toolOutPath (fst (ensure_out_path x (fs_of []))) \<noteq> bp_toolOutPath (fst (ensure_out_path y (fs_of [])))"
    using th [of "fs_of []" "fs_of []"] u(1) by simp
  moreover have "run_stem (fst (ensure_out_path x ((fs_of [])\<lparr>creatable := \<lambda>_. False\<rparr>)))
      = run_stem (fst (ensure_out_path y ((fs_of [])\<lparr>creatable := \<lambda>_. False\<rparr>)))"
    using th [of "(fs_of [])\<lparr>creatable := \<lambda>_. False\<rparr>" "(fs_of [])\<lparr>creatable := \<lambda>_. False\<rparr>"] u(2) by simp
  ultimately show ?thesis using xy by blast
qed

end
