(* ===== verification/Perf_Counters.thy ===== *)
theory Perf_Counters
  imports Py_Text
begin

text \<open>
  Class \<open>StatsPerfCounters\<close> of \<open>RunBenchmarks.py\<close>: the parser of the \<open>.papi\<close> files, the table
  of samples per barrier, thread and event, and the getters.

  A \<open>defaultdict(list)\<close> is a total function into lists: reading a missing event gives the empty list.
  Such a read also inserts the event, which is not modelled: the getters leave the table as the
  constructor made it, where an event with an empty list does not occur. Only \<open>getTotalL2DataMisses\<close>
  with a negative iteration, which the program never passes, could see an inserted event. The mean and
  the standard deviation of numpy are arguments of the getters that use them.
\<close>

section \<open>The lines of a \<open>.papi\<close> file\<close>

text \<open>The pattern \<open>PAPI_(stat)[(tid)][(pid)][(bid)]=(value)\<close>; \<open>re.search\<close> takes the leftmost match.\<close>

record sample =
  s_stat :: string
  s_tid :: nat
  s_pid :: nat
  s_bid :: nat
  s_value :: nat

definition is_word_char :: "char \<Rightarrow> bool" where
  "is_word_char c =
     (is_digit c \<or> c = CHR ''_'' \<or> 65 \<le> ascii c \<and> ascii c \<le> 90 \<or> 97 \<le> ascii c \<and> ascii c \<le> 122)"

text \<open>\<open>[\w\d]+_[\w\d]+\<close> on a run of word characters: an underscore that is neither first nor last.\<close>

definition stat_name :: "string \<Rightarrow> bool" where
  "stat_name s = (CHR ''_'' \<in> set (butlast (tl s)))"

text \<open>\<open>\[(\d+)\]\<close> at the start of \<open>s\<close>: the number and what follows.\<close>

definition bracketed :: "string \<Rightarrow> (nat \<times> string) option" where
  "bracketed s =
     (case s of [] \<Rightarrow> None
      | c # cs \<Rightarrow>
          (case (takeWhile is_digit cs, dropWhile is_digit cs) of
             (d # ds, e # es) \<Rightarrow>
               if c = CHR ''['' \<and> e = CHR '']'' then Some (digits_value 0 (d # ds), es) else None
           | _ \<Rightarrow> None))"

definition match_at :: "string \<Rightarrow> sample option" where
  "match_at s =
     (if \<not> starts_with ''PAPI_'' s then None
      else let r = drop 5 s; st = takeWhile is_word_char r in
        if \<not> stat_name st then None
        else case bracketed (dropWhile is_word_char r) of
          None \<Rightarrow> None
        | Some (tid, r1) \<Rightarrow>
          (case bracketed r1 of
             None \<Rightarrow> None
           | Some (pid, r2) \<Rightarrow>
             (case bracketed r2 of
                None \<Rightarrow> None
              | Some (bid, r3) \<Rightarrow>
                (case r3 of
                   [] \<Rightarrow> None
                 | c # v \<Rightarrow>
                     if c = CHR ''='' \<and> takeWhile is_digit v \<noteq> []
                     then Some \<lparr>s_stat = st, s_tid = tid, s_pid = pid, s_bid = bid,
                                s_value = digits_value 0 (takeWhile is_digit v)\<rparr>
                     else None))))"

fun search :: "string \<Rightarrow> sample option" where
  "search [] = None"
| "search (c # cs) = (case match_at (c # cs) of Some x \<Rightarrow> Some x | None \<Rightarrow> search cs)"

section \<open>The table of samples\<close>

type_synonym thread_stats = "string \<Rightarrow> (int \<times> int) list"

record perf_stats =
  ps_iterations :: int
  ps_nthreads :: int
  ps_runningOn :: string
  ps_barriers :: bool
  ps_filePrefix :: string
  STATS :: "thread_stats list list"

text \<open>\<open>s[:-k]\<close> for a positive \<open>k\<close>.\<close>

definition chop :: "nat \<Rightarrow> string \<Rightarrow> string" where
  "chop k s = take (length s - k) s"

definition papi_prefix :: "string \<Rightarrow> int \<Rightarrow> string" where
  "papi_prefix shfileN iterations = chop (length (str_int iterations)) (chop 3 shfileN)"

text \<open>\<open>xs[i] = f(xs[i])\<close>.\<close>

definition modify_item :: "'a list \<Rightarrow> int \<Rightarrow> ('a \<Rightarrow> 'a res) \<Rightarrow> 'a list res" where
  "modify_item xs i f = bindE (get_item xs i) (\<lambda>x. bindE (f x) (\<lambda>y. set_item xs i y))"

text \<open>The body of the line loop on a line that matches; \<open>t_inst\<close> holds the last \<open>TOT_INS\<close> of each barrier and thread.\<close>

definition add_sample ::
    "int \<Rightarrow> thread_stats list list \<times> int list list \<Rightarrow> sample \<Rightarrow> (thread_stats list list \<times> int list list) res" where
  "add_sample nthreads = (\<lambda>(st0, ti0) x.
     let bid = int (s_bid x); tid = int (s_tid x); value = int (s_value x);
         (st, ti) = (if int (length st0) < bid + 1
                     then (st0 @ [replicate (nat nthreads) (\<lambda>_. [])], ti0 @ [replicate (nat nthreads) 0])
                     else (st0, ti0))
     in bindE (if s_stat x = ''TOT_INS''
               then modify_item ti bid (\<lambda>row. set_item row tid value) else Inr ti) (\<lambda>ti'.
        bindE (modify_item st bid (\<lambda>row. modify_item row tid (\<lambda>d.
                 bindE (get_item ti' bid) (\<lambda>trow. bindE (get_item trow tid) (\<lambda>t.
                   Inr (d(s_stat x := d (s_stat x) @ [(t, value)]))))))) (\<lambda>st'.
        Inr (st', ti'))))"

definition parse_line ::
    "int \<Rightarrow> thread_stats list list \<times> int list list \<Rightarrow> string \<Rightarrow> (thread_stats list list \<times> int list list) res" where
  "parse_line nthreads s line = (case search line of None \<Rightarrow> Inr s | Some x \<Rightarrow> add_sample nthreads s x)"

text \<open>One iteration of the file loop: a file that cannot be opened is skipped.\<close>

definition parse_papi_file ::
    "int \<Rightarrow> string \<Rightarrow> fs \<Rightarrow> thread_stats list list \<times> int list list \<Rightarrow> int
     \<Rightarrow> (thread_stats list list \<times> int list list) res" where
  "parse_papi_file nthreads prefix w s i =
     (case open_read w (prefix @ str_int i @ ''.papi'') of
        None \<Rightarrow> Inr s
      | Some txt \<Rightarrow> foldE (parse_line nthreads) s (file_lines txt))"

definition StatsPerfCounters_init ::
    "string \<Rightarrow> int \<Rightarrow> int \<Rightarrow> string \<Rightarrow> bool \<Rightarrow> fs \<Rightarrow> perf_stats res" where
  "StatsPerfCounters_init shfileN iterations nthreads platform barriers w =
     (let prefix = papi_prefix shfileN iterations in
      bindE (foldE (parse_papi_file nthreads prefix w) ([], []) [0..iterations - 1]) (\<lambda>(st, ti).
        Inr \<lparr>ps_iterations = iterations, ps_nthreads = nthreads, ps_runningOn = platform,
             ps_barriers = barriers, ps_filePrefix = prefix, STATS = st\<rparr>))"

section \<open>The getters\<close>

text \<open>A number as a getter returns it.\<close>

datatype 'f number = PyInt int | PyFloat rat | NpFloat 'f

definition getNumberBarriers :: "perf_stats \<Rightarrow> nat" where
  "getNumberBarriers self = length (STATS self)"

text \<open>\<open>x[threadID][STAT][iteration][1]\<close> of the row of a barrier.\<close>

definition row_value :: "thread_stats list \<Rightarrow> int \<Rightarrow> string \<Rightarrow> int \<Rightarrow> int res" where
  "row_value row tid stat it =
     bindE (get_item row tid) (\<lambda>d. bindE (get_item (d stat) it) (\<lambda>p. Inr (snd p)))"

definition stat_total :: "string \<Rightarrow> perf_stats \<Rightarrow> int \<Rightarrow> int \<Rightarrow> int \<Rightarrow> int res" where
  "stat_total stat self tid it bid =
     (if bid < 0 then bindE (mapE (\<lambda>row. row_value row tid stat it) (STATS self)) (\<lambda>vs. Inr (sum_list vs))
      else bindE (get_item (STATS self) bid) (\<lambda>row. row_value row tid stat it))"

definition int_number :: "int res \<Rightarrow> 'f number res" where
  "int_number r = bindE r (\<lambda>n. Inr (PyInt n))"

definition getTotalCycles :: "perf_stats \<Rightarrow> int \<Rightarrow> int \<Rightarrow> int \<Rightarrow> 'f number res" where
  "getTotalCycles self tid it bid = int_number (stat_total ''TOT_CYC'' self tid it bid)"

definition getTotalInstructions :: "perf_stats \<Rightarrow> int \<Rightarrow> int \<Rightarrow> int \<Rightarrow> 'f number res" where
  "getTotalInstructions self tid it bid = int_number (stat_total ''TOT_INS'' self tid it bid)"

definition getTotalL1DataMisses :: "perf_stats \<Rightarrow> int \<Rightarrow> int \<Rightarrow> int \<Rightarrow> 'f number res" where
  "getTotalL1DataMisses self tid it bid = int_number (stat_total ''L1_DCM'' self tid it bid)"

definition getTotalL1InstMisses :: "perf_stats \<Rightarrow> int \<Rightarrow> int \<Rightarrow> int \<Rightarrow> 'f number res" where
  "getTotalL1InstMisses self tid it bid = int_number (stat_total ''L1_ICM'' self tid it bid)"

definition getTotalL1DataAccesses :: "perf_stats \<Rightarrow> int \<Rightarrow> int \<Rightarrow> int \<Rightarrow> 'f number res" where
  "getTotalL1DataAccesses self tid it bid =
     (if ps_runningOn self \<noteq> ''aarch64'' then Inr (PyFloat 0)
      else int_number (stat_total ''L1_DCA'' self tid it bid))"

definition getTotalL1InstAccesses :: "perf_stats \<Rightarrow> int \<Rightarrow> int \<Rightarrow> int \<Rightarrow> 'f number res" where
  "getTotalL1InstAccesses self tid it bid =
     (if ps_runningOn self \<noteq> ''aarch64'' then Inr (PyFloat 0)
      else int_number (stat_total ''L1_ICA'' self tid it bid))"

text \<open>
  The checks before the last return evaluate the subscripts they are about. The event is missing when
  its cell is empty: the constructor never leaves a key with an empty list.
\<close>

definition getTotalL2DataMisses :: "perf_stats \<Rightarrow> int \<Rightarrow> int \<Rightarrow> int \<Rightarrow> 'f number res" where
  "getTotalL2DataMisses self tid it bid =
     (if bid < 0 then int_number (stat_total ''L2_DCM'' self tid it bid)
      else bindE (get_item (STATS self) bid) (\<lambda>row.
           bindE (get_item row tid) (\<lambda>d.
             if int (length (STATS self)) \<le> bid \<or> int (length row) \<le> tid
                \<or> d ''L2_DCM'' = [] \<or> int (length (d ''L2_DCM'')) \<le> it
             then Inr (PyInt 0)
             else int_number (stat_total ''L2_DCM'' self tid it bid))))"

definition getTotalL2DataAccesses :: "perf_stats \<Rightarrow> int \<Rightarrow> int \<Rightarrow> int \<Rightarrow> 'f number res" where
  "getTotalL2DataAccesses self tid it bid =
     (if ps_runningOn self = ''aarch64'' then Inr (PyFloat 0)
      else int_number (stat_total ''L2_DCA'' self tid it bid))"

text \<open>The averages: numpy's mean, or its standard deviation when \<open>std\<close> is set.\<close>

definition stat_avg ::
    "(int list \<Rightarrow> 'f) \<Rightarrow> (int list \<Rightarrow> 'f) \<Rightarrow> string \<Rightarrow> perf_stats \<Rightarrow> int \<Rightarrow> int \<Rightarrow> bool \<Rightarrow> 'f number res" where
  "stat_avg np_mean np_std stat self tid bid std =
     bindE (get_item (STATS self) bid) (\<lambda>row.
     bindE (get_item row tid) (\<lambda>d.
       Inr (NpFloat (if std then np_std (map snd (d stat)) else np_mean (map snd (d stat))))))"

definition getAvgCycles :: "(int list \<Rightarrow> 'f) \<Rightarrow> (int list \<Rightarrow> 'f) \<Rightarrow> perf_stats \<Rightarrow> int \<Rightarrow> int \<Rightarrow> bool \<Rightarrow> 'f number res" where
  "getAvgCycles mean sd self tid bid std = stat_avg mean sd ''TOT_CYC'' self tid bid std"

definition getAvgInstructions :: "(int list \<Rightarrow> 'f) \<Rightarrow> (int list \<Rightarrow> 'f) \<Rightarrow> perf_stats \<Rightarrow> int \<Rightarrow> int \<Rightarrow> bool \<Rightarrow> 'f number res" where
  "getAvgInstructions mean sd self tid bid std = stat_avg mean sd ''TOT_INS'' self tid bid std"

definition getAvgL1DataMisses :: "(int list \<Rightarrow> 'f) \<Rightarrow> (int list \<Rightarrow> 'f) \<Rightarrow> perf_stats \<Rightarrow> int \<Rightarrow> int \<Rightarrow> bool \<Rightarrow> 'f number res" where
  "getAvgL1DataMisses mean sd self tid bid std = stat_avg mean sd ''L1_DCM'' self tid bid std"

definition getAvgL1InstMisses :: "(int list \<Rightarrow> 'f) \<Rightarrow> (int list \<Rightarrow> 'f) \<Rightarrow> perf_stats \<Rightarrow> int \<Rightarrow> int \<Rightarrow> bool \<Rightarrow> 'f number res" where
  "getAvgL1InstMisses mean sd self tid bid std = stat_avg mean sd ''L1_ICM'' self tid bid std"

definition getAvgL1DataAccesses :: "(int list \<Rightarrow> 'f) \<Rightarrow> (int list \<Rightarrow> 'f) \<Rightarrow> perf_stats \<Rightarrow> int \<Rightarrow> int \<Rightarrow> bool \<Rightarrow> 'f number res" where
  "getAvgL1DataAccesses mean sd self tid bid std =
     (if ps_runningOn self \<noteq> ''aarch64'' then Inr (PyFloat 0) else stat_avg mean sd ''L1_DCA'' self tid bid std)"

definition getAvgL1InstAccesses :: "(int list \<Rightarrow> 'f) \<Rightarrow> (int list \<Rightarrow> 'f) \<Rightarrow> perf_stats \<Rightarrow> int \<Rightarrow> int \<Rightarrow> bool \<Rightarrow> 'f number res" where
  "getAvgL1InstAccesses mean sd self tid bid std =
     (if ps_runningOn self \<noteq> ''aarch64'' then Inr (PyFloat 0) else stat_avg mean sd ''L1_ICA'' self tid bid std)"

definition getAvgL2DataMisses :: "(int list \<Rightarrow> 'f) \<Rightarrow> (int list \<Rightarrow> 'f) \<Rightarrow> perf_stats \<Rightarrow> int \<Rightarrow> int \<Rightarrow> bool \<Rightarrow> 'f number res" where
  "getAvgL2DataMisses mean sd self tid bid std = stat_avg mean sd ''L2_DCM'' self tid bid std"

definition getAvgL2DataAccesses :: "(int list \<Rightarrow> 'f) \<Rightarrow> (int list \<Rightarrow> 'f) \<Rightarrow> perf_stats \<Rightarrow> int \<Rightarrow> int \<Rightarrow> bool \<Rightarrow> 'f number res" where
  "getAvgL2DataAccesses mean sd self tid bid std =
     (if ps_runningOn self = ''aarch64'' then Inr (PyFloat 0) else stat_avg mean sd ''L2_DCA'' self tid bid std)"

section \<open>Printing and reading a sample\<close>

definition show_sample :: "sample \<Rightarrow> string" where
  "show_sample x = ''PAPI_'' @ s_stat x @ ''['' @ str_nat (s_tid x) @ ''][''
     @ str_nat (s_pid x) @ ''][''  @ str_nat (s_bid x) @ '']='' @ str_nat (s_value x)"

definition valid_sample :: "sample \<Rightarrow> bool" where
  "valid_sample x = (stat_name (s_stat x) \<and> (\<forall>c \<in> set (s_stat x). is_word_char c))"

lemma take_drop_digits:
  assumes "r = [] \<or> \<not> is_digit (hd r)"
  shows "takeWhile is_digit (str_nat n @ r) = str_nat n" "dropWhile is_digit (str_nat n @ r) = r"
  using assms str_nat_digits
  by (cases r; simp add: takeWhile_append2 dropWhile_append2 takeWhile_eq_all_conv)+

lemma bracketed_str_nat: "bracketed (CHR ''['' # str_nat n @ CHR '']'' # r) = Some (n, r)"
proof -
  have "\<not> is_digit CHR '']''" by (simp add: is_digit_def)
  then have "takeWhile is_digit (str_nat n @ CHR '']'' # r) = str_nat n"
    "dropWhile is_digit (str_nat n @ CHR '']'' # r) = CHR '']'' # r"
    by (simp_all add: take_drop_digits)
  then show ?thesis by (cases "str_nat n") (simp_all add: bracketed_def, metis digits_value_str_nat)
qed

lemma match_at_show_sample:
  assumes "valid_sample x" "r = [] \<or> \<not> is_digit (hd r)"
  shows "match_at (show_sample x @ r) = Some x"
proof -
  let ?r1 = "CHR ''['' # str_nat (s_tid x) @ CHR '']'' # CHR ''['' # str_nat (s_pid x) @ CHR '']''
    # CHR ''['' # str_nat (s_bid x) @ CHR '']'' # CHR ''='' # str_nat (s_value x) @ r"
  have "show_sample x @ r = ''PAPI_'' @ s_stat x @ ?r1" by (simp add: show_sample_def)
  moreover have "takeWhile is_word_char (s_stat x @ ?r1) = s_stat x" "dropWhile is_word_char (s_stat x @ ?r1) = ?r1"
    using assms(1) by (simp_all add: valid_sample_def takeWhile_append2 dropWhile_append2 is_word_char_def is_digit_def)
  ultimately show ?thesis
    using assms take_drop_digits [OF assms(2)] by (simp add: match_at_def valid_sample_def bracketed_str_nat)
qed

lemma search_show_sample:
  assumes "valid_sample x" "r = [] \<or> \<not> is_digit (hd r)"
  shows "search (show_sample x @ r) = Some x"
proof -
  obtain c cs where "show_sample x @ r = c # cs" by (simp add: show_sample_def)
  then show ?thesis using match_at_show_sample [OF assms] by simp
qed

lemma search_unmatched: "CHR ''P'' \<notin> set s \<Longrightarrow> search s = None"
  by (induction s) (simp_all add: match_at_def)

lemma show_sample_one_line: "valid_sample x \<Longrightarrow> newline \<notin> set (show_sample x)"
  using str_nat_digits digit_not_special(7)
  by (force simp: show_sample_def valid_sample_def is_word_char_def is_digit_def)

interpretation papi_file: line_codec show_sample "\<lambda>l. Inr (search l)" valid_sample Some
proof
  have "\<not> is_digit newline" by (simp add: is_digit_def)
  then show "Inr (search (show_sample x @ [newline])) = Inr (Some x)" if "valid_sample x" for x
    using search_show_sample [OF that, of "[newline]"] by simp
qed (rule show_sample_one_line)

definition papi_text :: "sample list \<Rightarrow> string" where
  "papi_text xs = concat (map (\<lambda>x. show_sample x @ [newline]) xs)"

lemma parse_papi_text:
  assumes "\<And>x. x \<in> set xs \<Longrightarrow> valid_sample x"
  shows "foldE (parse_line nthreads) s (file_lines (papi_text xs)) = foldE (add_sample nthreads) s xs"
proof -
  have "mapE (\<lambda>l. Inr (search l)) (file_lines (papi_text xs)) = Inr (map Some xs)"
    unfolding papi_text_def by (rule papi_file.read_file) (rule assms)
  then have "map search (file_lines (papi_text xs)) = map Some xs"
    using mapE_returns [of "file_lines (papi_text xs)" "\<lambda>l. Inr (search l)" search] by simp
  moreover have "foldE (parse_line nthreads) s ls = foldE (add_sample nthreads) s xs"
    if "map search ls = map Some xs" for ls s
    using that by (induction ls arbitrary: s xs) (auto simp: parse_line_def intro!: bindE_cong)
  ultimately show ?thesis by blast
qed

section \<open>What the table holds\<close>

text \<open>The logs the parser accepts: thread ids in range, and barrier ids that appear without a gap.\<close>

fun log_ok :: "nat \<Rightarrow> nat \<Rightarrow> sample list \<Rightarrow> bool" where
  "log_ok T n [] = True"
| "log_ok T n (x # xs) = (s_tid x < T \<and> s_bid x \<le> n \<and> log_ok T (max n (Suc (s_bid x))) xs)"

text \<open>
  The entries of one barrier, thread and event in the order of the log, each with the last
  \<open>TOT_INS\<close> of the barrier and thread; \<open>tot\<close> is the one before the log.
\<close>

fun entries :: "int \<Rightarrow> nat \<Rightarrow> nat \<Rightarrow> string \<Rightarrow> sample list \<Rightarrow> (int \<times> int) list" where
  "entries tot b t s [] = []"
| "entries tot b t s (x # xs) =
     (if s_bid x = b \<and> s_tid x = t
      then let tot' = (if s_stat x = ''TOT_INS'' then int (s_value x) else tot)
           in (if s_stat x = s then [(tot', int (s_value x))] else []) @ entries tot' b t s xs
      else entries tot b t s xs)"

definition samples_of :: "nat \<Rightarrow> nat \<Rightarrow> string \<Rightarrow> sample list \<Rightarrow> sample list" where
  "samples_of b t s xs = filter (\<lambda>x. s_bid x = b \<and> s_tid x = t \<and> s_stat x = s) xs"

lemma entries_values: "map snd (entries tot b t s xs) = map (\<lambda>x. int (s_value x)) (samples_of b t s xs)"
  by (induction xs arbitrary: tot) (simp_all add: samples_of_def Let_def)

lemma entries_TOT_INS: "(p, v) \<in> set (entries tot b t ''TOT_INS'' xs) \<Longrightarrow> p = v"
  by (induction xs arbitrary: tot) (auto simp: Let_def split: if_splits)

definition table_ok :: "nat \<Rightarrow> thread_stats list list \<times> int list list \<Rightarrow> bool" where
  "table_ok T s = (length (fst s) = length (snd s)
     \<and> (\<forall>row \<in> set (fst s). length row = T) \<and> (\<forall>row \<in> set (snd s). length row = T))"

lemma item_nat:
  "get_item xs (int i) = (if i < length xs then Inr (xs ! i) else Inl IndexError)"
  "set_item xs (int i) v = (if i < length xs then Inr (xs[i := v]) else Inl IndexError)"
  "modify_item xs (int i) f
     = (if i < length xs then bindE (f (xs ! i)) (\<lambda>y. Inr (xs[i := y])) else Inl IndexError)"
  by (simp_all add: get_item_def set_item_def modify_item_def norm_index_def)

text \<open>One sample: what the table becomes.\<close>

definition grown :: "nat \<Rightarrow> thread_stats list list \<times> int list list \<Rightarrow> nat \<Rightarrow> thread_stats list list \<times> int list list" where
  "grown T s n = (if length (fst s) \<le> n
     then (fst s @ [replicate T (\<lambda>_. [])], snd s @ [replicate T 0]) else s)"

lemma add_sample_step:
  assumes "table_ok T s"
  shows "add_sample (int T) s x =
    (if s_tid x < T \<and> s_bid x \<le> length (fst s)
     then let (st, ti) = grown T s (s_bid x); b = s_bid x; t = s_tid x;
              ti' = (if s_stat x = ''TOT_INS'' then ti[b := (ti ! b)[t := int (s_value x)]] else ti)
          in Inr (st[b := (st ! b)[t := (st ! b ! t)(s_stat x := (st ! b ! t) (s_stat x) @ [(ti' ! b ! t, int (s_value x))])]], ti')
     else Inl IndexError)"
proof -
  let ?b = "s_bid x" and ?t = "s_tid x"
  obtain st ti where s: "s = (st, ti)" by fastforce
  obtain st1 ti1 where g: "grown T s ?b = (st1, ti1)" by fastforce
  have step: "add_sample (int T) s x = bindE (if s_stat x = ''TOT_INS''
        then modify_item ti1 (int ?b) (\<lambda>row. set_item row (int ?t) (int (s_value x))) else Inr ti1) (\<lambda>ti'.
      bindE (modify_item st1 (int ?b) (\<lambda>row. modify_item row (int ?t) (\<lambda>d.
        bindE (get_item ti' (int ?b)) (\<lambda>trow. bindE (get_item trow (int ?t)) (\<lambda>t.
          Inr (d(s_stat x := d (s_stat x) @ [(t, int (s_value x))]))))))) (\<lambda>st'. Inr (st', ti')))"
    using g by (auto simp: add_sample_def s grown_def Let_def split: if_splits)
  have len: "length st1 = length ti1" "?b < length st1 \<longleftrightarrow> ?b \<le> length st"
    using assms g by (auto simp: table_ok_def s grown_def split: if_splits)
  have rows: "length (st1 ! ?b) = T" "length (ti1 ! ?b) = T" if "?b < length st1"
    using assms g that len nth_mem [of ?b st] nth_mem [of ?b ti]
    by (auto simp: table_ok_def s grown_def nth_append split: if_splits)
  show ?thesis
    unfolding step g by (cases "?b < length st1") (use len rows s in \<open>simp_all add: item_nat nth_list_update Let_def\<close>)
qed

text \<open>The content of a table, with an empty cell where there is no row yet.\<close>

definition cell :: "thread_stats list list \<times> int list list \<Rightarrow> nat \<Rightarrow> nat \<Rightarrow> string \<Rightarrow> (int \<times> int) list" where
  "cell s b t e = (if b < length (fst s) then (fst s ! b ! t) e else [])"

definition last_ins :: "thread_stats list list \<times> int list list \<Rightarrow> nat \<Rightarrow> nat \<Rightarrow> int" where
  "last_ins s b t = (if b < length (snd s) then snd s ! b ! t else 0)"

lemma grown_table:
  assumes "table_ok T s" "n \<le> length (fst s)"
  shows "table_ok T (grown T s n)" "length (fst (grown T s n)) = max (length (fst s)) (Suc n)"
    "t < T \<Longrightarrow> cell (grown T s n) b t e = cell s b t e" "t < T \<Longrightarrow> last_ins (grown T s n) b t = last_ins s b t"
  using assms by (auto simp: grown_def table_ok_def cell_def last_ins_def nth_append less_Suc_eq)

lemma add_sample_ok:
  assumes "table_ok T s" "s_tid x < T" "s_bid x \<le> length (fst s)"
  shows "\<exists>s'. add_sample (int T) s x = Inr s' \<and> table_ok T s'
    \<and> length (fst s') = max (length (fst s)) (Suc (s_bid x))
    \<and> (\<forall>b. \<forall>t < T. last_ins s' b t
         = (if b = s_bid x \<and> t = s_tid x \<and> s_stat x = ''TOT_INS'' then int (s_value x) else last_ins s b t))
    \<and> (\<forall>b. \<forall>t < T. \<forall>e. cell s' b t e = cell s b t e
         @ (if b = s_bid x \<and> t = s_tid x \<and> e = s_stat x then [(last_ins s' b t, int (s_value x))] else []))"
proof -
  let ?b = "s_bid x" and ?t = "s_tid x"
  obtain st ti where g: "grown T s ?b = (st, ti)" by fastforce
  note G = grown_table [OF assms(1,3), unfolded g]
  have b: "?b < length st" "?b < length ti" "length (st ! ?b) = T" "length (ti ! ?b) = T"
    using G(1,2) by (auto simp: table_ok_def)
  let ?ti = "if s_stat x = ''TOT_INS'' then ti[?b := (ti ! ?b)[?t := int (s_value x)]] else ti"
  let ?st = "st[?b := (st ! ?b)[?t := (st ! ?b ! ?t)(s_stat x := (st ! ?b ! ?t) (s_stat x) @ [(?ti ! ?b ! ?t, int (s_value x))])]]"
  have run: "add_sample (int T) s x = Inr (?st, ?ti)"
    using assms by (simp add: add_sample_step g Let_def)
  have "table_ok T (?st, ?ti)"
    using G(1) b by (auto simp: table_ok_def dest!: set_update_subset_insert [THEN subsetD])
  moreover have "last_ins (?st, ?ti) b t
      = (if b = ?b \<and> t = ?t \<and> s_stat x = ''TOT_INS'' then int (s_value x) else last_ins s b t)" if "t < T" for b t
    using G(4) [OF that, of b] b assms(2) that by (auto simp: last_ins_def nth_list_update split: if_splits)
  moreover have "cell (?st, ?ti) b t e = cell s b t e
      @ (if b = ?b \<and> t = ?t \<and> e = s_stat x then [(last_ins (?st, ?ti) b t, int (s_value x))] else [])" if "t < T" for b t e
    using G(3) [OF that, of b e] b assms(2) that by (auto simp: cell_def last_ins_def nth_list_update split: if_splits)
  moreover have "length (fst (?st, ?ti)) = max (length (fst s)) (Suc ?b)" using G(2) by simp
  ultimately show ?thesis using run by blast
qed

lemma add_samples_ok:
  assumes "table_ok T s" "log_ok T (length (fst s)) xs"
  shows "\<exists>s'. foldE (add_sample (int T)) s xs = Inr s' \<and> table_ok T s'
    \<and> length (fst s') = foldl (\<lambda>n x. max n (Suc (s_bid x))) (length (fst s)) xs
    \<and> (\<forall>b. \<forall>t < T. \<forall>e. cell s' b t e = cell s b t e @ entries (last_ins s b t) b t e xs)"
  using assms
proof (induction xs arbitrary: s)
  case (Cons x xs)
  then obtain s1 where s1: "add_sample (int T) s x = Inr s1" "table_ok T s1"
    "length (fst s1) = max (length (fst s)) (Suc (s_bid x))"
    "\<And>b t. t < T \<Longrightarrow> last_ins s1 b t
         = (if b = s_bid x \<and> t = s_tid x \<and> s_stat x = ''TOT_INS'' then int (s_value x) else last_ins s b t)"
    "\<And>b t e. t < T \<Longrightarrow> cell s1 b t e = cell s b t e
         @ (if b = s_bid x \<and> t = s_tid x \<and> e = s_stat x then [(last_ins s1 b t, int (s_value x))] else [])"
    using add_sample_ok [of T s x] by auto
  have "log_ok T (length (fst s1)) xs" using Cons.prems(2) s1(3) by simp
  then obtain s' where s': "foldE (add_sample (int T)) s1 xs = Inr s'" "table_ok T s'"
    "length (fst s') = foldl (\<lambda>n x. max n (Suc (s_bid x))) (length (fst s1)) xs"
    "\<And>b t e. t < T \<Longrightarrow> cell s' b t e = cell s1 b t e @ entries (last_ins s1 b t) b t e xs"
    using Cons.IH [OF s1(2)] by blast
  have "cell s' b t e = cell s b t e @ entries (last_ins s b t) b t e (x # xs)" if "t < T" for b t e
    using s'(4) [OF that] s1(4,5) [OF that] by (auto simp: Let_def)
  then show ?case using s1 s' by simp
qed simp

lemma add_samples_bad:
  assumes "table_ok T s" "\<not> log_ok T (length (fst s)) xs"
  shows "foldE (add_sample (int T)) s xs = Inl IndexError"
  using assms
proof (induction xs arbitrary: s)
  case (Cons x xs)
  show ?case
  proof (cases "s_tid x < T \<and> s_bid x \<le> length (fst s)")
    case True
    then obtain s1 where "add_sample (int T) s x = Inr s1" "table_ok T s1"
      "length (fst s1) = max (length (fst s)) (Suc (s_bid x))"
      using add_sample_ok [OF Cons.prems(1)] by blast
    then show ?thesis using Cons.IH [of s1] Cons.prems(2) True by simp
  next
    case False
    have "add_sample (int T) s x = Inl IndexError"
      unfolding add_sample_step [OF Cons.prems(1)] by (rule if_not_P) (rule False)
    then show ?thesis by simp
  qed
qed simp

section \<open>The files of a run\<close>

text \<open>\<open>logs i\<close> is the log of iteration \<open>i\<close>, printed to the file the constructor opens for it.\<close>

definition logged :: "fs \<Rightarrow> string \<Rightarrow> int \<Rightarrow> (int \<Rightarrow> sample list) \<Rightarrow> bool" where
  "logged w prefix iterations logs =
     (\<forall>i \<in> {0..iterations - 1}. open_read w (prefix @ str_int i @ ''.papi'') = Some (papi_text (logs i))
        \<and> (\<forall>x \<in> set (logs i). valid_sample x))"

definition full_log :: "int \<Rightarrow> (int \<Rightarrow> sample list) \<Rightarrow> sample list" where
  "full_log iterations logs = concat (map logs [0..iterations - 1])"

lemma parse_logged:
  assumes "logged w prefix iterations logs"
  shows "foldE (parse_papi_file nthreads prefix w) s [0..iterations - 1] = foldE (add_sample nthreads) s (full_log iterations logs)"
proof -
  have "foldE (parse_papi_file nthreads prefix w) s is = foldE (add_sample nthreads) s (concat (map logs is))"
    if "set is \<subseteq> {0..iterations - 1}" for "is" s
    using that
  proof (induction "is" arbitrary: s)
    case (Cons i "is")
    then have i: "open_read w (prefix @ str_int i @ ''.papi'') = Some (papi_text (logs i))"
      "\<And>x. x \<in> set (logs i) \<Longrightarrow> valid_sample x"
      using assms by (auto simp: logged_def)
    have "parse_papi_file nthreads prefix w s i = foldE (add_sample nthreads) s (logs i)" for s
      using parse_papi_text [OF i(2)] by (simp add: parse_papi_file_def i(1))
    then show ?case using Cons by (simp add: foldE_append)
  qed simp
  then show ?thesis by (simp add: full_log_def)
qed

lemma init_logged:
  assumes "logged w (papi_prefix shfileN iterations) iterations logs"
  shows "log_ok T 0 (full_log iterations logs) \<Longrightarrow>
      \<exists>ps. StatsPerfCounters_init shfileN iterations (int T) platform barriers w = Inr ps
        \<and> ps_runningOn ps = platform \<and> table_ok T (STATS ps, replicate (length (STATS ps)) (replicate T 0))
        \<and> length (STATS ps) = foldl (\<lambda>n x. max n (Suc (s_bid x))) 0 (full_log iterations logs)
        \<and> (\<forall>b < length (STATS ps). \<forall>t < T. \<forall>e. (STATS ps ! b ! t) e = entries 0 b t e (full_log iterations logs))"
    and "\<not> log_ok T 0 (full_log iterations logs) \<Longrightarrow>
      StatsPerfCounters_init shfileN iterations (int T) platform barriers w = Inl IndexError"
proof -
  have empty: "table_ok T ([], [])" by (simp add: table_ok_def)
  note parse = parse_logged [OF assms, of "int T"]
  show "\<exists>ps. StatsPerfCounters_init shfileN iterations (int T) platform barriers w = Inr ps
        \<and> ps_runningOn ps = platform \<and> table_ok T (STATS ps, replicate (length (STATS ps)) (replicate T 0))
        \<and> length (STATS ps) = foldl (\<lambda>n x. max n (Suc (s_bid x))) 0 (full_log iterations logs)
        \<and> (\<forall>b < length (STATS ps). \<forall>t < T. \<forall>e. (STATS ps ! b ! t) e = entries 0 b t e (full_log iterations logs))"
    if "log_ok T 0 (full_log iterations logs)"
  proof -
    obtain s' where s': "foldE (add_sample (int T)) ([], []) (full_log iterations logs) = Inr s'" "table_ok T s'"
      "length (fst s') = foldl (\<lambda>n x. max n (Suc (s_bid x))) 0 (full_log iterations logs)"
      "\<And>b t e. t < T \<Longrightarrow> cell s' b t e = cell ([], []) b t e @ entries (last_ins ([], []) b t) b t e (full_log iterations logs)"
      using add_samples_ok [OF empty, of "full_log iterations logs"] \<open>log_ok T 0 (full_log iterations logs)\<close> by auto
    let ?ps = "\<lparr>ps_iterations = iterations, ps_nthreads = int T, ps_runningOn = platform, ps_barriers = barriers,
      ps_filePrefix = papi_prefix shfileN iterations, STATS = fst s'\<rparr>"
    have "StatsPerfCounters_init shfileN iterations (int T) platform barriers w = Inr ?ps"
      by (simp add: StatsPerfCounters_init_def Let_def parse s'(1) split: prod.split)
    moreover have "(fst s' ! b ! t) e = entries 0 b t e (full_log iterations logs)" if "b < length (fst s')" "t < T" for b t e
      using s'(4) [OF that(2), of b e] that(1) by (simp add: cell_def last_ins_def)
    ultimately show ?thesis using s'(2,3) by (intro exI [of _ ?ps]) (simp add: table_ok_def)
  qed
  show "StatsPerfCounters_init shfileN iterations (int T) platform barriers w = Inl IndexError"
    if "\<not> log_ok T 0 (full_log iterations logs)"
    using add_samples_bad [OF empty] that by (simp add: StatsPerfCounters_init_def Let_def parse)
qed

lemma nth_concat_equal:
  assumes "\<And>xs. xs \<in> set xss \<Longrightarrow> length xs = R" "j < R * length xss"
  shows "concat xss ! j = xss ! (j div R) ! (j mod R)" "length (concat xss) = R * length xss"
proof -
  have R: "0 < R" using assms(2) by (cases R) auto
  have "concat xss ! j = xss ! (j div R) ! (j mod R) \<and> length (concat xss) = R * length xss"
    using assms
  proof (induction xss arbitrary: j)
    case (Cons xs xss)
    show ?case
    proof (cases "j < R")
      case True
      then show ?thesis using Cons R by (cases xss) (auto simp: nth_append)
    next
      case False
      then have "j div R = Suc ((j - R) div R)" "j mod R = (j - R) mod R" using R by (simp_all add: div_if mod_if)
      moreover have "concat xss ! (j - R) = xss ! ((j - R) div R) ! ((j - R) mod R) \<and> length (concat xss) = R * length xss"
        using Cons False by (intro Cons.IH) auto
      ultimately show ?thesis using Cons.prems False by (simp add: nth_append)
    qed
  qed simp
  then show "concat xss ! j = xss ! (j div R) ! (j mod R)" "length (concat xss) = R * length xss" by auto
qed

lemma samples_of_full_log:
  "samples_of b t e (full_log iterations logs) = concat (map (\<lambda>i. samples_of b t e (logs i)) [0..iterations - 1])"
  unfolding samples_of_def full_log_def by (simp add: filter_concat comp_def)

text \<open>The sample a getter returns, when every iteration logs the event \<open>R\<close> times.\<close>

lemma stat_total_logged:
  assumes "logged w (papi_prefix shfileN iterations) iterations logs" "log_ok T 0 (full_log iterations logs)"
    and "StatsPerfCounters_init shfileN iterations (int T) platform barriers w = Inr ps"
    and "b < getNumberBarriers ps" "t < T" "0 \<le> j" "j < int R * iterations"
    and "\<And>i. 0 \<le> i \<Longrightarrow> i < iterations \<Longrightarrow> length (samples_of b t e (logs i)) = R"
  shows "stat_total e ps (int t) j (int b)
    = Inr (int (s_value (samples_of b t e (logs (j div int R)) ! nat (j mod int R))))"
proof -
  let ?ss = "\<lambda>i. samples_of b t e (logs i)"
  let ?row = "STATS ps ! b" and ?log = "full_log iterations logs" and ?xss = "map ?ss [0..iterations - 1]"
  have ps: "length ?row = T" "(?row ! t) e = entries 0 b t e ?log"
    using init_logged(1) [OF assms(1,2), of platform barriers] assms(3,4,5) by (auto simp: table_ok_def getNumberBarriers_def)
  have xss: "length xs = R" if "xs \<in> set ?xss" for xs using that assms(8) by auto
  have R: "0 < R" using assms(6,7) by (cases R) auto
  have "0 < int R * iterations" using assms(6,7) by linarith
  then have "0 < iterations" using R by (simp add: zero_less_mult_iff)
  then have j: "nat j < R * length ?xss" using assms(6,7) by (simp add: nat_less_iff)
  have len: "length (entries 0 b t e ?log) = R * length ?xss"
    using entries_values [of 0 b t e ?log] nth_concat_equal(2) [OF xss j] by (metis length_map samples_of_full_log)
  have row: "?xss ! (nat j div R) = ?ss (j div int R)"
  proof -
    have k: "nat j div R < nat iterations" using j R by (simp add: less_mult_imp_div_less mult.commute)
    then have "int (nat j div R) \<le> iterations - 1" by linarith
    moreover have "int (nat j div R) = j div int R" using assms(6) by (simp add: zdiv_int)
    ultimately have "[0..iterations - 1] ! (nat j div R) = j div int R" by (simp add: nth_upto)
    then show ?thesis using k by simp
  qed
  have "snd (entries 0 b t e ?log ! nat j) = int (s_value (concat ?xss ! nat j))"
    using entries_values [of 0 b t e ?log] j len samples_of_full_log
    by (metis (no_types, lifting) length_map nth_map)
  also have "concat ?xss ! nat j = ?xss ! (nat j div R) ! (nat j mod R)" by (rule nth_concat_equal(1) [OF xss j])
  also have "?xss ! (nat j div R) = ?ss (j div int R)" by (rule row)
  finally have "snd (entries 0 b t e ?log ! nat j) = int (s_value (?ss (j div int R) ! nat (j mod int R)))"
    using assms(6) by (simp add: nat_mod_distrib)
  moreover have "nat j < length (entries 0 b t e ?log)" using j len by simp
  ultimately show ?thesis
    using ps assms(4-6) by (simp add: stat_total_def row_value_def item_nat getNumberBarriers_def get_item_in)
qed

lemma L2_misses_logged:
  assumes "logged w (papi_prefix shfileN iterations) iterations logs" "log_ok T 0 (full_log iterations logs)"
    and "StatsPerfCounters_init shfileN iterations (int T) platform barriers w = Inr ps"
    and "misses = samples_of b t ''L2_DCM'' (full_log iterations logs)"
  shows "(b < getNumberBarriers ps \<and> t < T \<longrightarrow>
        (misses = [] \<longrightarrow> getTotalL2DataMisses ps (int t) j (int b) = Inr (PyInt 0))
        \<and> (0 \<le> j \<longrightarrow> getTotalL2DataMisses ps (int t) j (int b)
            = Inr (PyInt (if nat j < length misses then int (s_value (misses ! nat j)) else 0))))
    \<and> (getNumberBarriers ps \<le> b \<or> T \<le> t \<longrightarrow> getTotalL2DataMisses ps (int t) j (int b) = Inl IndexError)"
proof (intro conjI impI)
  obtain ps' where "StatsPerfCounters_init shfileN iterations (int T) platform barriers w = Inr ps'"
    "table_ok T (STATS ps', replicate (length (STATS ps')) (replicate T 0))"
    "\<forall>b < length (STATS ps'). \<forall>t < T. \<forall>e. (STATS ps' ! b ! t) e = entries 0 b t e (full_log iterations logs)"
    using init_logged(1) [OF assms(1,2), of platform barriers] by blast
  then have table: "table_ok T (STATS ps, replicate (length (STATS ps)) (replicate T 0))"
    "\<forall>b < length (STATS ps). \<forall>t < T. \<forall>e. (STATS ps ! b ! t) e = entries 0 b t e (full_log iterations logs)"
    using assms(3) by simp_all
  have rows: "length (STATS ps ! b) = T" if "b < getNumberBarriers ps" for b
    using table(1) that by (simp add: table_ok_def getNumberBarriers_def)
  {
    assume bt: "b < getNumberBarriers ps \<and> t < T"
    let ?d = "(STATS ps ! b ! t) ''L2_DCM''"
    have row_items: "get_item (STATS ps) (int b) = Inr (STATS ps ! b)" "get_item (STATS ps ! b) (int t) = Inr (STATS ps ! b ! t)"
      using bt rows by (simp_all add: item_nat getNumberBarriers_def)
    have vals: "map snd ?d = map (\<lambda>x. int (s_value x)) misses"
      using bt table(2) by (simp add: getNumberBarriers_def entries_values assms(4))
    then have len: "length ?d = length misses" by (metis length_map)
    show "getTotalL2DataMisses ps (int t) j (int b) = Inr (PyInt 0)" if "misses = []"
      using row_items len that by (simp add: getTotalL2DataMisses_def)
    assume j: "0 \<le> j"
    show "getTotalL2DataMisses ps (int t) j (int b)
        = Inr (PyInt (if nat j < length misses then int (s_value (misses ! nat j)) else 0))"
    proof (cases "nat j < length misses")
      case True
      then have in_range: "j < int (length ?d)" "?d \<noteq> []" using len j by auto
      have "snd (?d ! nat j) = int (s_value (misses ! nat j))" using len True arg_cong [OF vals, of "\<lambda>xs. xs ! nat j"] by simp
      then have "stat_total ''L2_DCM'' ps (int t) j (int b) = Inr (int (s_value (misses ! nat j)))"
        unfolding stat_total_def row_value_def row_items bindE_Inr get_item_in [OF j in_range(1)] by simp
      moreover have "\<not> int (length (STATS ps)) \<le> int b" "\<not> int (length (STATS ps ! b)) \<le> int t"
        using bt rows by (simp_all add: getNumberBarriers_def)
      ultimately show ?thesis
        using in_range True by (simp add: getTotalL2DataMisses_def row_items int_number_def)
    next
      case False
      then have "int (length ?d) \<le> j" using len j by linarith
      then show ?thesis using False by (simp add: getTotalL2DataMisses_def row_items)
    qed
  next
    assume "getNumberBarriers ps \<le> b \<or> T \<le> t"
    then show "getTotalL2DataMisses ps (int t) j (int b) = Inl IndexError"
      using rows [of b] by (cases "b < getNumberBarriers ps") (auto simp: getTotalL2DataMisses_def item_nat getNumberBarriers_def)
  }
qed

section \<open>Properties\<close>

text \<open>
  C18: the table is the log grouped by barrier, thread and event. When thread ids are in range and
  barrier ids appear without a gap, the constructor returns; it has one row per barrier id, and every
  cell lists the values of its event in the order of the files, each with the instruction count last
  seen for that barrier and thread. Any other log raises \<open>IndexError\<close>.
\<close>

theorem StatsPerfCounters_groups:
  assumes "logged w (papi_prefix shfileN iterations) iterations logs"
  shows "(log_ok T 0 (full_log iterations logs) \<longrightarrow>
      (\<exists>ps. StatsPerfCounters_init shfileN iterations (int T) platform barriers w = Inr ps
        \<and> getNumberBarriers ps = foldl (\<lambda>n x. max n (Suc (s_bid x))) 0 (full_log iterations logs)
        \<and> (\<forall>b < getNumberBarriers ps. length (STATS ps ! b) = T \<and> (\<forall>t < T. \<forall>e.
             (STATS ps ! b ! t) e = entries 0 b t e (full_log iterations logs)
             \<and> map snd ((STATS ps ! b ! t) e)
                 = map (\<lambda>x. int (s_value x)) (samples_of b t e (full_log iterations logs))))))
    \<and> (\<not> log_ok T 0 (full_log iterations logs) \<longrightarrow>
      StatsPerfCounters_init shfileN iterations (int T) platform barriers w = Inl IndexError)"
proof (intro conjI impI)
  assume "log_ok T 0 (full_log iterations logs)"
  then obtain ps where ps: "StatsPerfCounters_init shfileN iterations (int T) platform barriers w = Inr ps"
    "table_ok T (STATS ps, replicate (length (STATS ps)) (replicate T 0))"
    "length (STATS ps) = foldl (\<lambda>n x. max n (Suc (s_bid x))) 0 (full_log iterations logs)"
    "\<forall>b < length (STATS ps). \<forall>t < T. \<forall>e. (STATS ps ! b ! t) e = entries 0 b t e (full_log iterations logs)"
    using init_logged(1) [OF assms, of T platform barriers] by blast
  have "length (STATS ps ! b) = T" if "b < length (STATS ps)" for b
    using ps(2) that by (simp add: table_ok_def)
  then show "\<exists>ps. StatsPerfCounters_init shfileN iterations (int T) platform barriers w = Inr ps
        \<and> getNumberBarriers ps = foldl (\<lambda>n x. max n (Suc (s_bid x))) 0 (full_log iterations logs)
        \<and> (\<forall>b < getNumberBarriers ps. length (STATS ps ! b) = T \<and> (\<forall>t < T. \<forall>e.
             (STATS ps ! b ! t) e = entries 0 b t e (full_log iterations logs)
             \<and> map snd ((STATS ps ! b ! t) e)
                 = map (\<lambda>x. int (s_value x)) (samples_of b t e (full_log iterations logs))))"
    using ps by (intro exI [of _ ps]) (simp add: getNumberBarriers_def entries_values)
qed (rule init_logged(2) [OF assms])

text \<open>Two iterations of two rounds on one thread and one barrier; every round counts the instructions.\<close>

definition sample_log :: "int \<Rightarrow> sample list" where
  "sample_log i =
     (let s = \<lambda>e v. \<lparr>s_stat = e, s_tid = 0, s_pid = 7, s_bid = 0, s_value = v\<rparr>
      in if i = 0 then [s ''TOT_INS'' 100, s ''TOT_CYC'' 250, s ''TOT_INS'' 101, s ''L2_DCM'' 3]
         else [s ''TOT_INS'' 200, s ''TOT_CYC'' 450, s ''TOT_INS'' 201, s ''L2_DCM'' 5])"

definition sample_papi :: fs where
  "sample_papi = fs_of [(''mm.rep0.papi'', papi_text (sample_log 0)), (''mm.rep1.papi'', papi_text (sample_log 1))]"

lemma sample_logged: "logged sample_papi (papi_prefix ''mm.rep2.sh'' 2) 2 sample_log"
proof -
  have n: "str_int 2 = ''2''" "str_int 0 = ''0''" "str_int 1 = ''1''" by code_simp+
  have p: "papi_prefix ''mm.rep2.sh'' 2 = ''mm.rep''" by (simp add: papi_prefix_def chop_def n)
  have v: "valid_sample x" if "x \<in> set (sample_log i)" for x i
    using that by (auto simp: sample_log_def valid_sample_def stat_name_def is_word_char_def is_digit_def Let_def split: if_splits)
  have "i = 0 \<or> i = 1" if "i \<in> {0..2 - 1}" for i :: int using that by auto
  then show ?thesis using v by (fastforce simp: logged_def p n sample_papi_def)
qed

lemma sample_full_log: "full_log 2 sample_log = sample_log 0 @ sample_log 1"
  by (simp add: full_log_def upto_rec1)

theorem StatsPerfCounters_groups_witness:
  "\<exists>ps. StatsPerfCounters_init ''mm.rep2.sh'' 2 (int 1) ''x86_64'' True sample_papi = Inr ps
     \<and> (STATS ps ! 0 ! 0) ''L2_DCM'' = [(101, 3), (201, 5)]"
proof -
  have ok: "log_ok 1 0 (full_log 2 sample_log)" by (simp add: sample_full_log sample_log_def Let_def)
  then obtain ps where ps: "StatsPerfCounters_init ''mm.rep2.sh'' 2 (int 1) ''x86_64'' True sample_papi = Inr ps"
    "getNumberBarriers ps = foldl (\<lambda>n x. max n (Suc (s_bid x))) 0 (full_log 2 sample_log)"
    "\<forall>b < getNumberBarriers ps. length (STATS ps ! b) = 1 \<and> (\<forall>t < 1. \<forall>e.
             (STATS ps ! b ! t) e = entries 0 b t e (full_log 2 sample_log)
             \<and> map snd ((STATS ps ! b ! t) e) = map (\<lambda>x. int (s_value x)) (samples_of b t e (full_log 2 sample_log)))"
    using StatsPerfCounters_groups [OF sample_logged, of 1 "''x86_64''" True] by blast
  have "getNumberBarriers ps = 1" using ps(2) by (simp add: sample_full_log sample_log_def Let_def)
  then have "(STATS ps ! 0 ! 0) ''L2_DCM'' = entries 0 0 0 ''L2_DCM'' (full_log 2 sample_log)" using ps(3) by simp
  also have "\<dots> = [(101, 3), (201, 5)]" by (simp add: sample_full_log sample_log_def Let_def)
  finally show ?thesis using ps(1) by blast
qed

text \<open>
  C23: the rounds of an iteration all count the instructions, so with \<open>R\<close> rounds the entry \<open>j\<close> that
  \<open>getTotalInstructions\<close> returns for iteration \<open>j\<close> is the one of round \<open>j mod R\<close> of iteration
  \<open>j div R\<close>. Only the events counted in a single round, as the cycles are, belong to iteration \<open>j\<close>.
\<close>

theorem getTotalInstructions_iteration:
  assumes "logged w (papi_prefix shfileN iterations) iterations logs" "log_ok T 0 (full_log iterations logs)"
    and "StatsPerfCounters_init shfileN iterations (int T) platform barriers w = Inr ps"
    and "b < getNumberBarriers ps" "t < T" "0 \<le> j" "j < iterations" "0 < R"
    and "\<And>i. 0 \<le> i \<Longrightarrow> i < iterations \<Longrightarrow> length (samples_of b t ''TOT_INS'' (logs i)) = R"
    and "\<And>i. 0 \<le> i \<Longrightarrow> i < iterations \<Longrightarrow> length (samples_of b t ''TOT_CYC'' (logs i)) = 1"
  shows "getTotalInstructions ps (int t) j (int b)
      = Inr (PyInt (int (s_value (samples_of b t ''TOT_INS'' (logs (j div int R)) ! nat (j mod int R)))))
    \<and> getTotalCycles ps (int t) j (int b) = Inr (PyInt (int (s_value (hd (samples_of b t ''TOT_CYC'' (logs j))))))"
proof -
  have "iterations * 1 \<le> iterations * int R" using assms(6-8) by (intro mult_left_mono) simp_all
  then have j: "j < int R * iterations" using assms(7) by (simp add: mult.commute)
  have "samples_of b t ''TOT_CYC'' (logs j) \<noteq> []" using assms(10) [OF assms(6,7)] by auto
  then show ?thesis
    using stat_total_logged [OF assms(1-6) j assms(9)] stat_total_logged [OF assms(1-6) _ assms(10)] assms(7)
    by (simp add: getTotalInstructions_def getTotalCycles_def int_number_def hd_conv_nth)
qed

theorem getTotalInstructions_iteration_witness:
  "\<exists>ps. StatsPerfCounters_init ''mm.rep2.sh'' 2 (int 1) ''x86_64'' True sample_papi = Inr ps
     \<and> getTotalInstructions ps (int 0) 1 (int 0) = Inr (PyInt 101 :: rat number)
     \<and> getTotalCycles ps (int 0) 1 (int 0) = Inr (PyInt 450 :: rat number)"
proof -
  have ok: "log_ok 1 0 (full_log 2 sample_log)" by (simp add: sample_full_log sample_log_def Let_def)
  obtain ps where ps: "StatsPerfCounters_init ''mm.rep2.sh'' 2 (int 1) ''x86_64'' True sample_papi = Inr ps"
    "length (STATS ps) = foldl (\<lambda>n x. max n (Suc (s_bid x))) 0 (full_log 2 sample_log)"
    using init_logged(1) [OF sample_logged ok, of "''x86_64''" True] by blast
  have b: "0 < getNumberBarriers ps" using ps(2) by (simp add: getNumberBarriers_def sample_full_log sample_log_def Let_def)
  have len: "length (samples_of 0 0 ''TOT_INS'' (sample_log i)) = 2" "length (samples_of 0 0 ''TOT_CYC'' (sample_log i)) = 1" for i
    by (simp_all add: samples_of_def sample_log_def Let_def)
  have "(getTotalInstructions ps (int 0) 1 (int 0) :: rat number res)
        = Inr (PyInt (int (s_value (samples_of 0 0 ''TOT_INS'' (sample_log (1 div int 2)) ! nat (1 mod int 2)))))
      \<and> (getTotalCycles ps (int 0) 1 (int 0) :: rat number res)
        = Inr (PyInt (int (s_value (hd (samples_of 0 0 ''TOT_CYC'' (sample_log 1))))))"
    by (rule getTotalInstructions_iteration [OF sample_logged ok ps(1) b]) (simp_all add: len)
  then show ?thesis using ps(1) by (simp add: samples_of_def sample_log_def Let_def)
qed

text \<open>
  C24: \<open>getTotalL2DataMisses\<close> on the table of a run. For a barrier and a thread of the table it returns
  the value of the \<open>j\<close>-th \<open>L2_DCM\<close> sample in the logs, and 0 when there are at most \<open>j\<close> of them; an
  event without a sample gives 0 for every iteration, a negative one included. A barrier or a thread out
  of range raises \<open>IndexError\<close>: the checks for these two log an error, but the check after them
  evaluates the subscript.
\<close>

theorem getTotalL2DataMisses_logged:
  assumes "logged w (papi_prefix shfileN iterations) iterations logs" "log_ok T 0 (full_log iterations logs)"
    and "StatsPerfCounters_init shfileN iterations (int T) platform barriers w = Inr ps"
    and "misses = samples_of b t ''L2_DCM'' (full_log iterations logs)"
  shows "(b < getNumberBarriers ps \<and> t < T \<longrightarrow>
        (misses = [] \<longrightarrow> getTotalL2DataMisses ps (int t) j (int b) = Inr (PyInt 0))
        \<and> (0 \<le> j \<longrightarrow> getTotalL2DataMisses ps (int t) j (int b)
            = Inr (PyInt (if nat j < length misses then int (s_value (misses ! nat j)) else 0))))
    \<and> (getNumberBarriers ps \<le> b \<or> T \<le> t \<longrightarrow> getTotalL2DataMisses ps (int t) j (int b) = Inl IndexError)"
  using assms by (rule L2_misses_logged)

theorem getTotalL2DataMisses_logged_witness:
  "\<exists>ps. StatsPerfCounters_init ''mm.rep2.sh'' 2 (int 1) ''x86_64'' True sample_papi = Inr ps
     \<and> getTotalL2DataMisses ps (int 0) 1 (int 0) = Inr (PyInt 5 :: rat number)
     \<and> getTotalL2DataMisses ps (int 0) 2 (int 0) = Inr (PyInt 0 :: rat number)
     \<and> (getTotalL2DataMisses ps (int 0) 0 (int 1) :: rat number res) = Inl IndexError"
proof -
  have ok: "log_ok 1 0 (full_log 2 sample_log)" by (simp add: sample_full_log sample_log_def Let_def)
  obtain ps where ps: "StatsPerfCounters_init ''mm.rep2.sh'' 2 (int 1) ''x86_64'' True sample_papi = Inr ps"
    "length (STATS ps) = foldl (\<lambda>n x. max n (Suc (s_bid x))) 0 (full_log 2 sample_log)"
    using init_logged(1) [OF sample_logged ok, of "''x86_64''" True] by blast
  have b: "getNumberBarriers ps = 1" using ps(2) by (simp add: getNumberBarriers_def sample_full_log sample_log_def Let_def)
  have m: "samples_of 0 0 ''L2_DCM'' (full_log 2 sample_log)
      = [\<lparr>s_stat = ''L2_DCM'', s_tid = 0, s_pid = 7, s_bid = 0, s_value = 3\<rparr>,
         \<lparr>s_stat = ''L2_DCM'', s_tid = 0, s_pid = 7, s_bid = 0, s_value = 5\<rparr>]"
    by (simp add: sample_full_log sample_log_def samples_of_def Let_def)
  note th = getTotalL2DataMisses_logged [OF sample_logged ok ps(1) refl, where ?'a = rat]
  show ?thesis using th [of 0 0 1] th [of 0 0 2] th [of 1 0 0] ps(1) b m by simp
qed

end
