(* ===== verification/Perf_Experiment.thy ===== *)
theory Perf_Experiment
  imports Perf_Counters Bp_State Py_Json
begin

text \<open>
  Class \<open>Experiment\<close> and \<open>main\<close> of \<open>RunBenchmarks.py\<close>: the shell script that runs an application
  under the performance counters, the run itself, and the two CSV files made of its results.

  The shell, the machine's name and numpy are arguments of the model; \<open>repr\<close> is Python's text for a
  float. Log messages and file modes are not modelled.
\<close>

abbreviation (input) tab :: char where
  "tab \<equiv> CHR 0x09"

section \<open>State\<close>

definition PAPI_rounds_x86_64 :: "string list" where
  "PAPI_rounds_x86_64 =
     [''PAPI_TOT_INS,PAPI_TOT_CYC'',
      ''PAPI_TOT_INS,PAPI_L1_DCM,PAPI_L1_ICM,PAPI_L1_TCM,PAPI_L1_LDM,PAPI_L1_STM'',
      ''PAPI_TOT_INS,PAPI_L2_DCM,PAPI_L2_ICM,PAPI_L2_TCM,PAPI_L2_STM,PAPI_L2_DCA'']"

definition PAPI_rounds_aarch64 :: "string list" where
  "PAPI_rounds_aarch64 =
     [''PAPI_TOT_INS,PAPI_TOT_CYC,PAPI_L1_DCA,PAPI_L1_DCM'',
      ''PAPI_TOT_INS,PAPI_L1_ICM,PAPI_L1_ICA,PAPI_L2_DCM'']"

record perf_experiment =
  ex_debug :: bool
  ex_dryRun :: bool
  ex_miniApp :: string
  ex_nthreads :: int
  ex_barriers :: bool
  ex_iterations :: int
  ex_benchpath :: string
  ex_libpath :: string
  ex_out_suffix :: string
  ex_bpdir :: string
  ex_appParams :: string
  ex_toolOutPath :: string
  ex_runningOn :: string
  ex_PAPI_rounds :: "string list"
  ex_shfileN :: string
  ex_stats :: "perf_stats option"
  ex_outfileN :: string

definition Experiment_GetBenchParams :: "string \<Rightarrow> int \<Rightarrow> string res" where
  "Experiment_GetBenchParams params nt =
     (if contains ''{}'' params then format_auto params [str_int nt] else Inr params)"

definition Experiment_GetBenchPath :: "fs \<Rightarrow> string \<Rightarrow> string \<Rightarrow> string option" where
  "Experiment_GetBenchPath w benchp app =
     (if path_exists w (benchp @ ''/'' @ app) then Some (benchp @ ''/'' @ app) else None)"

text \<open>\<open>platform.uname()[-2]\<close> names the machine.\<close>

definition platform_of :: "string \<Rightarrow> string" where
  "platform_of machine =
     (if machine = ''aarch64'' then ''aarch64'' else if machine = ''x86_64'' then ''x86_64'' else ''Unknown'')"

definition Experiment_init ::
    "string \<Rightarrow> string \<Rightarrow> int \<Rightarrow> bool \<Rightarrow> string \<Rightarrow> int \<Rightarrow> string \<Rightarrow> string \<Rightarrow> string \<Rightarrow> string \<Rightarrow> bool \<Rightarrow> bool \<Rightarrow> string
     \<Rightarrow> perf_experiment res" where
  "Experiment_init machine app nt barriers params iterations bpdir outpath suffix libp debug dryRun benchp =
     bindE (Experiment_GetBenchParams params nt) (\<lambda>ps.
       Inr \<lparr>ex_debug = debug, ex_dryRun = dryRun, ex_miniApp = app, ex_nthreads = nt, ex_barriers = barriers,
            ex_iterations = iterations, ex_benchpath = benchp, ex_libpath = libp, ex_out_suffix = suffix,
            ex_bpdir = bpdir, ex_appParams = ps,
            ex_toolOutPath = outpath @ ''/'' @ run_name app suffix nt,
            ex_runningOn = platform_of machine,
            ex_PAPI_rounds = [], ex_shfileN = [], ex_stats = None, ex_outfileN = []\<rparr>)"

section \<open>The script\<close>

definition line :: "string \<Rightarrow> string" where
  "line s = s @ [newline]"

text \<open>\<open>folder/app[-suffix].Nt\<close>, with \<open>.BP\<close> when counting per parallel region.\<close>

definition ex_stem :: "perf_experiment \<Rightarrow> string" where
  "ex_stem self = ex_toolOutPath self @ ''/'' @ run_name (ex_miniApp self) (ex_out_suffix self) (ex_nthreads self)
     @ (if ex_barriers self then ''.BP'' else '''')"

definition script_head :: "perf_experiment \<Rightarrow> string" where
  "script_head self =
     line ''#!/bin/sh'' @ [newline]
     @ line (''# '' @ ex_miniApp self @ '' - '' @ str_int (ex_nthreads self) @ '' threads - ''
             @ str_int (ex_iterations self) @ '' iteration(s)'') @ [newline]
     @ line ''# Exports''
     @ line ''export BP_PERFCNTRS=1''
     @ line (''export BP_PERFCNTRS_VERBOSE='' @ (if ex_debug self then ''1'' else ''0''))
     @ line (''export BP_PERFCNTRS_OMPPARALLEL='' @ (if ex_barriers self then ''1'' else ''0''))
     @ line (''export BP_PERFCNTRS_SAMPLING='' @ (if ex_barriers self then ''0'' else ''1''))
     @ line (''export OMP_NUM_THREADS='' @ str_int (ex_nthreads self))
     @ line (''export GOMP_CPU_AFFINITY=\"0-'' @ str_int (ex_nthreads self - 1) @ ''\"'') @ [newline]"

definition script_loop :: "perf_experiment \<Rightarrow> string" where
  "script_loop self = line (''for i in $(seq 0 '' @ str_int (ex_iterations self - 1) @ '')'') @ line ''do''"

definition script_clean :: "perf_experiment \<Rightarrow> string" where
  "script_clean self =
     line ''# Remove old files''
     @ line (''rm -f '' @ ex_stem self @ ''.*.csv'')
     @ script_loop self
     @ line (tab # ''rm -f '' @ ex_stem self @ ''.rep$((i)).papi'')
     @ line ''done'' @ [newline]"

definition script_round :: "perf_experiment \<Rightarrow> fs \<Rightarrow> string \<Rightarrow> string" where
  "script_round self w papi_set =
     line (tab # ''export BP_PERFCNTRS_EVENTS=\"'' @ papi_set @ ''\"'')
     @ line (tab # ''export LD_PRELOAD=\"'' @ ex_bpdir self @ ''/'' @ ex_libpath self @ ''/libbp_perfcntrs.so\"'')
     @ line (tab # format_opt (Experiment_GetBenchPath w (ex_benchpath self) (ex_miniApp self))
             @ '' '' @ ex_appParams self) @ [newline]"

definition script_run :: "perf_experiment \<Rightarrow> fs \<Rightarrow> string" where
  "script_run self w =
     script_loop self
     @ line (tab # ''export BP_PERFCNTRS_OUTPUT_FILE=\"'' @ ex_stem self @ ''.rep$((i)).papi\"'') @ [newline]
     @ concat (map (script_round self w) (ex_PAPI_rounds self))
     @ line ''done'' @ [newline]"

definition rounds_for :: "string \<Rightarrow> string list option" where
  "rounds_for platform =
     (if platform = ''x86_64'' then Some PAPI_rounds_x86_64
      else if platform = ''aarch64'' then Some PAPI_rounds_aarch64 else None)"

definition CreateExperimentBatch :: "perf_experiment \<Rightarrow> fs \<Rightarrow> bool \<times> perf_experiment \<times> fs" where
  "CreateExperimentBatch self0 w0 =
     (case rounds_for (ex_runningOn self0) of
        None \<Rightarrow> (False, self0, w0)
      | Some rounds \<Rightarrow>
          (let self1 = self0\<lparr>ex_PAPI_rounds := rounds\<rparr>;
               (self2, w) = (if dirs w0 (ex_toolOutPath self1) then (self1, w0)
                 else case make_dirs w0 (ex_toolOutPath self1) of
                        None \<Rightarrow> (self1\<lparr>ex_toolOutPath := ''.''\<rparr>, w0)
                      | Some w' \<Rightarrow> (self1, w'));
               name = ex_stem self2 @ ''.rep'' @ str_int (ex_iterations self2) @ ''.sh'';
               self = self2\<lparr>ex_shfileN := name\<rparr>
           in case write_file w name (script_head self @ script_clean self @ script_run self w) of
                None \<Rightarrow> (False, self, w)
              | Some w' \<Rightarrow> (True, self, w')))"

section \<open>The run and its CSV files\<close>

text \<open>What the program takes from numpy: mean, sample deviation, and the text of a result.\<close>

record 'f numpy =
  np_mean :: "int list \<Rightarrow> 'f"
  np_std :: "int list \<Rightarrow> 'f"
  np_show :: "'f \<Rightarrow> string"

definition show_number :: "'f numpy \<Rightarrow> (rat \<Rightarrow> string) \<Rightarrow> 'f number \<Rightarrow> string" where
  "show_number np repr v = (case v of PyInt n \<Rightarrow> str_int n | PyFloat q \<Rightarrow> repr q | NpFloat x \<Rightarrow> np_show np x)"

text \<open>The eight columns of one line of the check file, evaluated from left to right.\<close>

definition check_values :: "perf_stats \<Rightarrow> int \<Rightarrow> int \<Rightarrow> int \<Rightarrow> 'f number list res" where
  "check_values st i j k = mapE (\<lambda>get. get st i j k)
     [getTotalCycles, getTotalInstructions, getTotalL1DataAccesses, getTotalL1DataMisses,
      getTotalL1InstAccesses, getTotalL1InstMisses, getTotalL2DataAccesses, getTotalL2DataMisses]"

definition check_header :: string where
  "check_header = ''Benchmark,Thread,Iteration,Barrier,Cycles,Instructions,L1DAccesses,L1DMisses,L1IAccesses,L1IMisses,L2DAccesses,L2DMisses''"

definition check_row :: "'f numpy \<Rightarrow> (rat \<Rightarrow> string) \<Rightarrow> string \<Rightarrow> perf_stats \<Rightarrow> int \<times> int \<times> int \<Rightarrow> string res" where
  "check_row np repr app st = (\<lambda>(i, j, k).
     bindE (check_values st i j k) (\<lambda>vs.
       Inr (join '','' ([app, str_int i, str_int j, str_int k] @ map (show_number np repr) vs))))"

definition check_csv :: "'f numpy \<Rightarrow> (rat \<Rightarrow> string) \<Rightarrow> perf_experiment \<Rightarrow> perf_stats \<Rightarrow> string res" where
  "check_csv np repr self st =
     bindE (mapE (check_row np repr (ex_miniApp self) st)
              (product3 [0..ex_nthreads self - 1] [0..ex_iterations self - 1] [0..int (getNumberBarriers st) - 1]))
       (\<lambda>rows. Inr (line check_header @ concat (map line rows)))"

definition avg_values :: "'f numpy \<Rightarrow> perf_stats \<Rightarrow> int \<Rightarrow> int \<Rightarrow> 'f number list res" where
  "avg_values np st i j = mapE (\<lambda>get. get (np_mean np) (np_std np) st i j False)
     [getAvgCycles, getAvgInstructions, getAvgL1DataAccesses, getAvgL1DataMisses,
      getAvgL1InstAccesses, getAvgL1InstMisses, getAvgL2DataAccesses, getAvgL2DataMisses]"

definition avg_header :: string where
  "avg_header = ''Benchmark,Thread,Barrier,Cycles,Instructions,L1DAccesses,L1DMisses,L1IAccesses,L1IMisses,L2DAccesses,L2DMisses''"

definition avg_row :: "'f numpy \<Rightarrow> (rat \<Rightarrow> string) \<Rightarrow> string \<Rightarrow> perf_stats \<Rightarrow> int \<times> int \<Rightarrow> string res" where
  "avg_row np repr app st = (\<lambda>(i, j).
     bindE (avg_values np st i j) (\<lambda>vs.
       Inr (join '','' ([app, str_int i, str_int j] @ map (show_number np repr) vs))))"

definition avg_csv :: "'f numpy \<Rightarrow> (rat \<Rightarrow> string) \<Rightarrow> perf_experiment \<Rightarrow> perf_stats \<Rightarrow> string res" where
  "avg_csv np repr self st =
     bindE (mapE (avg_row np repr (ex_miniApp self) st)
              (product2 [0..ex_nthreads self - 1] [0..int (getNumberBarriers st) - 1]))
       (\<lambda>rows. Inr (line avg_header @ concat (map line rows)))"

text \<open>A file is opened before its lines are computed: an open that fails returns \<open>False\<close>, a getter that fails raises.\<close>

definition write_csv ::
    "string \<Rightarrow> string res \<Rightarrow> perf_experiment \<Rightarrow> fs \<Rightarrow> (perf_experiment \<Rightarrow> fs \<Rightarrow> (bool \<times> perf_experiment \<times> fs) res)
     \<Rightarrow> (bool \<times> perf_experiment \<times> fs) res" where
  "write_csv name content self0 w cont =
     (let self = self0\<lparr>ex_outfileN := name\<rparr> in
      if \<not> writable w name then Inr (False, self, w)
      else bindE content (\<lambda>s. cont self (w\<lparr>files := (files w)(name := Some s)\<rparr>)))"

definition RunExperimentBatch ::
    "(string \<Rightarrow> fs \<Rightarrow> int \<times> fs) \<Rightarrow> 'f numpy \<Rightarrow> (rat \<Rightarrow> string) \<Rightarrow> perf_experiment \<Rightarrow> fs
     \<Rightarrow> (bool \<times> perf_experiment \<times> fs) res" where
  "RunExperimentBatch shell np repr self0 w0 =
     (if \<not> is_file w0 (ex_shfileN self0) then Inr (False, self0, w0)
      else
        (let (rc, w) = (if ex_dryRun self0 then (0, w0) else shell (ex_shfileN self0) w0) in
         if rc \<noteq> 0 then Inl SystemExit
         else bindE (StatsPerfCounters_init (ex_shfileN self0) (ex_iterations self0) (ex_nthreads self0)
                       (ex_runningOn self0) (ex_barriers self0) w) (\<lambda>st.
           let self1 = self0\<lparr>ex_stats := Some st\<rparr>; base = chop 3 (ex_shfileN self1) in
           write_csv (base @ ''.check.csv'') (check_csv np repr self1 st) self1 w (\<lambda>self2 w2.
           write_csv (base @ ''.csv'') (avg_csv np repr self2 st) self2 w2 (\<lambda>self3 w3.
             Inr (True, self3, w3))))))"

section \<open>The main program\<close>

record rb_settings =
  rb_rootdir :: json
  rb_benchpath :: json
  rb_libspath :: json
  rb_dry_run :: bool
  rb_debug :: bool
  rb_suffix :: json
  rb_outpath :: json
  rb_threads :: json
  rb_iters :: json

definition rb_read_settings :: "json \<Rightarrow> rb_settings res" where
  "rb_read_settings j =
     bindE (json_get j ''paths'') (\<lambda>paths.
     bindE (json_get paths ''rootdir'') (\<lambda>root.
     bindE (json_get paths ''benchpath'') (\<lambda>benchp.
     bindE (json_get paths ''libspath'') (\<lambda>libp.
     bindE (json_get j ''dry_run'') (\<lambda>dry.
     bindE (json_get j ''Debug'') (\<lambda>debug.
     bindE (json_get j ''Suffix'') (\<lambda>suf.
     bindE (json_get paths ''outpath'') (\<lambda>out.
     bindE (json_get j ''threads'') (\<lambda>nt.
     bindE (json_get j ''Perfcntrs_iterations'') (\<lambda>it.
       Inr \<lparr>rb_rootdir = root, rb_benchpath = benchp, rb_libspath = libp, rb_dry_run = truthy dry,
            rb_debug = truthy debug, rb_suffix = suf, rb_outpath = out, rb_threads = nt, rb_iters = it\<rparr>))))))))))"

text \<open>The body of the loop: an experiment that cannot be created or run ends the program.\<close>

definition rb_experiment ::
    "(string \<Rightarrow> fs \<Rightarrow> int \<times> fs) \<Rightarrow> 'f numpy \<Rightarrow> (rat \<Rightarrow> string) \<Rightarrow> string \<Rightarrow> rb_settings
     \<Rightarrow> perf_experiment list \<times> fs \<Rightarrow> (string \<times> json) \<times> json \<times> json \<times> bool \<Rightarrow> (perf_experiment list \<times> fs) res" where
  "rb_experiment shell np repr machine st = (\<lambda>(theApps, w) ((ap, params), nt, suf, b).
     bindE (json_str suf) (\<lambda>s.
     bindE (json_append (rb_outpath st) (''/bperf.'' @ s)) (\<lambda>out.
     bindE (json_str params) (\<lambda>ps.
     bindE (json_int nt) (\<lambda>n.
     bindE (json_int (rb_iters st)) (\<lambda>it.
     bindE (json_str (rb_rootdir st)) (\<lambda>root.
     bindE (json_str (rb_libspath st)) (\<lambda>libp.
     bindE (json_str (rb_benchpath st)) (\<lambda>benchp.
     bindE (Experiment_init machine ap n b ps it root out s libp (rb_debug st) (rb_dry_run st) benchp) (\<lambda>self0.
       let (ok, self1, w1) = CreateExperimentBatch self0 w in
       if \<not> ok then Inl SystemExit
       else bindE (RunExperimentBatch shell np repr self1 w1) (\<lambda>(ok2, self2, w2).
         if \<not> ok2 then Inl SystemExit else Inr (theApps @ [self2], w2))))))))))))"

definition rb_app_dict :: "json \<Rightarrow> (string \<times> json) list res" where
  "rb_app_dict j =
     bindE (json_get j ''Application'') (\<lambda>apps.
       case apps of JObj kvs \<Rightarrow> Inr kvs | JArr [] \<Rightarrow> Inr [] | JStr [] \<Rightarrow> Inr [] | _ \<Rightarrow> Inl TypeError)"

definition RunBenchmarks_main ::
    "(string \<Rightarrow> fs \<Rightarrow> int \<times> fs) \<Rightarrow> 'f numpy \<Rightarrow> (rat \<Rightarrow> string) \<Rightarrow> string \<Rightarrow> json \<Rightarrow> fs \<Rightarrow> (perf_experiment list \<times> fs) res" where
  "RunBenchmarks_main shell np repr machine j w =
     bindE (rb_read_settings j) (\<lambda>st.
     bindE (json_get j ''execution'') (\<lambda>ex.
     bindE (json_get ex ''bp_identification'') (\<lambda>_.
     bindE (json_get ex ''perfcntrs'') (\<lambda>on.
     if \<not> truthy on then Inl SystemExit
     else
       bindE (rb_app_dict j) (\<lambda>apps.
       bindE (json_iter (rb_threads st)) (\<lambda>nts.
       bindE (json_iter (rb_suffix st)) (\<lambda>sufs.
         foldE (rb_experiment shell np repr machine st) ([], w)
           (product2 apps (product3 nts sufs [False, True])))))))))"

section \<open>File names\<close>

lemma chop_append: "chop (length t) (s @ t) = s"
  by (simp add: chop_def)

lemma chop_sh: "chop 3 (s @ ''.sh'') = s"
  by (simp add: chop_def)

lemma papi_prefix_name: "papi_prefix (stem @ ''.rep'' @ str_int n @ ''.sh'') n = stem @ ''.rep''"
proof -
  have "chop 3 (stem @ ''.rep'' @ str_int n @ ''.sh'') = stem @ ''.rep'' @ str_int n"
    using chop_sh [of "stem @ ''.rep'' @ str_int n"] by simp
  then show ?thesis using chop_append [of "str_int n" "stem @ ''.rep''"] by (simp add: papi_prefix_def)
qed

lemma CreateExperimentBatch_name:
  assumes "CreateExperimentBatch self w = (True, self', w')"
  shows "ex_shfileN self' = ex_stem self' @ ''.rep'' @ str_int (ex_iterations self') @ ''.sh''"
    "\<exists>w0. files w' (ex_shfileN self') = Some (script_head self' @ script_clean self' @ script_run self' w0)"
proof -
  have "ex_stem (x\<lparr>ex_shfileN := n\<rparr>) = ex_stem x" for x :: perf_experiment and n by (simp add: ex_stem_def)
  then show "ex_shfileN self' = ex_stem self' @ ''.rep'' @ str_int (ex_iterations self') @ ''.sh''"
    using assms by (auto simp: CreateExperimentBatch_def Let_def split: option.splits prod.splits)
  show "\<exists>w0. files w' (ex_shfileN self') = Some (script_head self' @ script_clean self' @ script_run self' w0)"
    using assms by (auto simp: CreateExperimentBatch_def write_file_def Let_def split: option.splits prod.splits if_splits)
qed

section \<open>The lines of the check file\<close>

text \<open>The events the columns of a platform are made of.\<close>

definition csv_events :: "string \<Rightarrow> string list" where
  "csv_events platform =
     [''TOT_CYC'', ''TOT_INS''] @ (if platform = ''aarch64'' then [''L1_DCA''] else []) @ [''L1_DCM'']
     @ (if platform = ''aarch64'' then [''L1_ICA''] else []) @ [''L1_ICM'']
     @ (if platform = ''aarch64'' then [] else [''L2_DCA'']) @ [''L2_DCM'']"

text \<open>A table with a value for every thread, iteration, barrier and event of the platform.\<close>

definition complete_table :: "perf_stats \<Rightarrow> int \<Rightarrow> int \<Rightarrow> bool" where
  "complete_table st T I =
     (\<forall>row \<in> set (STATS st). int (length row) = T
        \<and> (\<forall>d \<in> set row. \<forall>e \<in> set (csv_events (ps_runningOn st)). I \<le> int (length (d e))))"

definition table_value :: "perf_stats \<Rightarrow> int \<Rightarrow> int \<Rightarrow> int \<Rightarrow> string \<Rightarrow> int" where
  "table_value st i j k e = snd ((STATS st ! nat k ! nat i) e ! nat j)"

definition check_numbers :: "perf_stats \<Rightarrow> int \<Rightarrow> int \<Rightarrow> int \<Rightarrow> 'f number list" where
  "check_numbers st i j k =
     (let v = (\<lambda>e. PyInt (table_value st i j k e)); arm = (ps_runningOn st = ''aarch64'') in
      [v ''TOT_CYC'', v ''TOT_INS'', if arm then v ''L1_DCA'' else PyFloat 0, v ''L1_DCM'',
       if arm then v ''L1_ICA'' else PyFloat 0, v ''L1_ICM'', if arm then PyFloat 0 else v ''L2_DCA'', v ''L2_DCM''])"

lemma stat_total_in:
  assumes "complete_table st T I" "0 \<le> i" "i < T" "0 \<le> j" "j < I" "0 \<le> k" "k < int (length (STATS st))"
    and "e \<in> set (csv_events (ps_runningOn st))"
  shows "stat_total e st i j k = Inr (table_value st i j k e)"
    "get_item (STATS st) k = Inr (STATS st ! nat k)" "get_item (STATS st ! nat k) i = Inr (STATS st ! nat k ! nat i)"
    "j < int (length ((STATS st ! nat k ! nat i) e))" "i < int (length (STATS st ! nat k))"
proof -
  have k: "STATS st ! nat k \<in> set (STATS st)" using assms(6,7) by (simp add: nat_less_iff)
  then have row: "int (length (STATS st ! nat k)) = T" using assms(1) by (simp add: complete_table_def)
  then have "STATS st ! nat k ! nat i \<in> set (STATS st ! nat k)" using assms(2,3) by (auto simp: nat_less_iff)
  then have "I \<le> int (length ((STATS st ! nat k ! nat i) e))"
    using assms(1,8) k by (auto simp: complete_table_def)
  then show len: "j < int (length ((STATS st ! nat k ! nat i) e))" using assms(5) by simp
  show i: "i < int (length (STATS st ! nat k))" using row assms(3) by simp
  show items: "get_item (STATS st) k = Inr (STATS st ! nat k)" "get_item (STATS st ! nat k) i = Inr (STATS st ! nat k ! nat i)"
    using assms i by (simp_all add: get_item_in)
  show "stat_total e st i j k = Inr (table_value st i j k e)"
    using items len assms(4,6) by (simp add: stat_total_def row_value_def get_item_in table_value_def)
qed

lemma check_values_complete:
  assumes "complete_table st T I" "0 \<le> i" "i < T" "0 \<le> j" "j < I" "0 \<le> k" "k < int (length (STATS st))"
  shows "check_values st i j k = Inr (check_numbers st i j k)"
proof -
  note v = stat_total_in [OF assms]
  have e: "''TOT_CYC'' \<in> set (csv_events p)" "''TOT_INS'' \<in> set (csv_events p)" "''L1_DCM'' \<in> set (csv_events p)"
    "''L1_ICM'' \<in> set (csv_events p)" "''L2_DCM'' \<in> set (csv_events p)" for p
    by (simp_all add: csv_events_def)
  have l2: "getTotalL2DataMisses st i j k = Inr (PyInt (table_value st i j k ''L2_DCM''))"
  proof -
    have "(STATS st ! nat k ! nat i) ''L2_DCM'' \<noteq> []" using v(4) [OF e(5)] assms(4) by auto
    then show ?thesis using v [OF e(5)] assms(6,7) by (simp add: getTotalL2DataMisses_def int_number_def)
  qed
  have arm: "''L1_DCA'' \<in> set (csv_events (ps_runningOn st))" "''L1_ICA'' \<in> set (csv_events (ps_runningOn st))"
    if "ps_runningOn st = ''aarch64''" using that by (simp_all add: csv_events_def)
  have x86: "''L2_DCA'' \<in> set (csv_events (ps_runningOn st))" if "ps_runningOn st \<noteq> ''aarch64''"
    using that by (simp add: csv_events_def)
  show ?thesis
  proof (cases "ps_runningOn st = ''aarch64''")
    case True
    then show ?thesis
      using v(1) [OF e(1)] v(1) [OF e(2)] v(1) [OF e(3)] v(1) [OF e(4)] v(1) [OF arm(1)] v(1) [OF arm(2)]
      by (simp add: l2 check_values_def check_numbers_def getTotalCycles_def getTotalInstructions_def getTotalL1DataAccesses_def
          getTotalL1DataMisses_def getTotalL1InstAccesses_def getTotalL1InstMisses_def getTotalL2DataAccesses_def
          int_number_def Let_def)
  next
    case False
    then show ?thesis
      using v(1) [OF e(1)] v(1) [OF e(2)] v(1) [OF e(3)] v(1) [OF e(4)] v(1) [OF x86]
      by (simp add: l2 check_values_def check_numbers_def getTotalCycles_def getTotalInstructions_def getTotalL1DataAccesses_def
          getTotalL1DataMisses_def getTotalL1InstAccesses_def getTotalL1InstMisses_def getTotalL2DataAccesses_def
          int_number_def Let_def)
  qed
qed

text \<open>The fields of the line of a thread, an iteration and a barrier.\<close>

definition check_fields :: "'f numpy \<Rightarrow> (rat \<Rightarrow> string) \<Rightarrow> string \<Rightarrow> perf_stats \<Rightarrow> int \<times> int \<times> int \<Rightarrow> string list" where
  "check_fields np repr app st = (\<lambda>(i, j, k).
     [app, str_int i, str_int j, str_int k] @ map (show_number np repr) (check_numbers st i j k))"

lemma check_csv_complete:
  assumes "complete_table st (ex_nthreads self) (ex_iterations self)"
  shows "check_csv np repr self st = Inr (line check_header @ concat (map (\<lambda>x. line (join '','' (check_fields np repr (ex_miniApp self) st x)))
    (product3 [0..ex_nthreads self - 1] [0..ex_iterations self - 1] [0..int (getNumberBarriers st) - 1])))"
proof -
  have "mapE (check_row np repr (ex_miniApp self) st)
      (product3 [0..ex_nthreads self - 1] [0..ex_iterations self - 1] [0..int (getNumberBarriers st) - 1])
    = Inr (map (\<lambda>x. join '','' (check_fields np repr (ex_miniApp self) st x))
        (product3 [0..ex_nthreads self - 1] [0..ex_iterations self - 1] [0..int (getNumberBarriers st) - 1]))"
    by (rule mapE_returns)
      (auto simp: product3_def check_row_def check_fields_def getNumberBarriers_def check_values_complete [OF assms])
  then show ?thesis by (simp add: check_csv_def comp_def)
qed

text \<open>The fields of the line of a thread and a barrier in the second file: means over the values of the table.\<close>

definition avg_numbers :: "'f numpy \<Rightarrow> perf_stats \<Rightarrow> int \<Rightarrow> int \<Rightarrow> 'f number list" where
  "avg_numbers np st i k =
     (let v = (\<lambda>e. NpFloat (np_mean np (map snd ((STATS st ! nat k ! nat i) e)))); arm = (ps_runningOn st = ''aarch64'') in
      [v ''TOT_CYC'', v ''TOT_INS'', if arm then v ''L1_DCA'' else PyFloat 0, v ''L1_DCM'',
       if arm then v ''L1_ICA'' else PyFloat 0, v ''L1_ICM'', if arm then PyFloat 0 else v ''L2_DCA'', v ''L2_DCM''])"

definition avg_fields :: "'f numpy \<Rightarrow> (rat \<Rightarrow> string) \<Rightarrow> string \<Rightarrow> perf_stats \<Rightarrow> int \<times> int \<Rightarrow> string list" where
  "avg_fields np repr app st = (\<lambda>(i, k).
     [app, str_int i, str_int k] @ map (show_number np repr) (avg_numbers np st i k))"

lemma avg_csv_complete:
  assumes "complete_table st (ex_nthreads self) I"
  shows "avg_csv np repr self st = Inr (line avg_header @ concat (map (\<lambda>x. line (join '','' (avg_fields np repr (ex_miniApp self) st x)))
    (product2 [0..ex_nthreads self - 1] [0..int (getNumberBarriers st) - 1])))"
proof -
  have v: "stat_avg (np_mean np) (np_std np) e st i k False
      = Inr (NpFloat (np_mean np (map snd ((STATS st ! nat k ! nat i) e))))"
    if "0 \<le> i" "i < ex_nthreads self" "0 \<le> k" "k < int (length (STATS st))" for e i k
  proof -
    have "STATS st ! nat k \<in> set (STATS st)" using that by (simp add: nat_less_iff)
    then have "int (length (STATS st ! nat k)) = ex_nthreads self" using assms by (simp add: complete_table_def)
    then show ?thesis using that by (simp add: stat_avg_def get_item_in)
  qed
  have row: "avg_row np repr (ex_miniApp self) st (i, k) = Inr (join '','' (avg_fields np repr (ex_miniApp self) st (i, k)))"
    if "0 \<le> i" "i < ex_nthreads self" "0 \<le> k" "k < int (length (STATS st))" for i k
    using v [OF that]
    by (simp add: avg_row_def avg_values_def getAvgCycles_def getAvgInstructions_def getAvgL1DataAccesses_def
        getAvgL1DataMisses_def getAvgL1InstAccesses_def getAvgL1InstMisses_def getAvgL2DataAccesses_def getAvgL2DataMisses_def
        avg_fields_def avg_numbers_def Let_def)
  then have "mapE (avg_row np repr (ex_miniApp self) st) (product2 [0..ex_nthreads self - 1] [0..int (getNumberBarriers st) - 1])
    = Inr (map (\<lambda>x. join '','' (avg_fields np repr (ex_miniApp self) st x))
        (product2 [0..ex_nthreads self - 1] [0..int (getNumberBarriers st) - 1]))"
    by (intro mapE_returns) (force simp: getNumberBarriers_def)
  then show ?thesis by (simp add: avg_csv_def comp_def)
qed

lemma RunExperimentBatch_complete:
  assumes "is_file w (base @ ''.sh'')" "ex_shfileN self = base @ ''.sh''"
    and "(if ex_dryRun self then (0, w) else shell (ex_shfileN self) w) = (0, w1)"
    and "StatsPerfCounters_init (ex_shfileN self) (ex_iterations self) (ex_nthreads self) (ex_runningOn self) (ex_barriers self) w1 = Inr st"
    and "complete_table st (ex_nthreads self) (ex_iterations self)"
    and "writable w1 (base @ ''.check.csv'')" "writable w1 (base @ ''.csv'')"
  shows "RunExperimentBatch shell np repr self w
      = Inr (True, self\<lparr>ex_stats := Some st, ex_outfileN := base @ ''.csv''\<rparr>,
          w1\<lparr>files := (files w1)(base @ ''.check.csv'' := Some (line check_header
            @ concat (map (\<lambda>x. line (join '','' (check_fields np repr (ex_miniApp self) st x)))
                (product3 [0..ex_nthreads self - 1] [0..ex_iterations self - 1] [0..int (getNumberBarriers st) - 1]))),
            base @ ''.csv'' := Some (line avg_header
            @ concat (map (\<lambda>x. line (join '','' (avg_fields np repr (ex_miniApp self) st x)))
                (product2 [0..ex_nthreads self - 1] [0..int (getNumberBarriers st) - 1]))))\<rparr>)"
proof -
  have csv: "check_csv np repr (self\<lparr>ex_stats := Some st\<rparr>) st = check_csv np repr self st"
    "avg_csv np repr (self\<lparr>ex_stats := Some st, ex_outfileN := s\<rparr>) st = avg_csv np repr self st" for s
    by (simp_all add: check_csv_def avg_csv_def)
  have "RunExperimentBatch shell np repr self w
      = bindE (StatsPerfCounters_init (ex_shfileN self) (ex_iterations self) (ex_nthreads self)
                       (ex_runningOn self) (ex_barriers self) w1) (\<lambda>st.
           let self1 = self\<lparr>ex_stats := Some st\<rparr>; base = chop 3 (ex_shfileN self1) in
           write_csv (base @ ''.check.csv'') (check_csv np repr self1 st) self1 w1 (\<lambda>self2 w2.
           write_csv (base @ ''.csv'') (avg_csv np repr self2 st) self2 w2 (\<lambda>self3 w3.
             Inr (True, self3, w3))))"
    unfolding RunExperimentBatch_def assms(3) using assms(1,2) by simp
  then show ?thesis
    using assms(2,4,6,7) chop_sh [of base]
    by (simp add: csv check_csv_complete [OF assms(5)] avg_csv_complete [OF assms(5)] write_csv_def Let_def)
qed

section \<open>The experiments of a configuration\<close>

definition ex_id :: "perf_experiment \<Rightarrow> string \<times> int \<times> string \<times> bool" where
  "ex_id self = (ex_miniApp self, ex_nthreads self, ex_out_suffix self, ex_barriers self)"

lemma Experiment_init_id:
  "Experiment_init machine ap n b ps it rdir out s libp debug dry benchp = Inr self \<Longrightarrow> ex_id self = (ap, n, s, b)"
  by (auto simp: Experiment_init_def bindE_eq_Inr ex_id_def)

lemma CreateExperimentBatch_id: "CreateExperimentBatch self w = (ok, self', w') \<Longrightarrow> ex_id self' = ex_id self"
  by (auto simp: CreateExperimentBatch_def ex_id_def Let_def split: option.splits prod.splits if_splits)

lemma write_csv_id:
  assumes "\<And>s w. ex_id s = i \<Longrightarrow> res_all (\<lambda>(ok, self', w'). ex_id self' = i) (cont s w)" "ex_id self = i"
  shows "res_all (\<lambda>(ok, self', w'). ex_id self' = i) (write_csv name content self w cont)"
  unfolding write_csv_def Let_def
  by (intro res_all_intros assms(1)) (use assms(2) in \<open>simp_all add: ex_id_def\<close>)

lemma RunExperimentBatch_id:
  "res_all (\<lambda>(ok, self', w'). ex_id self' = ex_id self) (RunExperimentBatch shell np repr self w)"
  unfolding RunExperimentBatch_def Let_def
  by (intro res_all_intros write_csv_id) (simp_all add: ex_id_def)

section \<open>Properties\<close>

text \<open>
  C25: the script and the parser use the same files. The loop of the script that runs the application
  counts \<open>i\<close> from 0 to one less than the number of iterations and names the file \<open><stem>.rep<i>.papi\<close>;
  and when the logs of the iterations are in the files with these names, the parser builds its table
  from exactly these logs, in this order.
\<close>

theorem papi_names_agree:
  assumes "CreateExperimentBatch self w = (True, self', w')"
  shows "(\<exists>pre post. files w' (ex_shfileN self') = Some (pre
        @ ''for i in $(seq 0 '' @ str_int (ex_iterations self' - 1) @ '')'' @ [newline] @ ''do'' @ [newline]
        @ [tab] @ ''export BP_PERFCNTRS_OUTPUT_FILE=\"'' @ ex_stem self' @ ''.rep$((i)).papi\"'' @ post))
    \<and> (\<forall>w1 logs T platform barriers.
        (\<forall>i \<in> {0..ex_iterations self' - 1}.
            open_read w1 (ex_stem self' @ ''.rep'' @ str_int i @ ''.papi'') = Some (papi_text (logs i))
            \<and> (\<forall>x \<in> set (logs i). valid_sample x))
        \<and> log_ok T 0 (concat (map logs [0..ex_iterations self' - 1])) \<longrightarrow>
          (\<exists>ps. StatsPerfCounters_init (ex_shfileN self') (ex_iterations self') (int T) platform barriers w1 = Inr ps
            \<and> (\<forall>b < getNumberBarriers ps. \<forall>t < T. \<forall>e.
                (STATS ps ! b ! t) e = entries 0 b t e (concat (map logs [0..ex_iterations self' - 1])))))"
proof (intro conjI allI impI)
  obtain w0 where f: "files w' (ex_shfileN self') = Some (script_head self' @ script_clean self' @ script_run self' w0)"
    using CreateExperimentBatch_name(2) [OF assms] by blast
  obtain post where "script_run self' w0 = ''for i in $(seq 0 '' @ str_int (ex_iterations self' - 1) @ '')'' @ [newline]
      @ ''do'' @ [newline] @ [tab] @ ''export BP_PERFCNTRS_OUTPUT_FILE=\"'' @ ex_stem self' @ ''.rep$((i)).papi\"'' @ post"
    by (simp add: script_run_def script_loop_def line_def)
  then show "\<exists>pre post. files w' (ex_shfileN self') = Some (pre
        @ ''for i in $(seq 0 '' @ str_int (ex_iterations self' - 1) @ '')'' @ [newline] @ ''do'' @ [newline]
        @ [tab] @ ''export BP_PERFCNTRS_OUTPUT_FILE=\"'' @ ex_stem self' @ ''.rep$((i)).papi\"'' @ post)"
    using f by (intro exI [of _ "script_head self' @ script_clean self'"] exI [of _ post]) simp
  fix w1 logs T platform barriers
  assume l: "(\<forall>i \<in> {0..ex_iterations self' - 1}.
            open_read w1 (ex_stem self' @ ''.rep'' @ str_int i @ ''.papi'') = Some (papi_text (logs i))
            \<and> (\<forall>x \<in> set (logs i). valid_sample x))
        \<and> log_ok T 0 (concat (map logs [0..ex_iterations self' - 1]))"
  have "papi_prefix (ex_shfileN self') (ex_iterations self') = ex_stem self' @ ''.rep''"
    using CreateExperimentBatch_name(1) [OF assms] papi_prefix_name [of "ex_stem self'" "ex_iterations self'"] by simp
  then have "logged w1 (papi_prefix (ex_shfileN self') (ex_iterations self')) (ex_iterations self') logs"
    using l by (simp add: logged_def)
  from init_logged(1) [OF this, of T platform barriers] l
  show "\<exists>ps. StatsPerfCounters_init (ex_shfileN self') (ex_iterations self') (int T) platform barriers w1 = Inr ps
            \<and> (\<forall>b < getNumberBarriers ps. \<forall>t < T. \<forall>e.
                (STATS ps ! b ! t) e = entries 0 b t e (concat (map logs [0..ex_iterations self' - 1])))"
    by (auto simp: full_log_def getNumberBarriers_def)
qed

definition sample_experiment :: perf_experiment where
  "sample_experiment = projr (Experiment_init ''x86_64'' ''mm'' 1 True [] 2 ''.'' ''o'' ''a'' ''lib'' False True ''b'')"

theorem papi_names_agree_witness:
  "\<exists>self' w' ps. CreateExperimentBatch sample_experiment (fs_of []) = (True, self', w')
     \<and> StatsPerfCounters_init (ex_shfileN self') 2 (int 1) ''x86_64'' True
         (fs_of [(ex_stem self' @ ''.rep0.papi'', papi_text (sample_log 0)), (ex_stem self' @ ''.rep1.papi'', papi_text (sample_log 1))])
         = Inr ps"
proof -
  have "fst (CreateExperimentBatch sample_experiment (fs_of []))"
    by (simp add: CreateExperimentBatch_def sample_experiment_def Experiment_init_def Experiment_GetBenchParams_def
        platform_of_def rounds_for_def make_dirs_def write_file_def fs_of_def Let_def)
  then obtain self' w' where run: "CreateExperimentBatch sample_experiment (fs_of []) = (True, self', w')"
    by (cases "CreateExperimentBatch sample_experiment (fs_of [])") auto
  then have it: "ex_iterations self' = 2"
    by (auto simp: CreateExperimentBatch_def sample_experiment_def Experiment_init_def Experiment_GetBenchParams_def
        platform_of_def rounds_for_def make_dirs_def write_file_def fs_of_def Let_def)
  let ?w = "fs_of [(ex_stem self' @ ''.rep0.papi'', papi_text (sample_log 0)), (ex_stem self' @ ''.rep1.papi'', papi_text (sample_log 1))]"
  have n: "str_int 0 = ''0''" "str_int 1 = ''1''" by code_simp+
  have v: "valid_sample x" if "x \<in> set (sample_log i)" for x i
    using that by (auto simp: sample_log_def valid_sample_def stat_name_def is_word_char_def is_digit_def Let_def split: if_splits)
  have i: "i = 0 \<or> i = 1" if "i \<in> {0..2 - 1}" for i :: int using that by auto
  have "open_read ?w (ex_stem self' @ ''.rep'' @ str_int i @ ''.papi'') = Some (papi_text (sample_log i))"
    if "i \<in> {0..2 - 1}" for i
    using i [OF that] n by auto
  moreover have "log_ok 1 0 (concat (map sample_log [0..2 - 1]))"
    using sample_full_log by (simp add: full_log_def) (simp add: sample_log_def Let_def)
  ultimately have "\<exists>ps. StatsPerfCounters_init (ex_shfileN self') 2 (int 1) ''x86_64'' True ?w = Inr ps"
    using papi_names_agree [OF run, THEN conjunct2, rule_format, of ?w sample_log 1 "''x86_64''" True] v unfolding it by blast
  then show ?thesis using run by blast
qed

text \<open>A log in which, for one region and thread, every round of an iteration samples each of its events once.\<close>

definition rounds_logged :: "string list \<Rightarrow> nat \<Rightarrow> nat \<Rightarrow> sample list \<Rightarrow> bool" where
  "rounds_logged rounds b t xs =
     (\<forall>e. length (samples_of b t e xs) = length (filter (\<lambda>r. ''PAPI_'' @ e \<in> set (split_on CHR '','' r)) rounds))"

lemma rounds_of_events:
  assumes "rounds_for platform = Some rounds"
  shows "length (filter (\<lambda>r. ''PAPI_TOT_INS'' \<in> set (split_on CHR '','' r)) rounds) = length rounds" "0 < length rounds"
    and "e \<in> set (csv_events platform) \<Longrightarrow> e \<noteq> ''TOT_INS'' \<Longrightarrow>
      length (filter (\<lambda>r. ''PAPI_'' @ e \<in> set (split_on CHR '','' r)) rounds) = 1"
proof -
  have split: "map (split_on CHR '','') PAPI_rounds_x86_64 =
      [[''PAPI_TOT_INS'', ''PAPI_TOT_CYC''],
       [''PAPI_TOT_INS'', ''PAPI_L1_DCM'', ''PAPI_L1_ICM'', ''PAPI_L1_TCM'', ''PAPI_L1_LDM'', ''PAPI_L1_STM''],
       [''PAPI_TOT_INS'', ''PAPI_L2_DCM'', ''PAPI_L2_ICM'', ''PAPI_L2_TCM'', ''PAPI_L2_STM'', ''PAPI_L2_DCA'']]"
    "map (split_on CHR '','') PAPI_rounds_aarch64 =
      [[''PAPI_TOT_INS'', ''PAPI_TOT_CYC'', ''PAPI_L1_DCA'', ''PAPI_L1_DCM''],
       [''PAPI_TOT_INS'', ''PAPI_L1_ICM'', ''PAPI_L1_ICA'', ''PAPI_L2_DCM'']]"
    by code_simp+
  have count: "length (filter (\<lambda>r. x \<in> set (split_on CHR '','' r)) rounds)
      = length (filter (\<lambda>es. x \<in> set es) (map (split_on CHR '','') rounds))" for x
    by (simp add: filter_map comp_def)
  have p: "platform = ''x86_64'' \<and> rounds = PAPI_rounds_x86_64 \<or> platform = ''aarch64'' \<and> rounds = PAPI_rounds_aarch64"
    using assms by (auto simp: rounds_for_def split: if_splits)
  have n: "length PAPI_rounds_x86_64 = 3" "length PAPI_rounds_aarch64 = 2"
    by (simp_all add: PAPI_rounds_x86_64_def PAPI_rounds_aarch64_def)
  show "length (filter (\<lambda>r. ''PAPI_TOT_INS'' \<in> set (split_on CHR '','' r)) rounds) = length rounds" "0 < length rounds"
    unfolding count using p n by (elim disjE; simp add: split)+
  show "length (filter (\<lambda>r. ''PAPI_'' @ e \<in> set (split_on CHR '','' r)) rounds) = 1"
    if "e \<in> set (csv_events platform)" "e \<noteq> ''TOT_INS''"
    unfolding count using p that by (elim disjE) (auto simp: split csv_events_def)
qed

lemma event_logged:
  assumes "rounds_for platform = Some rounds" "e \<in> set (csv_events platform)" "e \<noteq> ''TOT_INS''"
    and "logged w (papi_prefix shfileN iterations) iterations logs" "log_ok T 0 (full_log iterations logs)"
    and "StatsPerfCounters_init shfileN iterations (int T) platform barriers w = Inr ps"
    and "b < getNumberBarriers ps" "t < T" "0 \<le> j" "j < iterations"
    and "\<And>i. 0 \<le> i \<Longrightarrow> i < iterations \<Longrightarrow> rounds_logged rounds b t (logs i)"
  shows "stat_total e ps (int t) j (int b) = Inr (int (s_value (hd (samples_of b t e (logs j)))))"
    "nat j < length (samples_of b t e (full_log iterations logs))"
    "samples_of b t e (full_log iterations logs) ! nat j = hd (samples_of b t e (logs j))"
proof -
  have one: "length (samples_of b t e (logs i)) = 1" if "0 \<le> i" "i < iterations" for i
    using assms(11) [OF that] rounds_of_events(3) [OF assms(1-3)] by (simp add: rounds_logged_def)
  then have "samples_of b t e (logs j) \<noteq> []" using assms(9,10) by fastforce
  then show "stat_total e ps (int t) j (int b) = Inr (int (s_value (hd (samples_of b t e (logs j)))))"
    using stat_total_logged [OF assms(4-9) _ one] assms(10) by (simp add: hd_conv_nth)
  have all: "concat (map (\<lambda>i. samples_of b t e (logs i)) is) = map (\<lambda>i. hd (samples_of b t e (logs i))) is"
    if "set is \<subseteq> {0..iterations - 1}" for "is"
    using that
  proof (induction "is")
    case (Cons i "is")
    then obtain x where "samples_of b t e (logs i) = [x]" using one [of i] by (auto simp: length_Suc_conv)
    then show ?case using Cons by simp
  qed simp
  then have eq: "samples_of b t e (full_log iterations logs) = map (\<lambda>i. hd (samples_of b t e (logs i))) [0..iterations - 1]"
    by (simp add: samples_of_full_log)
  then show "nat j < length (samples_of b t e (full_log iterations logs))" using assms(9,10) by simp
  show "samples_of b t e (full_log iterations logs) ! nat j = hd (samples_of b t e (logs j))"
    using assms(9,10) by (simp add: eq nth_upto)
qed

text \<open>
  C26: the events the script counts are those the check file needs. When every round of every iteration
  samples each of its events once for a region and a thread, every column of every line can be computed,
  on both platforms: it is the value of its event in that iteration, except for the instructions, which
  every round samples and where line \<open>j\<close> shows round \<open>j mod R\<close> of iteration \<open>j div R\<close>, and except for
  the two or one columns the platform does not count, which are 0.
\<close>

theorem rounds_fill_columns:
  assumes "rounds_for platform = Some rounds"
    and "logged w (papi_prefix shfileN iterations) iterations logs" "log_ok T 0 (full_log iterations logs)"
    and "StatsPerfCounters_init shfileN iterations (int T) platform barriers w = Inr ps"
    and "b < getNumberBarriers ps" "t < T" "0 \<le> j" "j < iterations"
    and "\<And>i. 0 \<le> i \<Longrightarrow> i < iterations \<Longrightarrow> rounds_logged rounds b t (logs i)"
    and "ins = samples_of b t ''TOT_INS'' (logs (j div int (length rounds))) ! nat (j mod int (length rounds))"
    and "v = (\<lambda>e. PyInt (int (s_value (hd (samples_of b t e (logs j))))))"
  shows "check_values ps (int t) j (int b) = Inr
    (if platform = ''aarch64''
     then [v ''TOT_CYC'', PyInt (int (s_value ins)), v ''L1_DCA'', v ''L1_DCM'', v ''L1_ICA'', v ''L1_ICM'', PyFloat 0, v ''L2_DCM'']
     else [v ''TOT_CYC'', PyInt (int (s_value ins)), PyFloat 0, v ''L1_DCM'', PyFloat 0, v ''L1_ICM'', v ''L2_DCA'', v ''L2_DCM''])"
proof -
  note event = event_logged [OF assms(1) _ _ assms(2-9)]
  have p: "ps_runningOn ps = platform" using init_logged(1) [OF assms(2,3), of platform barriers] assms(4) by auto
  have e: "''TOT_CYC'' \<in> set (csv_events platform)" "''L1_DCM'' \<in> set (csv_events platform)"
    "''L1_ICM'' \<in> set (csv_events platform)" "''L2_DCM'' \<in> set (csv_events platform)"
    "platform = ''aarch64'' \<Longrightarrow> ''L1_DCA'' \<in> set (csv_events platform) \<and> ''L1_ICA'' \<in> set (csv_events platform)"
    "platform \<noteq> ''aarch64'' \<Longrightarrow> ''L2_DCA'' \<in> set (csv_events platform)"
    by (simp_all add: csv_events_def)
  have R: "length (samples_of b t ''TOT_INS'' (logs i)) = length rounds" if "0 \<le> i" "i < iterations" for i
    using assms(9) [OF that] rounds_of_events(1) [OF assms(1)] by (simp add: rounds_logged_def)
  have "iterations * 1 \<le> iterations * int (length rounds)"
    using rounds_of_events(2) [OF assms(1)] assms(7,8) by (intro mult_left_mono) linarith+
  then have "j < int (length rounds) * iterations" using assms(8) by (simp add: mult.commute)
  from stat_total_logged [OF assms(2-7) this R]
  have ins: "stat_total ''TOT_INS'' ps (int t) j (int b) = Inr (int (s_value ins))" by (simp add: assms(10))
  have l2: "getTotalL2DataMisses ps (int t) j (int b) = Inr (v ''L2_DCM'')"
    using L2_misses_logged [where ?'a = 'a and ?'b = 'a, OF assms(2-4) refl, of b t j] assms(5-7) event(2,3) [OF e(4)]
    by (simp add: assms(11))
  note col = event(1) [OF e(1)] event(1) [OF e(2)] event(1) [OF e(3)]
  show ?thesis
  proof (cases "platform = ''aarch64''")
    case True
    then show ?thesis
      using event(1) [of "''L1_DCA''"] event(1) [of "''L1_ICA''"] e(5) col
      by (simp add: check_values_def l2 ins p assms(11) getTotalCycles_def getTotalInstructions_def getTotalL1DataAccesses_def
          getTotalL1DataMisses_def getTotalL1InstAccesses_def getTotalL1InstMisses_def getTotalL2DataAccesses_def int_number_def)
  next
    case False
    then show ?thesis
      using event(1) [of "''L2_DCA''"] e(6) col
      by (simp add: check_values_def l2 ins p assms(11) getTotalCycles_def getTotalInstructions_def getTotalL1DataAccesses_def
          getTotalL1DataMisses_def getTotalL1InstAccesses_def getTotalL1InstMisses_def getTotalL2DataAccesses_def int_number_def)
  qed
qed

text \<open>One iteration of the two rounds of Arm, in one region on one thread.\<close>

definition arm_log :: "int \<Rightarrow> sample list" where
  "arm_log i = map (\<lambda>(e, v). \<lparr>s_stat = e, s_tid = 0, s_pid = 7, s_bid = 0, s_value = v\<rparr>)
     [(''TOT_INS'', 100), (''TOT_CYC'', 250), (''L1_DCA'', 40), (''L1_DCM'', 3),
      (''TOT_INS'', 101), (''L1_ICM'', 4), (''L1_ICA'', 60), (''L2_DCM'', 5)]"

definition arm_disk :: fs where
  "arm_disk = fs_of [(''mm.BP.rep0.papi'', papi_text (arm_log 0))]"

theorem rounds_fill_columns_witness:
  "\<exists>ps. StatsPerfCounters_init ''mm.BP.rep1.sh'' 1 (int 1) ''aarch64'' True arm_disk = Inr ps
     \<and> check_values ps 0 0 0 = Inr [PyInt 250, PyInt 100, PyInt 40, PyInt 3, PyInt 60, PyInt 4, PyFloat 0, PyInt 5 :: rat number]"
proof -
  have n: "str_int 1 = ''1''" "str_int 0 = ''0''" by code_simp+
  have p: "papi_prefix ''mm.BP.rep1.sh'' 1 = ''mm.BP.rep''" by (simp add: papi_prefix_def chop_def n)
  have v: "valid_sample x" if "x \<in> set (arm_log i)" for x i
    using that by (auto simp: arm_log_def valid_sample_def stat_name_def is_word_char_def is_digit_def)
  have log: "logged arm_disk (papi_prefix ''mm.BP.rep1.sh'' 1) 1 arm_log"
    using v by (auto simp: logged_def p n arm_disk_def)
  have full: "full_log 1 arm_log = arm_log 0" by (simp add: full_log_def)
  have ok: "log_ok 1 0 (full_log 1 arm_log)" by (simp add: full arm_log_def)
  obtain ps where ps: "StatsPerfCounters_init ''mm.BP.rep1.sh'' 1 (int 1) ''aarch64'' True arm_disk = Inr ps"
    "length (STATS ps) = foldl (\<lambda>n x. max n (Suc (s_bid x))) 0 (full_log 1 arm_log)"
    using init_logged(1) [OF log ok, of "''aarch64''" True] by blast
  have b: "0 < getNumberBarriers ps" using ps(2) by (simp add: getNumberBarriers_def full arm_log_def)
  have r: "rounds_for ''aarch64'' = Some PAPI_rounds_aarch64" by (simp add: rounds_for_def)
  have logged: "rounds_logged PAPI_rounds_aarch64 0 0 (arm_log i)" for i
    by (simp add: rounds_logged_def PAPI_rounds_aarch64_def arm_log_def samples_of_def)
  from rounds_fill_columns [OF r log ok ps(1) b _ _ _ logged refl refl, of 0, where ?'a = rat]
  have "check_values ps 0 0 0 = Inr [PyInt 250, PyInt 100, PyInt 40, PyInt 3, PyInt 60, PyInt 4, PyFloat 0, PyInt 5 :: rat number]"
    by (simp add: arm_log_def samples_of_def)
  then show ?thesis using ps(1) by blast
qed

text \<open>A configuration file with members of the types the program expects and the measurement switched on.\<close>

definition rb_config ::
    "json \<Rightarrow> string \<Rightarrow> string \<Rightarrow> string \<Rightarrow> string \<Rightarrow> bool \<Rightarrow> bool \<Rightarrow> (string \<times> string) list \<Rightarrow> int list \<Rightarrow> string list \<Rightarrow> int \<Rightarrow> bool" where
  "rb_config j rdir out benchp libp dry dbg apps nts sufs n =
     (\<exists>paths d dbg' ex bi on.
        json_get j ''paths'' = Inr paths \<and> json_get paths ''rootdir'' = Inr (JStr rdir)
        \<and> json_get paths ''benchpath'' = Inr (JStr benchp) \<and> json_get paths ''libspath'' = Inr (JStr libp)
        \<and> json_get paths ''outpath'' = Inr (JStr out)
        \<and> json_get j ''dry_run'' = Inr d \<and> truthy d = dry \<and> json_get j ''Debug'' = Inr dbg' \<and> truthy dbg' = dbg
        \<and> json_get j ''Suffix'' = Inr (JArr (map JStr sufs)) \<and> json_get j ''threads'' = Inr (JArr (map JInt nts))
        \<and> json_get j ''Perfcntrs_iterations'' = Inr (JInt n)
        \<and> json_get j ''execution'' = Inr ex \<and> json_get ex ''bp_identification'' = Inr bi
        \<and> json_get ex ''perfcntrs'' = Inr on \<and> truthy on
        \<and> json_get j ''Application'' = Inr (JObj (map (\<lambda>(ap, ps). (ap, JStr ps)) apps)))"

text \<open>
  The specification of the program: each job creates its object, then its script, then runs it and
  writes its results, on the disk its predecessor left; both steps must succeed.
\<close>

inductive rb_runs ::
    "(string \<Rightarrow> fs \<Rightarrow> int \<times> fs) \<Rightarrow> 'f numpy \<Rightarrow> (rat \<Rightarrow> string) \<Rightarrow> string
     \<Rightarrow> (string \<Rightarrow> int \<Rightarrow> bool \<Rightarrow> string \<Rightarrow> string \<Rightarrow> perf_experiment res)
     \<Rightarrow> ((string \<times> string) \<times> int \<times> string \<times> bool) list \<Rightarrow> fs \<Rightarrow> perf_experiment list \<Rightarrow> fs \<Rightarrow> bool"
  for shell np repr machine create where
  rb_done: "rb_runs shell np repr machine create [] w [] w"
| rb_next: "create ap nt b ps suf = Inr self0 \<Longrightarrow>
    CreateExperimentBatch self0 w = (True, self1, w1) \<Longrightarrow>
    RunExperimentBatch shell np repr self1 w1 = Inr (True, self2, w2) \<Longrightarrow>
    rb_runs shell np repr machine create jobs w2 selfs w' \<Longrightarrow>
    rb_runs shell np repr machine create (((ap, ps), nt, suf, b) # jobs) w (self2 # selfs) w'"

inductive_simps rb_runs_Nil: "rb_runs shell np repr machine create [] w selfs w'"
inductive_simps rb_runs_Cons: "rb_runs shell np repr machine create (((ap, ps), nt, suf, b) # jobs) w selfs w'"

lemma rb_experiment_Inr:
  assumes "rb_rootdir st = JStr rdir" "rb_benchpath st = JStr benchp" "rb_libspath st = JStr libp"
    and "rb_outpath st = JStr out" "rb_iters st = JInt n"
  shows "rb_experiment shell np repr machine st (xs, w) ((ap, JStr ps), JInt nt, JStr suf, b) = Inr (xs', w')
    \<longleftrightarrow> (\<exists>self0 self1 w1 self2.
          Experiment_init machine ap nt b ps n rdir (out @ ''/bperf.'' @ suf) suf libp (rb_debug st) (rb_dry_run st) benchp = Inr self0
          \<and> CreateExperimentBatch self0 w = (True, self1, w1)
          \<and> RunExperimentBatch shell np repr self1 w1 = Inr (True, self2, w') \<and> xs' = xs @ [self2])"
proof -
  let ?init = "Experiment_init machine ap nt b ps n rdir (out @ ''/bperf.'' @ suf) suf libp (rb_debug st) (rb_dry_run st) benchp"
  have "rb_experiment shell np repr machine st (xs, w) ((ap, JStr ps), JInt nt, JStr suf, b)
      = bindE ?init (\<lambda>self0. case CreateExperimentBatch self0 w of (ok, self1, w1) \<Rightarrow>
          if \<not> ok then Inl SystemExit
          else bindE (RunExperimentBatch shell np repr self1 w1) (\<lambda>(ok2, self2, w2).
            if \<not> ok2 then Inl SystemExit else Inr (xs @ [self2], w2)))"
    using assms by (simp add: rb_experiment_def)
  moreover have "(case CreateExperimentBatch self0 w of (ok, self1, w1) \<Rightarrow>
          if \<not> ok then Inl SystemExit
          else bindE (RunExperimentBatch shell np repr self1 w1) (\<lambda>(ok2, self2, w2).
            if \<not> ok2 then Inl SystemExit else Inr (xs @ [self2], w2))) = Inr (xs', w')
      \<longleftrightarrow> (\<exists>self1 w1 self2. CreateExperimentBatch self0 w = (True, self1, w1)
          \<and> RunExperimentBatch shell np repr self1 w1 = Inr (True, self2, w') \<and> xs' = xs @ [self2])" for self0
    by (cases "CreateExperimentBatch self0 w") (auto simp: bindE_eq_Inr split: if_splits)
  ultimately show ?thesis by (simp add: bindE_eq_Inr)
qed

lemma rb_fold_runs:
  assumes "rb_rootdir st = JStr rdir" "rb_benchpath st = JStr benchp" "rb_libspath st = JStr libp"
    and "rb_outpath st = JStr out" "rb_iters st = JInt n"
  shows "foldE (\<lambda>s ((ap, ps), nt, suf, b). rb_experiment shell np repr machine st s ((ap, JStr ps), JInt nt, JStr suf, b))
        (done, w) jobs = Inr (theApps, w')
    \<longleftrightarrow> (\<exists>selfs. theApps = done @ selfs \<and> rb_runs shell np repr machine (\<lambda>ap nt b ps suf.
          Experiment_init machine ap nt b ps n rdir (out @ ''/bperf.'' @ suf) suf libp (rb_debug st) (rb_dry_run st) benchp)
          jobs w selfs w')"
proof (induction jobs arbitrary: "done" w)
  case Nil
  then show ?case by (auto simp: rb_runs_Nil)
next
  case (Cons job jobs)
  obtain ap ps nt suf b where job: "job = ((ap, ps), nt, suf, b)" by (metis prod.exhaust)
  show ?case
    by (simp add: job bindE_eq_Inr rb_runs_Cons rb_experiment_Inr [OF assms] Cons.IH) (intro iffI; elim exE conjE; simp; blast)
qed

text \<open>
  C22: for a configuration with the expected members the program ends normally exactly when every
  measurement succeeds, one after the other: for every application, thread count and suffix, first for
  the whole application and then per parallel region, an experiment is created, its script is written,
  run, and its results are parsed and written, on the disk the previous one left. The program returns
  the experiments in this order and the last disk; it ends early when a script cannot be written or a
  measurement fails.
\<close>

theorem RunBenchmarks_main_runs:
  assumes "rb_config j rdir out benchp libp dry dbg apps nts sufs n"
  shows "(RunBenchmarks_main shell np repr machine j w = Inr (theApps, w')
      \<longleftrightarrow> rb_runs shell np repr machine (\<lambda>ap nt b ps suf.
            Experiment_init machine ap nt b ps n rdir (out @ ''/bperf.'' @ suf) suf libp dbg dry benchp)
          (product2 apps (product3 nts sufs [False, True])) w theApps w')
    \<and> (RunBenchmarks_main shell np repr machine j w = Inr (theApps, w') \<longrightarrow>
        map ex_id theApps = product2 (map fst apps) (product3 nts sufs [False, True]))"
proof -
  let ?st = "\<lparr>rb_rootdir = JStr rdir, rb_benchpath = JStr benchp, rb_libspath = JStr libp, rb_dry_run = dry,
    rb_debug = dbg, rb_suffix = JArr (map JStr sufs), rb_outpath = JStr out, rb_threads = JArr (map JInt nts), rb_iters = JInt n\<rparr>"
  let ?jobs = "product2 apps (product3 nts sufs [False, True])"
  have st: "rb_read_settings j = Inr ?st" using assms by (auto simp: rb_config_def rb_read_settings_def)
  have apps: "rb_app_dict j = Inr (map (\<lambda>(ap, ps). (ap, JStr ps)) apps)"
    using assms by (auto simp: rb_config_def rb_app_dict_def)
  have jobs: "product2 (map (\<lambda>(ap, ps). (ap, JStr ps)) apps) (product3 (map JInt nts) (map JStr sufs) [False, True])
      = map (\<lambda>((ap, ps), nt, suf, b). ((ap, JStr ps), JInt nt, JStr suf, b)) ?jobs"
    by (simp add: product3_def product2_def map_concat comp_def case_prod_beta)
  have "RunBenchmarks_main shell np repr machine j w
      = foldE (rb_experiment shell np repr machine ?st) ([], w)
          (map (\<lambda>((ap, ps), nt, suf, b). ((ap, JStr ps), JInt nt, JStr suf, b)) ?jobs)"
    using assms by (auto simp: RunBenchmarks_main_def st apps jobs rb_config_def)
  also have "\<dots> = foldE (\<lambda>s ((ap, ps), nt, suf, b). rb_experiment shell np repr machine ?st s ((ap, JStr ps), JInt nt, JStr suf, b))
      ([], w) ?jobs"
    unfolding foldE_map by (rule arg_cong [of _ _ "\<lambda>f. foldE f ([], w) ?jobs"]) (auto simp: fun_eq_iff)
  finally have "RunBenchmarks_main shell np repr machine j w = Inr (theApps, w')
      \<longleftrightarrow> rb_runs shell np repr machine (\<lambda>ap nt b ps suf.
            Experiment_init machine ap nt b ps n rdir (out @ ''/bperf.'' @ suf) suf libp dbg dry benchp) ?jobs w theApps w'"
    using rb_fold_runs [of ?st rdir benchp libp out n shell np repr machine "[]" w ?jobs theApps w'] by simp
  moreover have "map ex_id selfs = map (\<lambda>((ap, ps), nt, suf, b). (ap, nt, suf, b)) jobs"
    if "rb_runs shell np repr machine (\<lambda>ap nt b ps suf.
            Experiment_init machine ap nt b ps n rdir (out @ ''/bperf.'' @ suf) suf libp dbg dry benchp) jobs w0 selfs w'"
    for jobs w0 selfs w'
    using that
    by (induction rule: rb_runs.induct)
      (auto dest!: Experiment_init_id CreateExperimentBatch_id res_allD [OF RunExperimentBatch_id])
  moreover have "map (\<lambda>((ap, ps), nt, suf, b). (ap, nt, suf, b)) ?jobs = product2 (map fst apps) (product3 nts sufs [False, True])"
    unfolding map_product2 [of fst "\<lambda>x. x" apps "product3 nts sufs [False, True]", simplified, symmetric]
    by (rule map_cong) auto
  ultimately show ?thesis by simp
qed

text \<open>A disk on which everything can be written and nothing be read: a script that does nothing then leaves no counters.\<close>

definition quiet :: "fs \<Rightarrow> bool" where
  "quiet w = (\<forall>p. writable w p \<and> creatable w p \<and> \<not> readable w p)"

lemma quiet_create:
  assumes "quiet w" "ex_runningOn self = ''x86_64''"
  shows "\<exists>self' w'. CreateExperimentBatch self w = (True, self', w') \<and> quiet w' \<and> is_file w' (ex_shfileN self')"
  using assms by (auto simp: CreateExperimentBatch_def rounds_for_def make_dirs_def write_file_def quiet_def is_file_def Let_def)

lemma quiet_parse:
  assumes "quiet w"
  shows "\<exists>st. StatsPerfCounters_init sh it nt p b w = Inr st \<and> STATS st = []"
proof -
  have "foldE (parse_papi_file nt prefix w) s is = Inr s" for prefix s "is"
    using assms by (induction "is") (simp_all add: parse_papi_file_def open_read_def quiet_def)
  then show ?thesis by (simp add: StatsPerfCounters_init_def Let_def)
qed

lemma quiet_run:
  assumes "quiet w" "is_file w (ex_shfileN self)"
  shows "\<exists>self' w'. RunExperimentBatch (\<lambda>cmd w. (0, w)) np repr self w = Inr (True, self', w') \<and> quiet w'"
proof -
  obtain st where st: "StatsPerfCounters_init (ex_shfileN self) (ex_iterations self) (ex_nthreads self) (ex_runningOn self)
      (ex_barriers self) w = Inr st" "STATS st = []"
    using quiet_parse [OF assms(1)] by blast
  have "check_csv np repr x st = Inr (line check_header)" "avg_csv np repr x st = Inr (line avg_header)" for x
    using st(2) by (simp_all add: check_csv_def avg_csv_def getNumberBarriers_def product3_def)
  then show ?thesis
    using assms st by (simp add: RunExperimentBatch_def write_csv_def Let_def quiet_def)
qed

lemma quiet_experiment:
  assumes "quiet w" "rb_outpath st = JStr out" "rb_iters st = JInt it" "rb_rootdir st = JStr rdir"
    "rb_libspath st = JStr libp" "rb_benchpath st = JStr benchp"
  shows "\<exists>xs' w'. rb_experiment (\<lambda>cmd w. (0, w)) np repr ''x86_64'' st (xs, w) ((ap, JStr []), JInt n, JStr s, b) = Inr (xs', w') \<and> quiet w'"
proof -
  obtain self where self: "Experiment_init ''x86_64'' ap n b [] it rdir (out @ ''/bperf.'' @ s) s libp (rb_debug st) (rb_dry_run st) benchp = Inr self"
    "ex_runningOn self = ''x86_64''"
    by (simp add: Experiment_init_def Experiment_GetBenchParams_def platform_of_def)
  obtain self1 w1 where 1: "CreateExperimentBatch self w = (True, self1, w1)" "quiet w1" "is_file w1 (ex_shfileN self1)"
    using quiet_create [OF assms(1) self(2)] by blast
  obtain self2 w2 where 2: "RunExperimentBatch (\<lambda>cmd w. (0, w)) np repr self1 w1 = Inr (True, self2, w2)" "quiet w2"
    using quiet_run [OF 1(2,3)] by blast
  show ?thesis using assms(2-6) self(1) 1(1) 2 by (simp add: rb_experiment_def)
qed

definition rb_sample_config :: json where
  "rb_sample_config = JObj
     [(''paths'', JObj [(''rootdir'', JStr ''./''), (''benchpath'', JStr ''b''), (''libspath'', JStr ''l''), (''outpath'', JStr ''o'')]),
      (''execution'', JObj [(''bp_identification'', JBool True), (''perfcntrs'', JBool True)]),
      (''threads'', JArr [JInt 4]), (''Application'', JObj [(''mm'', JStr [])]),
      (''Suffix'', JArr [JStr ''a'']), (''Debug'', JBool False),
      (''DR_iterations'', JInt 2), (''Perfcntrs_iterations'', JInt 3), (''dry_run'', JBool False)]"

definition sample_numpy :: "rat numpy" where
  "sample_numpy = \<lparr>np_mean = \<lambda>xs. of_int (sum_list xs) / of_nat (length xs), np_std = \<lambda>_. 0, np_show = \<lambda>_. ''x''\<rparr>"

theorem RunBenchmarks_main_runs_witness:
  "\<exists>theApps w'. RunBenchmarks_main (\<lambda>cmd w. (0, w)) sample_numpy (\<lambda>_. []) ''x86_64'' rb_sample_config
       ((fs_of [])\<lparr>readable := \<lambda>_. False\<rparr>) = Inr (theApps, w')
     \<and> rb_runs (\<lambda>cmd w. (0, w)) sample_numpy (\<lambda>_. []) ''x86_64'' (\<lambda>ap nt b ps suf.
          Experiment_init ''x86_64'' ap nt b ps 3 ''./'' (''o/bperf.'' @ suf) suf ''l'' False False ''b'')
          [((''mm'', []), 4, ''a'', False), ((''mm'', []), 4, ''a'', True)]
          ((fs_of [])\<lparr>readable := \<lambda>_. False\<rparr>) theApps w'
     \<and> map ex_id theApps = [(''mm'', 4, ''a'', False), (''mm'', 4, ''a'', True)]"
proof -
  let ?w = "(fs_of [])\<lparr>readable := \<lambda>_. False\<rparr>" and ?shell = "\<lambda>cmd w :: fs. (0 :: int, w)" and ?repr = "\<lambda>_ :: rat. [] :: string"
  let ?st = "\<lparr>rb_rootdir = JStr ''./'', rb_benchpath = JStr ''b'', rb_libspath = JStr ''l'', rb_dry_run = False,
    rb_debug = False, rb_suffix = JArr [JStr ''a''], rb_outpath = JStr ''o'', rb_threads = JArr [JInt 4], rb_iters = JInt 3\<rparr>"
  have st: "rb_read_settings rb_sample_config = Inr ?st" by (simp add: rb_read_settings_def rb_sample_config_def)
  have apps: "rb_app_dict rb_sample_config = Inr [(''mm'', JStr [])]" by (simp add: rb_app_dict_def rb_sample_config_def)
  note ex = quiet_experiment [of _ ?st "''o''" 3 "''./''" "''l''" "''b''" sample_numpy ?repr, simplified]
  have "quiet ?w" by (simp add: quiet_def fs_of_def)
  then obtain xs1 w1 where 1: "rb_experiment ?shell sample_numpy ?repr ''x86_64'' ?st ([], ?w) ((''mm'', JStr []), JInt 4, JStr ''a'', False) = Inr (xs1, w1)" "quiet w1"
    using ex by blast
  obtain xs2 w2 where 2: "rb_experiment ?shell sample_numpy ?repr ''x86_64'' ?st (xs1, w1) ((''mm'', JStr []), JInt 4, JStr ''a'', True) = Inr (xs2, w2)"
    using ex [OF 1(2)] by blast
  have "json_get rb_sample_config ''execution'' = Inr (JObj [(''bp_identification'', JBool True), (''perfcntrs'', JBool True)])"
    by (simp add: rb_sample_config_def)
  then have run: "RunBenchmarks_main ?shell sample_numpy ?repr ''x86_64'' rb_sample_config ?w = Inr (xs2, w2)"
    using 1(1) 2 by (simp add: RunBenchmarks_main_def st apps product3_def product2_def)
  have "rb_config rb_sample_config ''./'' ''o'' ''b'' ''l'' False False [(''mm'', [])] [4] [''a''] 3"
    by (simp add: rb_config_def rb_sample_config_def)
  from RunBenchmarks_main_runs [OF this, of ?shell sample_numpy ?repr "''x86_64''" ?w xs2 w2] run
  show ?thesis by (auto simp: product3_def product2_def)
qed

text \<open>
  C19: the script has run and ended with 0, or this is a dry run over the counters of an earlier one. When
  every event was counted in every iteration, the method returns \<open>True\<close> and adds exactly two files to
  what the script left. The check file has one line per thread, iteration and barrier, in this order of
  nesting, whose fields are the values of the table; the other file has one line per thread and barrier
  with the means over the iterations.
\<close>

theorem RunExperimentBatch_writes:
  assumes "is_file w (base @ ''.sh'')" "ex_shfileN self = base @ ''.sh''"
    and "(if ex_dryRun self then (0, w) else shell (ex_shfileN self) w) = (0, w1)"
    and "StatsPerfCounters_init (ex_shfileN self) (ex_iterations self) (ex_nthreads self) (ex_runningOn self) (ex_barriers self) w1 = Inr st"
    and "complete_table st (ex_nthreads self) (ex_iterations self)"
    and "writable w1 (base @ ''.check.csv'')" "writable w1 (base @ ''.csv'')"
  shows "\<exists>self' w' xs ys. RunExperimentBatch shell np repr self w = Inr (True, self', w') \<and> ex_stats self' = Some st
    \<and> xs = product3 [0..ex_nthreads self - 1] [0..ex_iterations self - 1] [0..int (getNumberBarriers st) - 1]
    \<and> length xs = nat (ex_nthreads self) * nat (ex_iterations self) * getNumberBarriers st
    \<and> files w' (base @ ''.check.csv'')
        = Some (line check_header @ concat (map (\<lambda>x. line (join '','' (check_fields np repr (ex_miniApp self) st x))) xs))
    \<and> ys = product2 [0..ex_nthreads self - 1] [0..int (getNumberBarriers st) - 1]
    \<and> files w' (base @ ''.csv'')
        = Some (line avg_header @ concat (map (\<lambda>y. line (join '','' (avg_fields np repr (ex_miniApp self) st y))) ys))
    \<and> (\<forall>p. p \<notin> {base @ ''.check.csv'', base @ ''.csv''} \<longrightarrow> files w' p = files w1 p)"
  unfolding RunExperimentBatch_complete [of w base self shell w1 st np repr, OF assms]
  by (simp add: product3_def length_concat comp_def sum_list_triv getNumberBarriers_def)

text \<open>One iteration of one thread in one parallel region, with the three rounds of x86.\<close>

definition region_log :: "int \<Rightarrow> sample list" where
  "region_log i = map (\<lambda>(e, v). \<lparr>s_stat = e, s_tid = 0, s_pid = 7, s_bid = 0, s_value = v\<rparr>)
     [(''TOT_INS'', 100), (''TOT_CYC'', 250), (''TOT_INS'', 101), (''L1_DCM'', 3), (''L1_ICM'', 4),
      (''TOT_INS'', 102), (''L2_DCM'', 5), (''L2_DCA'', 7)]"

definition region_disk :: fs where
  "region_disk = fs_of [(''mm.BP.rep1.sh'', []), (''mm.BP.rep0.papi'', papi_text (region_log 0))]"

definition region_experiment :: perf_experiment where
  "region_experiment = sample_experiment\<lparr>ex_iterations := 1, ex_dryRun := False, ex_shfileN := ''mm.BP.rep1.sh''\<rparr>"

lemma region_experiment_fields [simp]:
  "ex_shfileN region_experiment = ''mm.BP.rep1.sh''" "ex_iterations region_experiment = 1" "ex_nthreads region_experiment = int 1"
  "ex_runningOn region_experiment = ''x86_64''" "\<not> ex_dryRun region_experiment" "ex_miniApp region_experiment = ''mm''"
  by (simp_all add: region_experiment_def sample_experiment_def Experiment_init_def Experiment_GetBenchParams_def platform_of_def)

lemma region_parsed:
  "\<exists>ps. StatsPerfCounters_init ''mm.BP.rep1.sh'' 1 (int 1) ''x86_64'' b region_disk = Inr ps
    \<and> complete_table ps 1 1 \<and> ps_runningOn ps = ''x86_64'' \<and> length (STATS ps) = 1
    \<and> (\<forall>e. (STATS ps ! 0 ! 0) e = entries 0 0 0 e (region_log 0))"
proof -
  have n: "str_int 1 = ''1''" "str_int 0 = ''0''" by code_simp+
  have p: "papi_prefix ''mm.BP.rep1.sh'' 1 = ''mm.BP.rep''" by (simp add: papi_prefix_def chop_def n)
  have v: "valid_sample x" if "x \<in> set (region_log i)" for x i
    using that by (auto simp: region_log_def valid_sample_def stat_name_def is_word_char_def is_digit_def)
  have log: "logged region_disk (papi_prefix ''mm.BP.rep1.sh'' 1) 1 region_log"
    using v by (auto simp: logged_def p n region_disk_def)
  have full: "full_log 1 region_log = region_log 0" by (simp add: full_log_def)
  have "log_ok 1 0 (full_log 1 region_log)" by (simp add: full region_log_def)
  from init_logged(1) [OF log this, of "''x86_64''" b] obtain ps where
    ps: "StatsPerfCounters_init ''mm.BP.rep1.sh'' 1 (int 1) ''x86_64'' b region_disk = Inr ps" "ps_runningOn ps = ''x86_64''"
    "table_ok 1 (STATS ps, replicate (length (STATS ps)) (replicate 1 0))"
    "length (STATS ps) = foldl (\<lambda>n x. max n (Suc (s_bid x))) 0 (region_log 0)"
    "\<forall>b < length (STATS ps). \<forall>t < 1. \<forall>e. (STATS ps ! b ! t) e = entries 0 b t e (region_log 0)"
    by (auto simp only: full)
  have len: "length (STATS ps) = 1" using ps(4) by (simp add: region_log_def)
  then obtain d where d: "STATS ps = [[d]]"
    using ps(3) by (auto simp: table_ok_def length_Suc_conv)
  have e: "d e = entries 0 0 0 e (region_log 0)" for e using ps(5) d by simp
  have "1 \<le> length (d e)" if "e \<in> set (csv_events ''x86_64'')" for e
    using that by (auto simp: e csv_events_def region_log_def)
  then have "complete_table ps 1 1" by (force simp: complete_table_def d ps(2))
  then show ?thesis using ps(1,2) len d e by simp
qed

theorem RunExperimentBatch_writes_witness:
  "\<exists>self' w'. RunExperimentBatch (\<lambda>cmd w. (0, region_disk)) sample_numpy (\<lambda>_. ''0.0'') region_experiment
       (fs_of [(''mm.BP.rep1.sh'', [])]) = Inr (True, self', w')
     \<and> files w' ''mm.BP.rep1.check.csv'' = Some (line check_header @ line ''mm,0,0,0,250,100,0.0,3,0.0,4,7,5'')
     \<and> files w' ''mm.BP.rep1.csv'' = Some (line avg_header @ line ''mm,0,0,x,x,0.0,x,0.0,x,x,x'')"
proof -
  let ?shell = "\<lambda>(cmd :: string) (w :: fs). (0 :: int, region_disk)"
  obtain st where st: "StatsPerfCounters_init (ex_shfileN region_experiment) (ex_iterations region_experiment)
      (ex_nthreads region_experiment) (ex_runningOn region_experiment) (ex_barriers region_experiment) region_disk = Inr st"
    and c: "complete_table st (ex_nthreads region_experiment) (ex_iterations region_experiment)"
    and t: "ps_runningOn st = ''x86_64''" "length (STATS st) = 1" "\<And>e. (STATS st ! 0 ! 0) e = entries 0 0 0 e (region_log 0)"
    using region_parsed [of "ex_barriers region_experiment"] by auto
  have n: "str_int 0 = ''0''" "str_int 250 = ''250''" "str_int 100 = ''100''" "str_int 3 = ''3''" "str_int 4 = ''4''"
    "str_int 7 = ''7''" "str_int 5 = ''5''" by code_simp+
  have f: "check_fields sample_numpy (\<lambda>_. ''0.0'') ''mm'' st (0, 0, 0)
      = [''mm'', ''0'', ''0'', ''0'', ''250'', ''100'', ''0.0'', ''3'', ''0.0'', ''4'', ''7'', ''5'']"
    by (simp add: check_fields_def check_numbers_def table_value_def t region_log_def show_number_def n Let_def)
  have a: "avg_fields sample_numpy (\<lambda>_. ''0.0'') ''mm'' st (0, 0)
      = [''mm'', ''0'', ''0'', ''x'', ''x'', ''0.0'', ''x'', ''0.0'', ''x'', ''x'', ''x'']"
    by (simp add: avg_fields_def avg_numbers_def t show_number_def n sample_numpy_def Let_def)
  have w: "is_file (fs_of [(''mm.BP.rep1.sh'', [])]) (''mm.BP.rep1'' @ ''.sh'')"
    "ex_shfileN region_experiment = ''mm.BP.rep1'' @ ''.sh''" "writable region_disk p" for p
    by (simp_all add: region_disk_def is_file_def fs_of_def)
  have r: "(if ex_dryRun region_experiment then (0, fs_of [(''mm.BP.rep1.sh'', [])])
      else ?shell (ex_shfileN region_experiment) (fs_of [(''mm.BP.rep1.sh'', [])])) = (0, region_disk)" by simp
  have x: "product3 [0..ex_nthreads region_experiment - 1] [0..ex_iterations region_experiment - 1]
      [0..int (getNumberBarriers st) - 1] = [(0, 0, 0)]" "[0..int (getNumberBarriers st) - 1] = [0]"
    by (simp_all add: getNumberBarriers_def t product3_def product2_def)
  from RunExperimentBatch_writes [OF w(1,2) r st c w(3,3), of sample_numpy "\<lambda>_. ''0.0''"]
  show ?thesis unfolding x by (auto simp: f a product2_def product3_def)
qed

end
