(* ===== verification/Error_Estimate.thy ===== *)
theory Error_Estimate
  imports Py_Text Py_Json
begin

text \<open>
  Class \<open>errorEstimate\<close> of \<open>errorEstimate.py\<close>: the barrier point selections of every iteration
  and the two CSV files of a performance run are loaded, and a metric of the whole run is estimated
  from the selected regions.

  \<open>walk\<close> is \<open>os.walk\<close>: the folders below a path with their subfolders and files, in the order of the
  file system. A \<open>defaultdict(list)\<close> with integer keys is kept as a list of its items, because the
  program counts and sorts its keys; one with event names as keys is a total function. The mean and
  the deviation of numpy are arguments.
\<close>

section \<open>State\<close>

type_synonym 'v ddict = "(int \<times> 'v list) list"

type_synonym walker = "string \<Rightarrow> (string \<times> string list \<times> string list) list"

text \<open>Event name, then iteration, then barrier.\<close>

type_synonym thread_table = "string \<Rightarrow> rat list list"

definition dd_get :: "'v ddict \<Rightarrow> int \<Rightarrow> 'v list" where
  "dd_get d k = (case map_of d k of None \<Rightarrow> [] | Some vs \<Rightarrow> vs)"

text \<open>A read of a missing key inserts it.\<close>

definition dd_touch :: "'v ddict \<Rightarrow> int \<Rightarrow> 'v ddict" where
  "dd_touch d k = (if k \<in> fst ` set d then d else d @ [(k, [])])"

definition dd_append :: "'v ddict \<Rightarrow> int \<Rightarrow> 'v \<Rightarrow> 'v ddict" where
  "dd_append d k v = map (\<lambda>(k', vs). if k' = k then (k', vs @ [v]) else (k', vs)) (dd_touch d k)"

record error_estimate =
  ee_prfcntrs_suf :: string
  BPs :: "int ddict"
  BPs_mult :: "rat ddict"
  STATSt :: "thread_table list"
  STATSbp :: "thread_table list"
  ee_miniApp :: "string option"
  ee_iterations :: "int option"
  ee_nthreads :: "int option"
  ee_numbarriers :: "int option"

section \<open>The barrier point files\<close>

definition bp_subdirs :: "walker \<Rightarrow> fs \<Rightarrow> string \<Rightarrow> string list" where
  "bp_subdirs walk w path = drop 1 (filter (dirs w) (map fst (walk path)))"

text \<open>The first \<open>.barrierpoints\<close> file of a folder.\<close>

definition bp_file :: "walker \<Rightarrow> string \<Rightarrow> string res" where
  "bp_file walk sd =
     bindE (get_item (walk sd) 0) (\<lambda>(_, _, fns).
       get_item (filter (ends_with ''.barrierpoints'') fns) 0)"

definition bp_line :: "int \<Rightarrow> int ddict \<times> rat ddict \<Rightarrow> string \<Rightarrow> (int ddict \<times> rat ddict) res" where
  "bp_line k = (\<lambda>(bps, mults) line.
     let f = split_on CHR '' '' line in
     bindE (get_item f 0) (\<lambda>a.
     bindE (py_int a) (\<lambda>n.
     bindE (get_item f 1) (\<lambda>b.
     bindE (py_float (strip b)) (\<lambda>x.
       Inr (dd_append bps k n, dd_append mults k x))))))"

text \<open>The files one after the other; \<open>None\<close> when one of them cannot be opened.\<close>

fun load_bps :: "fs \<Rightarrow> (string \<times> string) list \<Rightarrow> int ddict \<times> rat ddict \<Rightarrow> (bool \<times> int ddict \<times> rat ddict) res" where
  "load_bps w [] s = Inr (True, s)"
| "load_bps w ((p, f) # pfs) s =
     (case open_read w (p @ ''/'' @ f) of
        None \<Rightarrow> Inr (False, s)
      | Some txt \<Rightarrow>
          bindE (py_int (last (split_on CHR ''/'' p))) (\<lambda>k.
          bindE (foldE (bp_line k) s (file_lines txt)) (\<lambda>(bps, mults).
            load_bps w pfs (dd_touch bps k, dd_touch mults k))))"

section \<open>The CSV files\<close>

text \<open>A row of \<open>csv.reader\<close>. The files of the tool hold no quotes, which have a meaning of their own.\<close>

definition csv_row :: "string \<Rightarrow> string list res" where
  "csv_row line =
     (let s = filter (\<lambda>c. c \<noteq> newline) line in
      if CHR 0x22 \<in> set s then Inl OutOfModel
      else Inr (if s = [] then [] else split_on CHR '','' s))"

definition csv_rows :: "string \<Rightarrow> string list list res" where
  "csv_rows txt = mapE csv_row (file_lines txt)"

text \<open>One value of a row: the inner loop over \<open>enumerate(_line[4:])\<close>.\<close>

definition add_value ::
    "string list \<Rightarrow> int \<Rightarrow> int \<Rightarrow> int \<Rightarrow> thread_table list \<Rightarrow> nat \<times> string \<Rightarrow> thread_table list res" where
  "add_value stat tid itr bid st = (\<lambda>(i, value).
     bindE (get_item st tid) (\<lambda>d.
     bindE (get_item stat (int i)) (\<lambda>s.
     let its = (if int (length (d s)) < itr + 1 then d s @ [[]] else d s) in
     bindE (get_item its itr) (\<lambda>vs.
     bindE (py_float value) (\<lambda>x.
     bindE (set_item its itr (vs @ [x])) (\<lambda>its'.
     bindE (set_item st tid (d(s := its'))) (\<lambda>st'.
       if int (length (vs @ [x])) \<noteq> bid + 1 then Inl AssertionError else Inr st')))))))"

text \<open>A row: the table, the name of the application, and the last thread and barrier that were read.\<close>

definition add_row ::
    "string list \<Rightarrow> thread_table list \<times> (string \<times> int \<times> int) option \<Rightarrow> string list
     \<Rightarrow> (thread_table list \<times> (string \<times> int \<times> int) option) res" where
  "add_row stat = (\<lambda>(st, _) row.
     bindE (get_item row 0) (\<lambda>app.
     bindE (bindE (get_item row 1) py_int) (\<lambda>tid.
     bindE (bindE (get_item row 2) py_int) (\<lambda>itr.
     bindE (bindE (get_item row 3) py_int) (\<lambda>bid.
     let st1 = (if int (length st) < tid + 1 then st @ [\<lambda>_. []] else st) in
     bindE (foldE (add_value stat tid itr bid) st1 (List.enumerate 0 (drop 4 row))) (\<lambda>st2.
       Inr (st2, Some (app, tid, bid))))))))"

definition load_csv :: "string \<Rightarrow> (thread_table list \<times> (string \<times> int \<times> int) option) res" where
  "load_csv txt =
     bindE (csv_rows txt) (\<lambda>rows.
       case rows of [] \<Rightarrow> Inl StopIteration | header # body \<Rightarrow> foldE (add_row (drop 4 header)) ([], None) body)"

section \<open>The constructor\<close>

definition load_barriers_csv ::
    "fs \<Rightarrow> string \<Rightarrow> int \<Rightarrow> error_estimate \<Rightarrow> error_estimate res" where
  "load_barriers_csv w gbarriers bid0 self =
     (case open_read w gbarriers of
        None \<Rightarrow> Inr self
      | Some txt \<Rightarrow>
          bindE (load_csv txt) (\<lambda>(st, l).
            Inr (self\<lparr>STATSbp := st,
                      ee_numbarriers := Some (case l of None \<Rightarrow> bid0 | Some (_, _, bid) \<Rightarrow> bid)\<rparr>)))"

definition load_baseline_csv ::
    "fs \<Rightarrow> string \<Rightarrow> string \<Rightarrow> error_estimate \<Rightarrow> error_estimate res" where
  "load_baseline_csv w fbaseline gbarriers self =
     (case open_read w fbaseline of
        None \<Rightarrow> Inr self
      | Some txt \<Rightarrow>
          bindE (load_csv txt) (\<lambda>(st, l).
            case l of
              None \<Rightarrow> Inl UnboundLocalError
            | Some (app, tid, bid) \<Rightarrow>
                bindE (get_item st tid) (\<lambda>d.
                  load_barriers_csv w gbarriers bid
                    (self\<lparr>STATSt := st, ee_miniApp := Some app,
                          ee_iterations := Some (int (length (d ''Cycles''))),
                          ee_nthreads := Some (int (length st))\<rparr>))))"

definition errorEstimate_init ::
    "walker \<Rightarrow> string \<Rightarrow> string \<Rightarrow> string \<Rightarrow> string \<Rightarrow> fs \<Rightarrow> error_estimate res" where
  "errorEstimate_init walk fbaseline gbarriers bbpoints suf w =
     (let subdirs = bp_subdirs walk w bbpoints in
      bindE (mapE (bp_file walk) subdirs) (\<lambda>fns.
      bindE (load_bps w (zip subdirs fns) ([], [])) (\<lambda>(ok, bps, mults).
        let self = \<lparr>ee_prfcntrs_suf = suf, BPs = bps, BPs_mult = mults, STATSt = [], STATSbp = [],
                    ee_miniApp = None, ee_iterations = None, ee_nthreads = None, ee_numbarriers = None\<rparr>
        in if ok then load_baseline_csv w fbaseline gbarriers self else Inr self)))"

section \<open>Metrics\<close>

text \<open>The values \<open>Metric\<close> averages: one per iteration of the whole run.\<close>

definition metric_values :: "error_estimate \<Rightarrow> string \<Rightarrow> int \<Rightarrow> int \<Rightarrow> rat list res" where
  "metric_values self metric tid bid =
     bindE (get_item (STATSt self) tid) (\<lambda>d. mapE (\<lambda>x. get_item x bid) (d metric))"

definition Metric ::
    "(rat list \<Rightarrow> 'f) \<Rightarrow> (rat list \<Rightarrow> 'f) \<Rightarrow> error_estimate \<Rightarrow> string \<Rightarrow> int \<Rightarrow> int \<Rightarrow> ('f \<times> 'f) res" where
  "Metric mean std self metric tid bid =
     bindE (metric_values self metric tid bid) (\<lambda>vs. Inr (mean vs, std vs))"

text \<open>
  One barrier point of \<open>EstMetric\<close>: its value in every iteration times its multiplier is added, unless
  the barrier point lies outside the table.
\<close>

definition est_step ::
    "error_estimate \<Rightarrow> string \<Rightarrow> int \<Rightarrow> int \<Rightarrow> rat list \<Rightarrow> nat \<times> int \<Rightarrow> rat list res" where
  "est_step self metric tid k values = (\<lambda>(i, bp).
     bindE (get_item (STATSbp self) tid) (\<lambda>d.
     bindE (get_item (d metric) 0) (\<lambda>first.
       if int (length first) < bp then Inr values
       else mapE (\<lambda>(x, row).
              bindE (get_item (dd_get (BPs_mult self) k) (int i)) (\<lambda>m.
              bindE (get_item row bp) (\<lambda>y. Inr (fadd x (fmul m y)))))
            (zip values (d metric)))))"

definition est_values :: "error_estimate \<Rightarrow> string \<Rightarrow> int \<Rightarrow> int \<Rightarrow> rat list res" where
  "est_values self metric tid k =
     (case ee_iterations self of
        None \<Rightarrow> Inl AttributeError
      | Some n \<Rightarrow> foldE (est_step self metric tid k) (replicate (nat n) 0)
                     (List.enumerate 0 (dd_get (BPs self) k)))"

definition EstMetric ::
    "(rat list \<Rightarrow> 'f) \<Rightarrow> (rat list \<Rightarrow> 'f) \<Rightarrow> error_estimate \<Rightarrow> string \<Rightarrow> int \<Rightarrow> int \<Rightarrow> ('f \<times> 'f) res" where
  "EstMetric mean std self metric tid k =
     bindE (est_values self metric tid k) (\<lambda>vs. Inr (mean vs, std vs))"

section \<open>The estimate of an iteration\<close>

text \<open>
  The estimate from one row of the table: a running float sum of the values of the selected regions times
  their multipliers, in the order of the selection.
\<close>

definition float_estimate :: "(int \<times> rat) list \<Rightarrow> rat list \<Rightarrow> rat" where
  "float_estimate sel row = foldl fadd 0 (map (\<lambda>(bp, m). fmul m (row ! nat bp)) sel)"

definition exact_estimate :: "(int \<times> rat) list \<Rightarrow> rat list \<Rightarrow> rat" where
  "exact_estimate sel row = sum_list (map (\<lambda>(bp, m). m * row ! nat bp) sel)"

text \<open>The barrier points that lie in a table of \<open>R\<close> regions.\<close>

definition inside :: "nat \<Rightarrow> (int \<times> rat) list \<Rightarrow> (int \<times> rat) list" where
  "inside R sel = filter (\<lambda>(bp, m). bp < int R) sel"

lemma zip_map_self: "zip (map f xs) xs = map (\<lambda>x. (f x, x)) xs"
  by (induction xs) simp_all

text \<open>One step on values that are a function of the rows.\<close>

lemma est_step_rows:
  assumes "get_item (STATSbp self) tid = Inr d" "rows = d metric" "rows \<noteq> []" "\<And>row. row \<in> set rows \<Longrightarrow> length row = R"
    and "get_item (dd_get (BPs_mult self) k) (int i) = Inr m" "0 \<le> bp"
  shows "est_step self metric tid k (map f rows) (i, bp) =
    (if bp = int R then Inl IndexError
     else Inr (map (\<lambda>row. if int R < bp then f row else fadd (f row) (fmul m (row ! nat bp))) rows))"
proof -
  have first: "get_item rows 0 = Inr (hd rows)" "length (hd rows) = R"
    using assms(3,4) by (simp_all add: get_item_in hd_conv_nth)
  have "est_step self metric tid k (map f rows) (i, bp) =
    (if int R < bp then Inr (map f rows)
     else mapE (\<lambda>row. bindE (get_item row bp) (\<lambda>y. Inr (fadd (f row) (fmul m y)))) rows)"
    using assms(1,2,5) first by (simp add: est_step_def zip_map_self mapE_map)
  moreover have "mapE (\<lambda>row. bindE (get_item row bp) (\<lambda>y. Inr (fadd (f row) (fmul m y)))) rows
      = Inr (map (\<lambda>row. fadd (f row) (fmul m (row ! nat bp))) rows)" if "bp < int R"
    by (rule mapE_returns) (use that assms(4,6) in \<open>simp add: get_item_in\<close>)
  moreover have "mapE (\<lambda>row. bindE (get_item row bp) (\<lambda>y. Inr (fadd (f row) (fmul m y)))) rows = Inl IndexError"
    if "bp = int R"
    using assms(3) that assms(4) [of "hd rows"] by (cases rows) (simp_all add: get_item_out)
  ultimately show ?thesis by auto
qed

end
