(* ===== verification/Spec2Isabelle.thy ===== *)
theory Spec2Isabelle
  imports Bp_Driver Perf_Experiment Error_Estimate
begin

text \<open>
  BarrierPoint identifies, selects and analyses representative regions of parallel programs.
\<close>

end
